(* ===== verification/Prelude.thy ===== *)
theory Prelude
  imports Main "HOL-Library.Word"
begin

text \<open>
  Shared vocabulary of the development: byte strings and machine integers, Rust's
  \<open>Result\<close> with its \<open>?\<close> operator, checked conversions of slices into arrays,
  little- and big-endian encodings, \<open>&mut self\<close> methods, and the generic interfaces that
  the components share: a codec, a one-way key chain and an invariant-preserving machine.

  A Rust \<open>[u8; N]\<close>, \<open>&[u8]\<close> or \<open>Vec<u8>\<close> is a list of 8-bit words; where the
  source has an array type, the length is part of the component's well-formedness
  predicate. A \<open>u32\<close> or \<open>u64\<close> is a word of that width. The workspace's release
  profile does not turn overflow checks on, so the unchecked \<open>+ 1\<close> of the source is
  the wrapping \<open>+\<close> of words, and \<open>saturating_add\<close> is written out.
\<close>

section \<open>Types and collections of rules\<close>

type_synonym byte = "8 word"
type_synonym bytes = "byte list"
type_synonym u32 = "32 word"
type_synonym u64 = "64 word"

named_theorems result_simps \<open>rules that compute with results and the ? operator\<close>
named_theorems size_simps \<open>the numeric constants of the protocol\<close>

section \<open>Rust's Result\<close>

text \<open>\<open>Inl\<close> is \<open>Err\<close>, \<open>Inr\<close> is \<open>Ok\<close>; \<^term>\<open>and_then\<close> is the \<open>?\<close> operator
  followed by the rest of the function.\<close>

fun and_then :: "'e + 'a \<Rightarrow> ('a \<Rightarrow> 'e + 'b) \<Rightarrow> 'e + 'b" where
  "and_then (Inl e) f = Inl e"
| "and_then (Inr x) f = f x"

fun map_err :: "('e \<Rightarrow> 'f) \<Rightarrow> 'e + 'a \<Rightarrow> 'f + 'a" where
  "map_err f (Inl e) = Inl (f e)"
| "map_err f (Inr x) = Inr x"

fun ok_or :: "'e \<Rightarrow> 'a option \<Rightarrow> 'e + 'a" where
  "ok_or e None = Inl e"
| "ok_or e (Some x) = Inr x"

fun is_ok :: "'e + 'a \<Rightarrow> bool" where
  "is_ok (Inl e) = False"
| "is_ok (Inr x) = True"

text \<open>\<open>slice.try_into()\<close> to an array of \<open>n\<close> elements: the lengths must agree.\<close>

definition try_into :: "nat \<Rightarrow> 'e \<Rightarrow> 'a list \<Rightarrow> 'e + 'a list" where
  "try_into n e xs = (if length xs = n then Inr xs else Inl e)"

lemma and_then_Inr_iff [result_simps]:
  "and_then r f = Inr y \<longleftrightarrow> (\<exists>x. r = Inr x \<and> f x = Inr y)"
  by (cases r) auto

lemma and_then_Inl_iff [result_simps]:
  "and_then r f = Inl e \<longleftrightarrow> r = Inl e \<or> (\<exists>x. r = Inr x \<and> f x = Inl e)"
  by (cases r) auto

lemma map_err_Inr_iff [simp, result_simps]: "map_err f r = Inr y \<longleftrightarrow> r = Inr y"
  by (cases r) auto

lemma map_err_Inl_iff [result_simps]: "map_err f r = Inl d \<longleftrightarrow> (\<exists>e. r = Inl e \<and> d = f e)"
  by (cases r) auto

lemma ok_or_Inr_iff [simp, result_simps]: "ok_or e r = Inr y \<longleftrightarrow> r = Some y"
  by (cases r) auto

lemma ok_or_Inl_iff [simp, result_simps]: "ok_or e r = Inl d \<longleftrightarrow> r = None \<and> d = e"
  by (cases r) auto

lemma is_ok_iff [result_simps]: "is_ok r \<longleftrightarrow> (\<exists>x. r = Inr x)"
  by (cases r) auto

lemma not_is_ok_iff: "\<not> is_ok r \<longleftrightarrow> (\<exists>e. r = Inl e)"
  by (cases r) auto

lemma and_then_assoc [result_simps]:
  "and_then (and_then r f) g = and_then r (\<lambda>x. and_then (f x) g)"
  by (cases r) auto

lemma try_into_ok [simp, intro]: "length xs = n \<Longrightarrow> try_into n e xs = Inr xs"
  by (simp add: try_into_def)

lemma try_into_Inr_iff [result_simps]: "try_into n e xs = Inr ys \<longleftrightarrow> ys = xs \<and> length xs = n"
  by (auto simp: try_into_def)

lemma try_into_Inl_iff [result_simps]: "try_into n e xs = Inl d \<longleftrightarrow> d = e \<and> length xs \<noteq> n"
  by (auto simp: try_into_def)

section \<open>Decimal numerals\<close>

text \<open>An integer as \<open>format!\<close> prints it.\<close>

fun decimal_nat :: "nat \<Rightarrow> string" where
  "decimal_nat n = (if n < 10 then [char_of (48 + n)] else decimal_nat (n div 10) @ [char_of (48 + n mod 10)])"

declare decimal_nat.simps [simp del]

definition decimal :: "int \<Rightarrow> string" where
  "decimal i = (if i < 0 then ''-'' @ decimal_nat (nat (- i)) else decimal_nat (nat i))"

section \<open>UTF-8\<close>

text \<open>A Rust \<open>String\<close> is the list of its UTF-8 code units; \<open>from_utf8\<close> accepts well-formed UTF-8 only.\<close>

definition between :: "nat \<Rightarrow> byte \<Rightarrow> nat \<Rightarrow> bool" where
  "between lo b hi \<longleftrightarrow> lo \<le> unat b \<and> unat b \<le> hi"

fun utf8 :: "bytes \<Rightarrow> bool" where
  "utf8 [] = True"
| "utf8 (a # bs) =
    (if between 0x00 a 0x7F then utf8 bs
     else case bs of
       [] \<Rightarrow> False
     | b # bs1 \<Rightarrow>
       if between 0xC2 a 0xDF then between 0x80 b 0xBF \<and> utf8 bs1
       else case bs1 of
         [] \<Rightarrow> False
       | c # bs2 \<Rightarrow>
         if between 0xE0 a 0xEF then
           (if unat a = 0xE0 then between 0xA0 b 0xBF else if unat a = 0xED then between 0x80 b 0x9F
            else between 0x80 b 0xBF) \<and> between 0x80 c 0xBF \<and> utf8 bs2
         else case bs2 of
           [] \<Rightarrow> False
         | d # bs3 \<Rightarrow>
           between 0xF0 a 0xF4 \<and>
           (if unat a = 0xF0 then between 0x90 b 0xBF else if unat a = 0xF4 then between 0x80 b 0x8F
            else between 0x80 b 0xBF) \<and> between 0x80 c 0xBF \<and> between 0x80 d 0xBF \<and> utf8 bs3)"

lemma utf8_ascii: "(\<And>b. b \<in> set bs \<Longrightarrow> unat b < 128) \<Longrightarrow> utf8 bs"
proof (induction bs)
  case (Cons b bs)
  then have "unat b < 128" by simp
  then have "between 0x00 b 0x7F" by (simp add: between_def)
  with Cons show ?case by simp
qed simp

section \<open>Methods that change their receiver\<close>

text \<open>
  A method on \<open>&mut self\<close> that returns a \<open>Result\<close> is a function to the result and the
  state it leaves behind, since the changes made before an early return persist.
  \<open>try_st r s f\<close> is the \<open>?\<close> operator on \<open>r\<close> in state \<open>s\<close>, and \<open>then_st\<close> calls another
  such method first.
\<close>

fun try_st :: "'e + 'a \<Rightarrow> 's \<Rightarrow> ('a \<Rightarrow> ('e + 'b) \<times> 's) \<Rightarrow> ('e + 'b) \<times> 's" where
  "try_st (Inl e) s f = (Inl e, s)"
| "try_st (Inr x) s f = f x"

fun then_st :: "('e + 'a) \<times> 's \<Rightarrow> ('a \<Rightarrow> 's \<Rightarrow> ('e + 'b) \<times> 's) \<Rightarrow> ('e + 'b) \<times> 's" where
  "then_st (Inl e, s) f = (Inl e, s)"
| "then_st (Inr x, s) f = f x s"

text \<open>A sequence of calls: the results in order, and the last state.\<close>

fun run_all :: "('a \<Rightarrow> 's \<Rightarrow> 'b \<times> 's) \<Rightarrow> 'a list \<Rightarrow> 's \<Rightarrow> 'b list \<times> 's" where
  "run_all f [] s = ([], s)"
| "run_all f (x # xs) s =
     (case f x s of (y, s1) \<Rightarrow> case run_all f xs s1 of (ys, s2) \<Rightarrow> (y # ys, s2))"

lemma try_st_split:
  "Q (try_st r s f) \<longleftrightarrow> (\<forall>e. r = Inl e \<longrightarrow> Q (Inl e, s)) \<and> (\<forall>x. r = Inr x \<longrightarrow> Q (f x))"
  by (cases r) auto

lemma try_st_split_asm:
  "Q (try_st r s f) \<longleftrightarrow> \<not> ((\<exists>e. r = Inl e \<and> \<not> Q (Inl e, s)) \<or> (\<exists>x. r = Inr x \<and> \<not> Q (f x)))"
  by (cases r) auto

lemma then_st_split:
  "Q (then_st p f) \<longleftrightarrow> (\<forall>e s. p = (Inl e, s) \<longrightarrow> Q (Inl e, s)) \<and> (\<forall>x s. p = (Inr x, s) \<longrightarrow> Q (f x s))"
  by (cases p; cases "fst p") auto

lemma then_st_split_asm:
  "Q (then_st p f) \<longleftrightarrow>
     \<not> ((\<exists>e s. p = (Inl e, s) \<and> \<not> Q (Inl e, s)) \<or> (\<exists>x s. p = (Inr x, s) \<and> \<not> Q (f x s)))"
  by (cases p; cases "fst p") auto

lemmas st_splits = try_st_split then_st_split
lemmas st_splits_asm = try_st_split_asm then_st_split_asm

lemma run_all_append:
  "run_all f (xs @ ys) s =
     (let (us, s1) = run_all f xs s; (vs, s2) = run_all f ys s1 in (us @ vs, s2))"
  by (induction xs arbitrary: s) (auto split: prod.splits)

lemma run_all_invariant:
  assumes "I s" "\<And>x s y s'. x \<in> set xs \<Longrightarrow> I s \<Longrightarrow> f x s = (y, s') \<Longrightarrow> R x y \<and> I s'"
  shows "list_all2 R xs (fst (run_all f xs s)) \<and> I (snd (run_all f xs s))"
  using assms
proof (induction xs arbitrary: s)
  case Nil
  then show ?case by simp
next
  case (Cons x xs)
  obtain y s1 where f: "f x s = (y, s1)" by (cases "f x s")
  with Cons.prems have "R x y" "I s1" by auto
  moreover have "list_all2 R xs (fst (run_all f xs s1)) \<and> I (snd (run_all f xs s1))"
    using Cons.prems(2) by (intro Cons.IH \<open>I s1\<close>) auto
  ultimately show ?case by (simp add: f split_beta)
qed

section \<open>Byte encodings of integers\<close>

primrec le_bytes :: "nat \<Rightarrow> nat \<Rightarrow> bytes" where
  "le_bytes 0 k = []"
| "le_bytes (Suc n) k = word_of_nat k # le_bytes n (k div 256)"

primrec le_nat :: "bytes \<Rightarrow> nat" where
  "le_nat [] = 0"
| "le_nat (b # bs) = unat b + 256 * le_nat bs"

definition u32_to_le_bytes :: "u32 \<Rightarrow> bytes" where
  "u32_to_le_bytes w = le_bytes 4 (unat w)"

definition u32_to_be_bytes :: "u32 \<Rightarrow> bytes" where
  "u32_to_be_bytes w = rev (le_bytes 4 (unat w))"

definition u32_from_be_bytes :: "bytes \<Rightarrow> u32" where
  "u32_from_be_bytes bs = word_of_nat (le_nat (rev bs))"

definition u64_to_le_bytes :: "u64 \<Rightarrow> bytes" where
  "u64_to_le_bytes w = le_bytes 8 (unat w)"

definition u64_to_be_bytes :: "u64 \<Rightarrow> bytes" where
  "u64_to_be_bytes w = rev (le_bytes 8 (unat w))"

text \<open>A byte-string literal \<open>b"..."\<close> and \<open>str::as_bytes\<close>.\<close>

definition bstr :: "string \<Rightarrow> bytes" where
  "bstr s = map of_char s"

definition string_of_bytes :: "bytes \<Rightarrow> string" where
  "string_of_bytes bs = map (\<lambda>b. char_of (unat b)) bs"

lemma length_le_bytes [simp]: "length (le_bytes n k) = n"
  by (induction n arbitrary: k) auto

lemma length_u_bytes [simp]:
  "length (u32_to_le_bytes v) = 4" "length (u32_to_be_bytes v) = 4"
  "length (u64_to_le_bytes w) = 8" "length (u64_to_be_bytes w) = 8"
  by (simp_all add: u32_to_le_bytes_def u32_to_be_bytes_def u64_to_le_bytes_def u64_to_be_bytes_def)

lemma length_bstr [simp]: "length (bstr s) = length s"
  by (simp add: bstr_def)

lemma unat_byte_of_nat: "unat (word_of_nat k :: byte) = k mod 256"
  by (simp add: unat_of_nat)

lemma le_nat_le_bytes: "le_nat (le_bytes n k) = k mod 256 ^ n"
proof (induction n arbitrary: k)
  case 0
  then show ?case by simp
next
  case (Suc n)
  have "le_nat (le_bytes (Suc n) k) = k mod 256 + 256 * (k div 256 mod 256 ^ n)"
    by (simp add: Suc unat_byte_of_nat)
  also have "\<dots> = k mod (256 * 256 ^ n)"
    by (simp add: mod_mult2_eq)
  finally show ?case by simp
qed

lemma le_bytes_inject:
  "k < 256 ^ n \<Longrightarrow> l < 256 ^ n \<Longrightarrow> le_bytes n k = le_bytes n l \<longleftrightarrow> k = l"
  by (metis le_nat_le_bytes mod_less)

lemma unat_lt_bytes: "unat (v :: u32) < 256 ^ 4" "unat (w :: u64) < 256 ^ 8"
  using unsigned_less [of v] unsigned_less [of w] by simp_all

lemma unat_byte_lt: "unat (b :: byte) < 256"
proof -
  have "unat b < 2 ^ LENGTH(8)" by (rule unsigned_less)
  then show ?thesis by simp
qed

lemma bstr_string_of_bytes [simp]: "bstr (string_of_bytes bs) = bs"
proof -
  have "of_char (char_of (unat b)) = b" for b :: byte
  proof -
    have "of_char (char_of (unat b)) = (of_nat (of_char (char_of (unat b)) :: nat) :: byte)"
      by (simp only: of_nat_of_char)
    also have "\<dots> = of_nat (unat b)" using unat_byte_lt [of b] by (simp del: of_nat_of_char)
    finally show ?thesis by simp
  qed
  then show ?thesis by (simp add: bstr_def string_of_bytes_def map_idI)
qed

lemma unat_of_char: "unat (of_char ch :: byte) = of_char ch"
proof -
  have "unat (of_nat (of_char ch :: nat) :: byte) = (of_char ch :: nat) mod 256" by (rule unat_byte_of_nat)
  then show ?thesis by (simp only: of_nat_of_char) simp
qed

lemma string_of_bytes_bstr [simp]: "string_of_bytes (bstr s) = s"
  by (simp add: bstr_def string_of_bytes_def unat_of_char comp_def map_idI)

lemma string_of_bytes_NUL: "CHR 0x00 \<in> set (string_of_bytes bs) \<longleftrightarrow> 0 \<in> set bs"
proof -
  have "char_of (unat b) = CHR 0x00 \<longleftrightarrow> b = 0" for b :: byte
  proof
    assume "char_of (unat b) = CHR 0x00"
    then have "of_char (char_of (unat b)) = (0 :: nat)" by simp
    then show "b = 0" using unat_byte_lt [of b] by (simp add: unat_eq_0)
  next
    have "of_char (CHR 0x00) = (0 :: nat)" by simp
    moreover assume "b = 0"
    ultimately show "char_of (unat b) = CHR 0x00" by (metis char_of_char unsigned_0)
  qed
  then show ?thesis unfolding string_of_bytes_def set_map image_iff by metis
qed

lemma u32_to_le_bytes_inject [simp]: "u32_to_le_bytes v = u32_to_le_bytes w \<longleftrightarrow> v = w"
  by (simp add: u32_to_le_bytes_def le_bytes_inject [OF unat_lt_bytes(1) unat_lt_bytes(1)] word_unat_eq_iff)

lemma u64_to_le_bytes_inject [simp]: "u64_to_le_bytes v = u64_to_le_bytes w \<longleftrightarrow> v = w"
  by (simp add: u64_to_le_bytes_def le_bytes_inject [OF unat_lt_bytes(2) unat_lt_bytes(2)] word_unat_eq_iff)

lemma u64_to_be_bytes_inject [simp]: "u64_to_be_bytes v = u64_to_be_bytes w \<longleftrightarrow> v = w"
  by (simp add: u64_to_be_bytes_def le_bytes_inject [OF unat_lt_bytes(2) unat_lt_bytes(2)] word_unat_eq_iff)

lemma u32_be_roundtrip [simp]: "u32_from_be_bytes (u32_to_be_bytes w) = w"
  using unat_lt_bytes(1) [of w]
  by (simp add: u32_from_be_bytes_def u32_to_be_bytes_def le_nat_le_bytes)

lemma unat_Suc_less: "(i :: u64) < n \<Longrightarrow> unat (i + 1) = unat i + 1"
  using unat_lt_bytes(2) [of n] by (simp add: word_less_nat_alt unat_word_ariths)

section \<open>Saturating counters\<close>

definition saturating_add1 :: "u64 \<Rightarrow> u64" where
  "saturating_add1 w = (if w = -1 then w else w + 1)"

lemma unat_saturating_add1: "unat (saturating_add1 w) = min (unat w + 1) (2 ^ 64 - 1)"
proof (cases "w = -1")
  case True
  then show ?thesis by (simp add: saturating_add1_def unsigned_minus_1_eq_mask mask_eq_exp_minus_1)
next
  case False
  have "unat w \<noteq> unat (-1 :: u64)"
    using False by (simp add: word_unat_eq_iff)
  then have "unat w + 1 < 2 ^ 64"
    using unat_lt_bytes(2) [of w] by (simp add: unsigned_minus_1_eq_mask mask_eq_exp_minus_1)
  then show ?thesis
    using False by (simp add: saturating_add1_def unat_word_ariths)
qed

section \<open>Interface: a codec\<close>

text \<open>
  The contract between an encoder and the decoder on the other side: whatever a valid
  value encodes to decodes to that value. The clients' lemmas (no two valid values share
  an encoding, whole sequences survive the trip) are proved once here.
\<close>

locale codec =
  fixes enc :: "'a \<Rightarrow> 'e + 'b"
    and dec :: "'b \<Rightarrow> 'f + 'a"
    and valid :: "'a \<Rightarrow> bool"
  assumes dec_enc: "valid x \<Longrightarrow> enc x = Inr y \<Longrightarrow> dec y = Inr x"
begin

lemma enc_injective:
  assumes "valid x" "valid x'" "enc x = Inr y" "enc x' = Inr y"
  shows "x = x'"
  using dec_enc [OF assms(1,3)] dec_enc [OF assms(2,4)] by simp

lemma dec_stream:
  "list_all valid xs \<Longrightarrow> list_all2 (\<lambda>x y. enc x = Inr y) xs ys \<Longrightarrow> map dec ys = map Inr xs"
proof (induction xs arbitrary: ys)
  case Nil
  then show ?case by simp
next
  case (Cons x xs)
  then show ?case
    by (cases ys) (auto intro: dec_enc)
qed

end

text \<open>An encoder that also accepts every valid value.\<close>

locale total_codec = codec +
  assumes enc_total: "valid x \<Longrightarrow> \<exists>y. enc x = Inr y"
begin

lemma roundtrip: "valid x \<Longrightarrow> \<exists>y. enc x = Inr y \<and> dec y = Inr x"
  using enc_total dec_enc by blast

end

section \<open>Interface: a one-way key chain\<close>

text \<open>
  The symmetric ratchets of the program (the chains of the Double Ratchet, the sender
  keys of a group) share one contract: every link derives a key and the next link, and
  carries a counter that goes up by one.
\<close>

definition nth_link :: "('c \<Rightarrow> 'e + 'c) \<Rightarrow> 'c \<Rightarrow> nat \<Rightarrow> 'c" where
  "nth_link advance c n = ((\<lambda>c. projr (advance c)) ^^ n) c"

lemma nth_link_0 [simp]: "nth_link advance c 0 = c"
  by (simp add: nth_link_def)

lemma nth_link_shift: "advance c = Inr c' \<Longrightarrow> nth_link advance c (Suc n) = nth_link advance c' n"
  by (simp add: nth_link_def funpow_Suc_right del: funpow.simps)

locale kdf_chain =
  fixes advance :: "'c \<Rightarrow> 'e + 'c"
    and key_of :: "'c \<Rightarrow> 'e + 'k"
    and counter :: "'c \<Rightarrow> u64"
    and ok :: "'c \<Rightarrow> bool"
  assumes advance_ok: "ok c \<Longrightarrow> \<exists>c'. advance c = Inr c' \<and> ok c'"
    and key_ok: "ok c \<Longrightarrow> \<exists>k. key_of c = Inr k"
    and advance_counter:
      "advance c = Inr c' \<Longrightarrow> unat (counter c) + 1 < 2 ^ 64 \<Longrightarrow> unat (counter c') = unat (counter c) + 1"
begin

lemma nth_ok: "ok c \<Longrightarrow> ok (nth_link advance c n)"
proof (induction n)
  case 0
  then show ?case by simp
next
  case (Suc n)
  then show ?case using advance_ok [of "nth_link advance c n"] by (auto simp: nth_link_def)
qed

lemma advance_nth: "ok c \<Longrightarrow> advance (nth_link advance c n) = Inr (nth_link advance c (Suc n))"
  using advance_ok [OF nth_ok, of c n] by (auto simp: nth_link_def)

lemma key_nth: "ok c \<Longrightarrow> \<exists>k. key_of (nth_link advance c n) = Inr k"
  by (rule key_ok [OF nth_ok])

lemma counter_nth:
  "ok c \<Longrightarrow> unat (counter c) + n < 2 ^ 64 \<Longrightarrow> unat (counter (nth_link advance c n)) = unat (counter c) + n"
proof (induction n)
  case 0
  then show ?case by simp
next
  case (Suc n)
  then show ?case using advance_counter [OF advance_nth [of c n]] by simp
qed

lemma counter_nth_inject:
  assumes "ok c" "unat (counter c) + m < 2 ^ 64" "unat (counter c) + n < 2 ^ 64"
  shows "counter (nth_link advance c m) = counter (nth_link advance c n) \<longleftrightarrow> m = n"
  using counter_nth [OF assms(1,2)] counter_nth [OF assms(1,3)] by (metis add_left_imp_eq)

end

section \<open>Interface: an invariant-preserving machine\<close>

text \<open>
  Every stateful component is a set of operations on a state. If each of them keeps an
  invariant, so does every sequence of them, in whatever order they are called.
\<close>

locale machine =
  fixes exec :: "'op \<Rightarrow> 's \<Rightarrow> 's"
    and inv :: "'s \<Rightarrow> bool"
  assumes exec_inv: "inv s \<Longrightarrow> inv (exec op s)"
begin

lemma run_inv: "inv s \<Longrightarrow> inv (fold exec ops s)"
  by (induction ops arbitrary: s) (auto intro: exec_inv)

end

end
