(* ===== verification/Crypto_Base.thy ===== *)
theory Crypto_Base
  imports Prelude
begin

text \<open>
  What every component of the crypto crate builds on: the constants of
  \<open>presidium-crypto/src/constants.rs\<close>, the error type of
  \<open>presidium-crypto/src/error.rs\<close>, and the primitives the crate takes from third-party
  packages.

  The primitives (x25519-dalek, ed25519-dalek, ml-dsa, ml-kem, hkdf, hmac,
  chacha20poly1305, sha2) are not part of the repository. They are the fields of the
  record \<open>prims\<close>, an argument of every definition that calls them, and what
  the code relies on is stated as the named predicates \<open>dh_law\<close>, \<open>hkdf_law\<close>,
  \<open>hmac_law\<close>, \<open>aead_law\<close>, \<open>ed25519_law\<close>, \<open>mldsa_law\<close> and \<open>mlkem_law\<close>. Random
  draws are arguments as well: the bytes that the generator returned.
\<close>

section \<open>Constants\<close>

definition ED25519_PUBLIC_KEY_SIZE :: nat where [simp]: "ED25519_PUBLIC_KEY_SIZE = 32"
definition ED25519_PRIVATE_KEY_SIZE :: nat where [simp]: "ED25519_PRIVATE_KEY_SIZE = 32"
definition ED25519_SIGNATURE_SIZE :: nat where [simp]: "ED25519_SIGNATURE_SIZE = 64"
definition X25519_PUBLIC_KEY_SIZE :: nat where [simp]: "X25519_PUBLIC_KEY_SIZE = 32"
definition X25519_PRIVATE_KEY_SIZE :: nat where [simp]: "X25519_PRIVATE_KEY_SIZE = 32"
definition ML_KEM_1024_PUBLIC_KEY_SIZE :: nat where [simp]: "ML_KEM_1024_PUBLIC_KEY_SIZE = 1568"
definition ML_KEM_1024_PRIVATE_KEY_SIZE :: nat where [simp]: "ML_KEM_1024_PRIVATE_KEY_SIZE = 64"
definition ML_KEM_1024_CIPHERTEXT_SIZE :: nat where [simp]: "ML_KEM_1024_CIPHERTEXT_SIZE = 1568"
definition ML_DSA_87_PUBLIC_KEY_SIZE :: nat where [simp]: "ML_DSA_87_PUBLIC_KEY_SIZE = 2592"
definition ML_DSA_87_PRIVATE_KEY_SIZE :: nat where [simp]: "ML_DSA_87_PRIVATE_KEY_SIZE = 32"
definition ML_DSA_87_SIGNATURE_SIZE :: nat where [simp]: "ML_DSA_87_SIGNATURE_SIZE = 4627"
definition CHACHA20_POLY1305_KEY_SIZE :: nat where [simp]: "CHACHA20_POLY1305_KEY_SIZE = 32"
definition CHACHA20_POLY1305_NONCE_SIZE :: nat where [simp]: "CHACHA20_POLY1305_NONCE_SIZE = 12"
definition HMAC_SHA256_SIZE :: nat where [simp]: "HMAC_SHA256_SIZE = 32"
definition ROOT_KEY_SIZE :: nat where [simp]: "ROOT_KEY_SIZE = 32"
definition CHAIN_KEY_SIZE :: nat where [simp]: "CHAIN_KEY_SIZE = 32"
definition MESSAGE_KEY_SIZE :: nat where [simp]: "MESSAGE_KEY_SIZE = 32"
definition MAX_SKIP_MESSAGES :: nat where "MAX_SKIP_MESSAGES = 1000"
definition MEDIA_KEY_SIZE :: nat where [simp]: "MEDIA_KEY_SIZE = 32"
definition KEY_ROTATION_MESSAGE_COUNT :: u64 where "KEY_ROTATION_MESSAGE_COUNT = 1000"

section \<open>Errors\<close>

datatype crypto_error =
    InvalidKey string
  | InvalidSignature
  | DecryptionFailed
  | EncryptionFailed string
  | KeyDerivationFailed string
  | UnsupportedVersion u32
  | InvalidMessage string
  | RatchetError string
  | PqxdhError string
  | SerializationError string
  | InvalidParameter string
  | IllegalState string
  | NoPrekeysAvailable
  | KeyRotationRequired
  | MemoryError string

type_synonym 'a crypto_result = "crypto_error + 'a"

section \<open>The primitives\<close>

text \<open>
  \<open>x25519_base s\<close> is the public key of the secret \<open>s\<close> and \<open>x25519 s p\<close> the shared
  secret; a secret is its 32 bytes. \<open>ed25519_point\<close> tells whether bytes decode to a
  verifying key, \<open>mldsa_sig_ok\<close> whether bytes decode to a signature and \<open>mlkem_ek_ok\<close>
  whether bytes decode to an encapsulation key. \<open>hkdf salt ikm info n\<close> is extract followed
  by expand to \<open>n\<close> bytes, \<^term>\<open>None\<close> its \<open>InvalidLength\<close> error. \<open>chacha_seal\<close> and
  \<open>chacha_open\<close> take key, nonce, associated data and text.
\<close>

record prims =
  x25519_base :: "bytes \<Rightarrow> bytes"
  x25519 :: "bytes \<Rightarrow> bytes \<Rightarrow> bytes"
  ed25519_public :: "bytes \<Rightarrow> bytes"
  ed25519_sign :: "bytes \<Rightarrow> bytes \<Rightarrow> bytes"
  ed25519_point :: "bytes \<Rightarrow> bool"
  ed25519_verify :: "bytes \<Rightarrow> bytes \<Rightarrow> bytes \<Rightarrow> bool"
  mldsa_public :: "bytes \<Rightarrow> bytes"
  mldsa_sign :: "bytes \<Rightarrow> bytes \<Rightarrow> bytes"
  mldsa_sig_ok :: "bytes \<Rightarrow> bool"
  mldsa_verify :: "bytes \<Rightarrow> bytes \<Rightarrow> bytes \<Rightarrow> bool"
  mlkem_public :: "bytes \<Rightarrow> bytes"
  mlkem_ek_ok :: "bytes \<Rightarrow> bool"
  mlkem_encaps :: "bytes \<Rightarrow> bytes \<Rightarrow> bytes \<times> bytes"
  mlkem_decaps :: "bytes \<Rightarrow> bytes \<Rightarrow> bytes"
  hkdf :: "bytes option \<Rightarrow> bytes \<Rightarrow> bytes \<Rightarrow> nat \<Rightarrow> bytes option"
  hmac :: "bytes \<Rightarrow> bytes \<Rightarrow> bytes option"
  chacha_seal :: "bytes \<Rightarrow> bytes \<Rightarrow> bytes \<Rightarrow> bytes \<Rightarrow> bytes option"
  chacha_open :: "bytes \<Rightarrow> bytes \<Rightarrow> bytes \<Rightarrow> bytes \<Rightarrow> bytes option"
  sha256 :: "bytes \<Rightarrow> bytes"

section \<open>What the code relies on\<close>

text \<open>Diffie-Hellman commutes, and keys and shared secrets are 32 bytes.\<close>

definition dh_law :: "prims \<Rightarrow> bool" where
  "dh_law P \<longleftrightarrow>
     (\<forall>a b. x25519 P a (x25519_base P b) = x25519 P b (x25519_base P a)) \<and>
     (\<forall>a. length a = 32 \<longrightarrow> length (x25519_base P a) = 32)"

text \<open>HKDF-SHA256 expands to any length up to 255 blocks (RFC 5869).\<close>

definition hkdf_law :: "prims \<Rightarrow> bool" where
  "hkdf_law P \<longleftrightarrow> (\<forall>salt ikm info n. n \<le> 255 * 32 \<longrightarrow>
     (\<exists>out. hkdf P salt ikm info n = Some out \<and> length out = n))"

text \<open>HMAC-SHA256 accepts keys of every length and returns 32 bytes.\<close>

definition hmac_law :: "prims \<Rightarrow> bool" where
  "hmac_law P \<longleftrightarrow> (\<forall>k d. \<exists>out. hmac P k d = Some out \<and> length out = 32)"

text \<open>Opening what was sealed under the same key, nonce and associated data gives the text.\<close>

definition aead_law :: "prims \<Rightarrow> bool" where
  "aead_law P \<longleftrightarrow> (\<forall>k n a m c. chacha_seal P k n a m = Some c \<longrightarrow> chacha_open P k n a c = Some m)"

text \<open>Sealing fails only on texts beyond the cipher's limit, which is above 4 GiB.\<close>

definition aead_total :: "prims \<Rightarrow> bool" where
  "aead_total P \<longleftrightarrow> (\<forall>k n a m. length k = 32 \<longrightarrow> length n = 12 \<longrightarrow> length m < 2 ^ 32 \<longrightarrow>
     chacha_seal P k n a m \<noteq> None)"

text \<open>
  The tag binds the nonce: what was sealed under one nonce is refused under another. The cipher
  promises this up to a probability that is taken for zero here.
\<close>

definition aead_nonce_bound :: "prims \<Rightarrow> bool" where
  "aead_nonce_bound P \<longleftrightarrow> (\<forall>k n n' a m c. length n = 12 \<longrightarrow> length n' = 12 \<longrightarrow> n' \<noteq> n \<longrightarrow>
     chacha_seal P k n a m = Some c \<longrightarrow> chacha_open P k n' a c = None)"

definition ed25519_law :: "prims \<Rightarrow> bool" where
  "ed25519_law P \<longleftrightarrow> (\<forall>s m. length s = 32 \<longrightarrow>
     length (ed25519_public P s) = 32 \<and> ed25519_point P (ed25519_public P s) \<and>
     length (ed25519_sign P s m) = 64 \<and> ed25519_verify P (ed25519_public P s) m (ed25519_sign P s m))"

definition mldsa_law :: "prims \<Rightarrow> bool" where
  "mldsa_law P \<longleftrightarrow> (\<forall>s m. length s = 32 \<longrightarrow>
     length (mldsa_public P s) = 2592 \<and> length (mldsa_sign P s m) = 4627 \<and>
     mldsa_sig_ok P (mldsa_sign P s m) \<and> mldsa_verify P (mldsa_public P s) m (mldsa_sign P s m))"

definition mlkem_law :: "prims \<Rightarrow> bool" where
  "mlkem_law P \<longleftrightarrow> (\<forall>s r. length s = 64 \<longrightarrow>
     length (mlkem_public P s) = 1568 \<and> mlkem_ek_ok P (mlkem_public P s) \<and>
     length (fst (mlkem_encaps P (mlkem_public P s) r)) = 1568 \<and>
     mlkem_decaps P s (fst (mlkem_encaps P (mlkem_public P s) r)) =
       snd (mlkem_encaps P (mlkem_public P s) r))"

lemma dh_commutes: "dh_law P \<Longrightarrow> x25519 P a (x25519_base P b) = x25519 P b (x25519_base P a)"
  by (simp add: dh_law_def)

lemma length_x25519_base: "dh_law P \<Longrightarrow> length a = 32 \<Longrightarrow> length (x25519_base P a) = 32"
  by (simp add: dh_law_def)

lemma aead_open_seal: "aead_law P \<Longrightarrow> chacha_seal P k n a m = Some c \<Longrightarrow> chacha_open P k n a c = Some m"
  by (simp add: aead_law_def)

lemma aead_seal_ok:
  "aead_total P \<Longrightarrow> length k = 32 \<Longrightarrow> length n = 12 \<Longrightarrow> length m < 2 ^ 32 \<Longrightarrow>
     \<exists>c. chacha_seal P k n a m = Some c"
  unfolding aead_total_def by blast

section \<open>Shared helpers of the crate\<close>

text \<open>The private \<open>hmac_sha256\<close> of \<open>ratchet.rs\<close> and \<open>keys.rs\<close>.\<close>

definition hmac_sha256 :: "prims \<Rightarrow> bytes \<Rightarrow> bytes \<Rightarrow> bytes crypto_result" where
  "hmac_sha256 P key data =
     ok_or (KeyDerivationFailed ''Invalid HMAC key'') (hmac P key data)"

text \<open>\<open>hk.expand(info, &mut out)\<close> into an array of \<open>n\<close> bytes, with the caller's error.\<close>

definition expand :: "prims \<Rightarrow> bytes option \<Rightarrow> bytes \<Rightarrow> string \<Rightarrow> nat \<Rightarrow> string \<Rightarrow> bytes crypto_result" where
  "expand P salt ikm info n msg =
     ok_or (KeyDerivationFailed msg) (hkdf P salt ikm (bstr info) n)"

text \<open>The 12-byte nonce of a counter: four zero bytes, then the counter.\<close>

definition counter_nonce_le :: "u64 \<Rightarrow> bytes" where
  "counter_nonce_le i = replicate 4 0 @ u64_to_le_bytes i"

definition counter_nonce_be :: "u64 \<Rightarrow> bytes" where
  "counter_nonce_be i = replicate 4 0 @ u64_to_be_bytes i"

lemma counter_nonce_inject [simp]:
  "counter_nonce_le i = counter_nonce_le j \<longleftrightarrow> i = j"
  "counter_nonce_be i = counter_nonce_be j \<longleftrightarrow> i = j"
  by (simp_all add: counter_nonce_le_def counter_nonce_be_def)

lemma length_counter_nonce [simp]:
  "length (counter_nonce_le i) = CHACHA20_POLY1305_NONCE_SIZE"
  "length (counter_nonce_be i) = CHACHA20_POLY1305_NONCE_SIZE"
  by (simp_all add: counter_nonce_le_def counter_nonce_be_def)

lemma aead_nonce_boundD:
  "aead_nonce_bound P \<Longrightarrow> length n = 12 \<Longrightarrow> length n' = 12 \<Longrightarrow> n' \<noteq> n \<Longrightarrow> chacha_seal P k n a m = Some c \<Longrightarrow>
    chacha_open P k n' a c = None"
  by (simp add: aead_nonce_bound_def)

lemma hmac_sha256_ok: "hmac_law P \<Longrightarrow> \<exists>out. hmac_sha256 P k d = Inr out \<and> length out = 32"
  by (auto simp: hmac_sha256_def hmac_law_def dest: spec [of _ k])

lemma expand_ok:
  "hkdf_law P \<Longrightarrow> n \<le> 8160 \<Longrightarrow> \<exists>out. expand P salt ikm info n msg = Inr out \<and> length out = n"
  by (auto simp: expand_def hkdf_law_def)

end
