(* ===== verification/Json.thy ===== *)
theory Json
  imports Crypto_Base
begin

text \<open>
  Serialization: the data model that serde's derived implementations produce, and the
  versioned envelope of \<open>presidium-crypto/src/serialization.rs\<close>.

  serde_json itself is a third-party package. Its text layer is the record
  \<open>json_text\<close>: printing a value, parsing bytes, and the message it reports when a
  parsed value has the wrong shape for the type that is read. What the code relies on is
  \<open>json_law\<close>: a printed value parses to itself. Each type's own encoding (its fields
  and their order, an array for bytes, \<open>null\<close> for \<open>None\<close>) is a pair of functions
  between the type and \<open>json\<close>, defined with the type; the locale \<open>json_type\<close> is
  the interface between such a pair and the code that ships values of the type.
\<close>

section \<open>Values\<close>

datatype json =
    JNull
  | JBool bool
  | JNum nat
  | JNeg nat
  | JStr string
  | JArr "json list"
  | JObj "(string \<times> json) list"

text \<open>
  Numbers are serde_json's \<open>PosInt(u64)\<close> and \<open>NegInt(i64)\<close>, \<open>JNeg n\<close> standing for
  \<open>- n - 1\<close>. The values serde_json represents exactly: 64-bit numbers, no repeated key.
\<close>

fun json_wf :: "json \<Rightarrow> bool" where
  "json_wf (JNum n) = (n < 2 ^ 64)"
| "json_wf (JNeg n) = (n < 2 ^ 63)"
| "json_wf (JArr xs) = list_all json_wf xs"
| "json_wf (JObj kvs) = (distinct (map fst kvs) \<and> list_all (\<lambda>kv. json_wf (snd kv)) kvs)"
| "json_wf _ = True"

record json_text =
  json_to_vec :: "json \<Rightarrow> string + bytes"
  json_from_slice :: "bytes \<Rightarrow> string + json"
  json_shape_error :: "json \<Rightarrow> string"

definition json_law :: "json_text \<Rightarrow> bool" where
  "json_law J \<longleftrightarrow> (\<forall>j. json_wf j \<longrightarrow>
     (\<exists>bs. json_to_vec J j = Inr bs \<and> json_from_slice J bs = Inr j))"

text \<open>\<open>serde_json::to_vec(&x)\<close> and \<open>serde_json::from_slice::<T>(bytes)\<close>.\<close>

definition to_vec :: "json_text \<Rightarrow> ('a \<Rightarrow> json) \<Rightarrow> 'a \<Rightarrow> string + bytes" where
  "to_vec J to_json x = json_to_vec J (to_json x)"

definition from_slice :: "json_text \<Rightarrow> (json \<Rightarrow> 'a option) \<Rightarrow> bytes \<Rightarrow> string + 'a" where
  "from_slice J of_json bs =
     and_then (json_from_slice J bs) (\<lambda>j. ok_or (json_shape_error J j) (of_json j))"

text \<open>\<open>serde_json::to_string\<close> and \<open>from_str\<close>; control characters are escaped, so a text has no NUL.\<close>

definition to_string :: "json_text \<Rightarrow> ('a \<Rightarrow> json) \<Rightarrow> 'a \<Rightarrow> string + string" where
  "to_string J to_json x = and_then (to_vec J to_json x) (\<lambda>bs. Inr (string_of_bytes bs))"

definition from_str :: "json_text \<Rightarrow> (json \<Rightarrow> 'a option) \<Rightarrow> string \<Rightarrow> string + 'a" where
  "from_str J of_json s = from_slice J of_json (bstr s)"

definition json_nul_free :: "json_text \<Rightarrow> bool" where
  "json_nul_free J \<longleftrightarrow> (\<forall>j bs. json_to_vec J j = Inr bs \<longrightarrow> 0 \<notin> set bs)"

section \<open>The derived implementations\<close>

text \<open>
  A derived \<open>Deserialize\<close> of a struct reads an object, where each known key occurs at
  most once and unknown keys are skipped, or an array with one element per field. A
  missing key is an error unless the field is an \<open>Option\<close>.
\<close>

fun struct_fields :: "string list \<Rightarrow> json \<Rightarrow> json option list option" where
  "struct_fields names (JObj kvs) =
     (if list_all (\<lambda>n. length (filter (\<lambda>kv. fst kv = n) kvs) \<le> 1) names
      then Some (map (map_of kvs) names) else None)"
| "struct_fields names (JArr xs) =
     (if length xs = length names then Some (map Some xs) else None)"
| "struct_fields names _ = None"

definition required :: "(json \<Rightarrow> 'a option) \<Rightarrow> json option \<Rightarrow> 'a option" where
  "required f j = (case j of None \<Rightarrow> None | Some v \<Rightarrow> f v)"

definition optional :: "(json \<Rightarrow> 'a option) \<Rightarrow> json option \<Rightarrow> 'a option option" where
  "optional f j = (case j of None \<Rightarrow> Some None
     | Some v \<Rightarrow> (if v = JNull then Some None else map_option Some (f v)))"

definition json_option :: "('a \<Rightarrow> json) \<Rightarrow> 'a option \<Rightarrow> json" where
  "json_option f x = (case x of None \<Rightarrow> JNull | Some v \<Rightarrow> f v)"

definition json_uint :: "'a::len word \<Rightarrow> json" where
  "json_uint w = JNum (unat w)"

fun uint_of_json :: "json \<Rightarrow> 'a::len word option" where
  "uint_of_json (JNum n) = (if n < 2 ^ LENGTH('a) then Some (word_of_nat n) else None)"
| "uint_of_json _ = None"

definition i64_wf :: "int \<Rightarrow> bool" where
  "i64_wf i \<longleftrightarrow> - (2 ^ 63) \<le> i \<and> i < 2 ^ 63"

definition json_i64 :: "int \<Rightarrow> json" where
  "json_i64 i = (if 0 \<le> i then JNum (nat i) else JNeg (nat (- i - 1)))"

fun i64_of_json :: "json \<Rightarrow> int option" where
  "i64_of_json (JNum n) = (if n < 2 ^ 63 then Some (int n) else None)"
| "i64_of_json (JNeg n) = (if n < 2 ^ 63 then Some (- int n - 1) else None)"
| "i64_of_json _ = None"

fun string_of_json :: "json \<Rightarrow> string option" where
  "string_of_json (JStr s) = Some s"
| "string_of_json _ = None"

fun bool_of_json :: "json \<Rightarrow> bool option" where
  "bool_of_json (JBool b) = Some b"
| "bool_of_json _ = None"

definition json_list :: "('a \<Rightarrow> json) \<Rightarrow> 'a list \<Rightarrow> json" where
  "json_list f xs = JArr (map f xs)"

fun list_of_json :: "(json \<Rightarrow> 'a option) \<Rightarrow> json \<Rightarrow> 'a list option" where
  "list_of_json f (JArr xs) = those (map f xs)"
| "list_of_json f _ = None"

definition json_bytes :: "bytes \<Rightarrow> json" where
  "json_bytes bs = json_list json_uint bs"

definition bytes_of_json :: "json \<Rightarrow> bytes option" where
  "bytes_of_json j = list_of_json uint_of_json j"

text \<open>An array type \<open>[u8; n]\<close>, and a \<open>Vec\<close> converted into one by \<open>try_into\<close>.\<close>

definition array_of_json :: "nat \<Rightarrow> json \<Rightarrow> bytes option" where
  "array_of_json n j = Option.bind (bytes_of_json j) (\<lambda>bs. if length bs = n then Some bs else None)"

lemma those_map_Some: "(\<And>x. x \<in> set xs \<Longrightarrow> f x = Some (g x)) \<Longrightarrow> those (map f xs) = Some (map g xs)"
  by (induction xs) auto

lemma uint_of_json_uint [simp]: "uint_of_json (json_uint w) = Some w"
  by (simp add: json_uint_def)

lemma i64_of_json_i64 [simp]: "i64_wf i \<Longrightarrow> i64_of_json (json_i64 i) = Some i"
  by (auto simp: json_i64_def i64_wf_def)

lemma json_i64_wf [simp]: "i64_wf i \<Longrightarrow> json_wf (json_i64 i)"
  by (auto simp: json_i64_def i64_wf_def)

lemma list_of_json_list:
  "(\<And>x. x \<in> set xs \<Longrightarrow> f (g x) = Some x) \<Longrightarrow> list_of_json f (json_list g xs) = Some xs"
  using those_map_Some [of xs "f \<circ> g" id] by (simp add: json_list_def)

lemma bytes_of_json_bytes [simp]: "bytes_of_json (json_bytes bs) = Some bs"
  by (simp add: bytes_of_json_def json_bytes_def list_of_json_list)

lemma array_of_json_bytes [simp]: "length bs = n \<Longrightarrow> array_of_json n (json_bytes bs) = Some bs"
  by (simp add: array_of_json_def)

lemma array_of_json_length: "array_of_json n j = Some bs \<Longrightarrow> length bs = n"
  by (auto simp: array_of_json_def bind_eq_Some_conv split: if_splits)

lemma required_Some [simp]: "required f (Some j) = f j"
  by (simp add: required_def)

lemma optional_json_option [simp]:
  "(\<And>v. x = Some v \<Longrightarrow> f (g v) = Some v \<and> g v \<noteq> JNull) \<Longrightarrow> optional f (Some (json_option g x)) = Some x"
  by (cases x) (auto simp: optional_def json_option_def)

lemma json_uint_wf [simp]:
  "json_wf (json_uint (b :: byte))" "json_wf (json_uint (v :: u32))" "json_wf (json_uint (w :: u64))"
  using unat_lt_bytes(1) [of v] unat_lt_bytes(2) [of w] unat_byte_lt [of b]
  by (simp_all add: json_uint_def)

lemma json_list_wf: "(\<And>x. x \<in> set xs \<Longrightarrow> json_wf (f x)) \<Longrightarrow> json_wf (json_list f xs)"
  by (simp add: json_list_def list_all_iff)

lemma json_bytes_wf [simp]: "json_wf (json_bytes bs)"
  by (simp add: json_bytes_def json_list_wf)

lemma json_option_wf: "(\<And>v. x = Some v \<Longrightarrow> json_wf (f v)) \<Longrightarrow> json_wf (json_option f x)"
  by (cases x) (simp_all add: json_option_def)

lemma json_not_null [simp]:
  "json_uint w \<noteq> JNull" "json_bytes bs \<noteq> JNull" "json_list f xs \<noteq> JNull"
  by (simp_all add: json_uint_def json_bytes_def json_list_def)

section \<open>Interface: a type that crosses the wire as JSON\<close>

locale json_type =
  fixes to_json :: "'a \<Rightarrow> json"
    and of_json :: "json \<Rightarrow> 'a option"
    and valid :: "'a \<Rightarrow> bool"
  assumes of_to_json: "valid x \<Longrightarrow> of_json (to_json x) = Some x"
    and to_json_wf: "valid x \<Longrightarrow> json_wf (to_json x)"
begin

lemma to_json_injective: "valid x \<Longrightarrow> valid y \<Longrightarrow> to_json x = to_json y \<Longrightarrow> x = y"
  by (metis of_to_json option.inject)

lemma wire_roundtrip:
  assumes "json_law J" "valid x"
  shows "\<exists>bs. to_vec J to_json x = Inr bs \<and> from_slice J of_json bs = Inr x"
  using assms to_json_wf [OF assms(2)] of_to_json [OF assms(2)]
  by (fastforce simp: json_law_def to_vec_def from_slice_def)

end

context json_type
begin

lemma string_roundtrip:
  assumes "json_law J" "json_nul_free J" "valid x"
  shows "\<exists>s. to_string J to_json x = Inr s \<and> CHR 0x00 \<notin> set s \<and> from_str J of_json s = Inr x"
proof -
  obtain bs where "to_vec J to_json x = Inr bs" "from_slice J of_json bs = Inr x"
    using wire_roundtrip [OF assms(1,3)] by blast
  then show ?thesis
    using assms(2) by (auto simp: to_string_def from_str_def json_nul_free_def string_of_bytes_NUL to_vec_def)
qed

end

section \<open>Interface: a decoder that enforces its type\<close>

text \<open>Whatever bytes arrive, a value that is decoded from them has the lengths that its type fixes.\<close>

lemma required_decoded: "required f j = Some x \<Longrightarrow> \<exists>v. f v = Some x"
  by (auto simp: required_def split: option.splits)

lemma optional_decoded: "optional f j = Some x \<Longrightarrow> x = Some y \<Longrightarrow> \<exists>v. f v = Some y"
  by (auto simp: optional_def split: option.splits if_splits)

lemma those_decoded: "those (map f js) = Some xs \<Longrightarrow> x \<in> set xs \<Longrightarrow> \<exists>v. f v = Some x"
  by (induction js arbitrary: xs) (auto split: option.splits)

lemma list_decoded: "list_of_json f j = Some xs \<Longrightarrow> x \<in> set xs \<Longrightarrow> \<exists>v. f v = Some x"
  by (cases j) (auto dest: those_decoded)

lemma required_array_length: "required (array_of_json n) j = Some bs \<Longrightarrow> length bs = n"
  by (auto dest!: required_decoded array_of_json_length)

locale strict_json = json_type +
  assumes of_json_valid: "of_json j = Some x \<Longrightarrow> valid x"
begin

lemma required_valid: "required of_json j = Some x \<Longrightarrow> valid x"
  by (auto dest!: required_decoded of_json_valid)

lemma list_valid: "required (list_of_json of_json) j = Some xs \<Longrightarrow> list_all valid xs"
  by (auto simp: list_all_iff dest!: required_decoded list_decoded intro: of_json_valid)

lemma from_slice_valid: "from_slice J of_json bs = Inr x \<Longrightarrow> valid x"
  by (auto simp: from_slice_def result_simps intro: of_json_valid)

lemma from_str_valid: "from_str J of_json s = Inr x \<Longrightarrow> valid x"
  by (auto simp: from_str_def intro: from_slice_valid)

text \<open>What is accepted can be written again, and is then read as the same value.\<close>

lemma accepted_again:
  assumes "json_law J" "from_slice J of_json bs = Inr x"
  shows "\<exists>bs'. to_vec J to_json x = Inr bs' \<and> from_slice J of_json bs' = Inr x"
  by (rule wire_roundtrip [OF assms(1) from_slice_valid [OF assms(2)]])

end

section \<open>The versioned envelope\<close>

definition MAGIC :: bytes where
  "MAGIC = bstr ''PSDM''"

definition FORMAT_VERSION :: byte where
  "FORMAT_VERSION = 1"

definition serialize :: "json_text \<Rightarrow> ('a \<Rightarrow> json) \<Rightarrow> 'a \<Rightarrow> bytes crypto_result" where
  "serialize J to_json value =
     and_then (map_err SerializationError (to_vec J to_json value)) (\<lambda>payload.
     Inr (MAGIC @ [FORMAT_VERSION] @ payload))"

definition deserialize :: "json_text \<Rightarrow> (json \<Rightarrow> 'a option) \<Rightarrow> bytes \<Rightarrow> 'a crypto_result" where
  "deserialize J of_json data =
     (if length data < length MAGIC + 1 then Inl (InvalidMessage ''Data too short'')
      else if take (length MAGIC) data \<noteq> MAGIC then Inl (InvalidMessage ''Invalid magic bytes'')
      else let version = data ! length MAGIC in
        if version \<noteq> FORMAT_VERSION then Inl (UnsupportedVersion (ucast version))
        else map_err SerializationError (from_slice J of_json (drop (length MAGIC + 1) data)))"

lemma length_MAGIC [simp]: "length MAGIC = 4"
  by (simp add: MAGIC_def)

lemma deserialize_framed:
  "deserialize J of_json (MAGIC @ version # payload) =
     (if version \<noteq> FORMAT_VERSION then Inl (UnsupportedVersion (ucast version))
      else map_err SerializationError (from_slice J of_json payload))"
  by (simp add: deserialize_def nth_append Let_def)

text \<open>
  The versioned envelope: \<open>deserialize\<close> accepts exactly the magic bytes, the one
  supported version and a payload that parses; everything else is an error.
\<close>

theorem deserialize_accepts:
  "deserialize J of_json data = Inr x \<longleftrightarrow>
     (\<exists>payload. data = MAGIC @ FORMAT_VERSION # payload \<and> from_slice J of_json payload = Inr x)"
  (is "?l \<longleftrightarrow> ?r")
proof
  assume ?l
  then have len: "length data \<ge> 5" and magic: "take 4 data = MAGIC"
    and version: "data ! 4 = FORMAT_VERSION" and rest: "from_slice J of_json (drop 5 data) = Inr x"
    by (auto simp: deserialize_def Let_def split: if_splits)
  have "data = take 4 data @ data ! 4 # drop 5 data"
    using len id_take_nth_drop [of 4 data] by simp
  with magic version rest show ?r by metis
next
  assume ?r
  then show ?l by (auto simp: deserialize_framed)
qed

context json_type
begin

lemma serialize_roundtrip:
  assumes "json_law J" "valid x"
  shows "\<exists>bs. serialize J to_json x = Inr bs \<and> deserialize J of_json bs = Inr x"
  using wire_roundtrip [OF assms] by (auto simp: serialize_def deserialize_framed)

end

end
