(* ===== verification/Instances.thy ===== *)
theory Instances
  imports Json
begin

text \<open>
  Concrete functions for the third-party parameters, with the proofs that they behave as
  the laws of \<open>Crypto_Base\<close> and \<open>Json\<close> say. They are no cryptography: they show that
  the hypotheses of the theorems can hold together, and the witnesses are evaluated on
  them.
\<close>

section \<open>Primitives\<close>

definition pad :: "nat \<Rightarrow> bytes \<Rightarrow> bytes" where
  "pad n bs = take n (bs @ replicate n 0)"

definition sample_prims :: prims where
  "sample_prims =
     \<lparr>x25519_base = (\<lambda>s. s),
      x25519 = (\<lambda>s p. map2 (+) s p),
      ed25519_public = (\<lambda>s. s),
      ed25519_sign = (\<lambda>s m. pad 64 (s @ m)),
      ed25519_point = (\<lambda>p. True),
      ed25519_verify = (\<lambda>p m g. g = pad 64 (p @ m)),
      mldsa_public = (\<lambda>s. pad 2592 s),
      mldsa_sign = (\<lambda>s m. pad 4627 (s @ m)),
      mldsa_sig_ok = (\<lambda>g. True),
      mldsa_verify = (\<lambda>p m g. g = pad 4627 (take 32 p @ m)),
      mlkem_public = (\<lambda>s. pad 1568 s),
      mlkem_ek_ok = (\<lambda>k. True),
      mlkem_encaps = (\<lambda>k r. (pad 1568 r, map2 (+) (pad 32 r) (take 32 k))),
      mlkem_decaps = (\<lambda>s c. map2 (+) (take 32 c) (take 32 (pad 1568 s))),
      hkdf = (\<lambda>salt ikm info n. if n \<le> 255 * 32
        then Some (pad n ([word_of_nat (length info)] @ ikm @ case_option [] id salt)) else None),
      hmac = (\<lambda>k d. Some (pad 32 (word_of_nat (length d) # k))),
      chacha_seal = (\<lambda>k n a m. Some (k @ n @ a @ m)),
      chacha_open = (\<lambda>k n a c. if take (length (k @ n @ a)) c = k @ n @ a
        then Some (drop (length (k @ n @ a)) c) else None),
      sha256 = (\<lambda>m. pad 32 m)\<rparr>"

lemma length_pad [simp]: "length (pad n bs) = n"
  by (simp add: pad_def)

lemma take_pad: "m \<le> n \<Longrightarrow> take m (pad n bs) = pad m bs"
  by (simp add: pad_def min_def)

lemma take_pad_id: "length s = m \<Longrightarrow> m \<le> n \<Longrightarrow> take m (pad n s) = s"
  by (simp add: pad_def)

lemma map2_plus_commute: "map2 (+) xs ys = map2 (+) ys (xs :: bytes)"
  by (induction xs ys rule: list_induct2') (auto simp: add.commute)

lemma sample_dh: "dh_law sample_prims"
  by (simp add: dh_law_def sample_prims_def map2_plus_commute)

lemma sample_hkdf: "hkdf_law sample_prims"
  by (simp add: hkdf_law_def sample_prims_def)

lemma sample_hmac: "hmac_law sample_prims"
  by (simp add: hmac_law_def sample_prims_def)

lemma sample_aead: "aead_law sample_prims" "aead_total sample_prims"
  by (simp_all add: aead_law_def aead_total_def sample_prims_def)

lemma sample_nonce_bound: "aead_nonce_bound sample_prims"
  by (auto simp: aead_nonce_bound_def sample_prims_def)

lemma sample_signatures: "ed25519_law sample_prims" "mldsa_law sample_prims"
  by (simp_all add: ed25519_law_def mldsa_law_def sample_prims_def take_pad_id)

lemma sample_mlkem: "mlkem_law sample_prims"
  by (simp add: mlkem_law_def sample_prims_def take_pad)

lemmas sample_laws = sample_dh sample_hkdf sample_hmac sample_aead sample_signatures sample_mlkem

section \<open>A text format for JSON values\<close>

text \<open>
  A value is printed as a program for a stack of values, one instruction of nine bytes
  (an opcode and a little-endian operand) after the other, and parsed by running it. Each
  byte is written as two digits from 1 to 16, so that no byte of the text is zero.
\<close>

type_synonym token = "byte \<times> nat"

fun push_token :: "token \<Rightarrow> json list \<Rightarrow> json list" where
  "push_token (op, n) st =
     (if op = 0 then JNull # st
      else if op = 1 then JBool (n \<noteq> 0) # st
      else if op = 2 then JNum n # st
      else if op = 3 then JStr [] # st
      else if op = 4 then (case st of JStr s # st' \<Rightarrow> JStr (s @ [char_of n]) # st' | _ \<Rightarrow> [])
      else if op = 5 then JArr [] # st
      else if op = 6 then (case st of v # JArr xs # st' \<Rightarrow> JArr (xs @ [v]) # st' | _ \<Rightarrow> [])
      else if op = 7 then JObj [] # st
      else if op = 9 then JNeg n # st
      else (case st of v # JStr k # JObj kvs # st' \<Rightarrow> JObj (kvs @ [(k, v)]) # st' | _ \<Rightarrow> []))"

definition string_tokens :: "string \<Rightarrow> token list" where
  "string_tokens s = (3, 0) # map (\<lambda>c. (4, of_char c)) s"

fun json_tokens :: "json \<Rightarrow> token list" where
  "json_tokens JNull = [(0, 0)]"
| "json_tokens (JBool b) = [(1, if b then 1 else 0)]"
| "json_tokens (JNum n) = [(2, n)]"
| "json_tokens (JNeg n) = [(9, n)]"
| "json_tokens (JStr s) = string_tokens s"
| "json_tokens (JArr xs) = (5, 0) # concat (map (\<lambda>v. json_tokens v @ [(6, 0)]) xs)"
| "json_tokens (JObj kvs) =
     (7, 0) # concat (map (\<lambda>kv. string_tokens (fst kv) @ json_tokens (snd kv) @ [(8, 0)]) kvs)"

definition run_tokens :: "token list \<Rightarrow> json list \<Rightarrow> json list" where
  "run_tokens ts st = fold push_token ts st"

definition token_bytes :: "token \<Rightarrow> bytes" where
  "token_bytes t = fst t # le_bytes 8 (snd t)"

fun parse_tokens :: "bytes \<Rightarrow> token list" where
  "parse_tokens (b # b0 # b1 # b2 # b3 # b4 # b5 # b6 # b7 # rest) =
     (b, le_nat [b0, b1, b2, b3, b4, b5, b6, b7]) # parse_tokens rest"
| "parse_tokens _ = []"

definition digits :: "byte \<Rightarrow> bytes" where
  "digits b = [word_of_nat (unat b div 16 + 1), word_of_nat (unat b mod 16 + 1)]"

fun undigits :: "bytes \<Rightarrow> bytes" where
  "undigits (x # y # r) = word_of_nat (16 * (unat x - 1) + (unat y - 1)) # undigits r"
| "undigits _ = []"

lemma undigits_digits: "undigits (concat (map digits bs)) = bs"
proof (induction bs)
  case Nil
  then show ?case by simp
next
  case (Cons b bs)
  have "unat (word_of_nat (unat b div 16 + 1) :: byte) = unat b div 16 + 1"
    "unat (word_of_nat (unat b mod 16 + 1) :: byte) = unat b mod 16 + 1"
    using unat_byte_lt [of b] by (simp_all add: unat_of_nat del: of_nat_add of_nat_Suc)
  then have "16 * (unat (word_of_nat (unat b div 16 + 1) :: byte) - 1) +
      (unat (word_of_nat (unat b mod 16 + 1) :: byte) - 1) = unat b"
    by simp
  then have "(word_of_nat (16 * (unat (word_of_nat (unat b div 16 + 1) :: byte) - 1) +
      (unat (word_of_nat (unat b mod 16 + 1) :: byte) - 1)) :: byte) = word_of_nat (unat b)"
    by (simp only:)
  then show ?case using Cons by (simp add: digits_def del: of_nat_add of_nat_mult)
qed

lemma digits_nonzero: "0 \<notin> set (concat (map digits bs))"
proof -
  have "(word_of_nat (unat b div 16 + 1) :: byte) \<noteq> 0 \<and> (word_of_nat (unat b mod 16 + 1) :: byte) \<noteq> 0" for b :: byte
    using unat_byte_lt [of b] by (simp add: word_unat_eq_iff unat_of_nat del: of_nat_add of_nat_Suc)
  then show ?thesis by (auto simp: digits_def)
qed

definition sample_json :: json_text where
  "sample_json =
     \<lparr>json_to_vec = (\<lambda>j. Inr (concat (map digits (concat (map token_bytes (json_tokens j)))))),
      json_from_slice = (\<lambda>bs. case run_tokens (parse_tokens (undigits bs)) [] of
        [j] \<Rightarrow> Inr j | _ \<Rightarrow> Inl ''expected value at line 1 column 1''),
      json_shape_error = (\<lambda>j. ''invalid type'')\<rparr>"

lemma run_tokens_append: "run_tokens (ts @ us) st = run_tokens us (run_tokens ts st)"
  by (simp add: run_tokens_def)

lemma run_tokens_Cons: "run_tokens (t # ts) st = run_tokens ts (push_token t st)"
  by (simp add: run_tokens_def)

lemma run_tokens_Nil: "run_tokens [] st = st"
  by (simp add: run_tokens_def)

lemma run_chars: "run_tokens (map (\<lambda>c. (4, of_char c)) s) (JStr p # st) = JStr (p @ s) # st"
  by (induction s arbitrary: p) (auto simp: run_tokens_def)

lemma run_string: "run_tokens (string_tokens s) st = JStr s # st"
  using run_chars [of s "[]" st] by (simp add: string_tokens_def run_tokens_def)

lemma run_array:
  assumes "\<And>v st. v \<in> set xs \<Longrightarrow> run_tokens (json_tokens v) st = v # st"
  shows "run_tokens (concat (map (\<lambda>v. json_tokens v @ [(6, 0)]) xs)) (JArr ys # st) = JArr (ys @ xs) # st"
  using assms
proof (induction xs arbitrary: ys)
  case Nil
  then show ?case by (simp add: run_tokens_def)
next
  case (Cons x xs)
  then show ?case by (simp add: run_tokens_append run_tokens_Cons)
qed

lemma run_object:
  assumes "\<And>v st. v \<in> snd ` set kvs \<Longrightarrow> run_tokens (json_tokens v) st = v # st"
  shows "run_tokens (concat (map (\<lambda>kv. string_tokens (fst kv) @ json_tokens (snd kv) @ [(8, 0)]) kvs))
    (JObj ls # st) = JObj (ls @ kvs) # st"
  using assms
proof (induction kvs arbitrary: ls)
  case Nil
  then show ?case by (simp add: run_tokens_def)
next
  case (Cons kv kvs)
  obtain k v where kv: "kv = (k, v)" by (cases kv)
  with Cons show ?case by (simp add: run_tokens_append run_tokens_Cons run_string)
qed

lemma run_json: "run_tokens (json_tokens j) st = j # st"
proof (induction j arbitrary: st)
  case (JArr xs)
  then show ?case
    using run_array [of xs "[]" st] by (simp add: run_tokens_Cons)
next
  case (JObj kvs)
  have "run_tokens (json_tokens v) st = v # st" if "v \<in> snd ` set kvs" for v st
  proof -
    from that obtain kv where "kv \<in> set kvs" "v = snd kv" by blast
    with JObj show ?thesis by (cases kv) auto
  qed
  then show ?case
    using run_object [of kvs "[]" st] by (simp add: run_tokens_Cons)
qed (simp_all add: run_tokens_Cons run_tokens_Nil run_string)

lemma string_tokens_small: "t \<in> set (string_tokens s) \<Longrightarrow> snd t < 256"
  by (auto simp: string_tokens_def)

lemma tokens_small: "json_wf j \<Longrightarrow> t \<in> set (json_tokens j) \<Longrightarrow> snd t < 2 ^ 64"
proof (induction j arbitrary: t)
  case (JStr s)
  then show ?case
    using string_tokens_small [of t s] by simp
next
  case (JArr xs)
  then show ?case by (cases t) (auto simp: list_all_iff split: if_splits)
next
  case (JObj kvs)
  from JObj.prems(2) consider "snd t = 0"
    | kv where "kv \<in> set kvs" "t \<in> set (string_tokens (fst kv))"
    | kv where "kv \<in> set kvs" "t \<in> set (json_tokens (snd kv))"
    by (auto split: if_splits)
  then show ?case
  proof cases
    case 1
    then show ?thesis by simp
  next
    case 2
    then show ?thesis using string_tokens_small [of t "fst kv"] by simp
  next
    case 3
    obtain k v where kv: "kv = (k, v)" by (cases kv)
    have "json_wf v"
      using 3(1) JObj.prems(1) kv by (auto simp: list_all_iff)
    then show ?thesis
      using JObj.IH [of kv v t] 3 by (simp add: kv)
  qed
qed (auto split: if_splits)

lemma length_8_cases:
  "length xs = 8 \<Longrightarrow> \<exists>b0 b1 b2 b3 b4 b5 b6 b7. xs = [b0, b1, b2, b3, b4, b5, b6, b7]"
  by (auto simp: numeral_eq_Suc length_Suc_conv)

lemma parse_tokens_bytes:
  "(\<And>t. t \<in> set ts \<Longrightarrow> snd t < 2 ^ 64) \<Longrightarrow> parse_tokens (concat (map token_bytes ts)) = ts"
proof (induction ts)
  case Nil
  then show ?case by simp
next
  case (Cons t ts)
  have "le_nat (le_bytes 8 (snd t)) = snd t"
    using Cons.prems [of t] by (simp add: le_nat_le_bytes)
  moreover obtain b0 b1 b2 b3 b4 b5 b6 b7 where "le_bytes 8 (snd t) = [b0, b1, b2, b3, b4, b5, b6, b7]"
    using length_8_cases [of "le_bytes 8 (snd t)"] by auto
  ultimately show ?case
    using Cons by (cases t) (simp add: token_bytes_def)
qed

lemma sample_json_law: "json_law sample_json"
  by (auto simp: json_law_def sample_json_def undigits_digits parse_tokens_bytes [OF tokens_small] run_json)

lemma sample_json_nul_free: "json_nul_free sample_json"
  using digits_nonzero by (simp add: json_nul_free_def sample_json_def del: set_concat)

end
