(* ===== verification/Identity.thy ===== *)
theory Identity
  imports Instances
begin

text \<open>
  \<open>presidium-crypto/src/identity.rs\<close>: hybrid identities (Ed25519 + ML-DSA-87), hybrid
  key encapsulation (X25519 + ML-KEM-1024), signed prekey bundles and the hand-written
  serde implementations. Secrets are the bytes the source stores; a signing key is its
  seed. A random draw is an argument of the operation that makes it.
\<close>

section \<open>Data\<close>

record ml_dsa87_private_key =
  mlsk_key :: bytes

record ml_dsa87_public_key =
  mlpk_key :: bytes

record identity_key_pair =
  ikp_classical :: bytes
  ikp_pq :: ml_dsa87_private_key

record identity_public_key =
  ipk_classical :: bytes
  ipk_pq :: bytes

record hybrid_signature =
  hs_classical :: bytes
  hs_pq :: bytes

record hybrid_kem_public_key =
  kpub_classical :: bytes
  kpub_pq :: bytes

record hybrid_kem_private_key =
  kpriv_classical :: bytes
  kpriv_pq :: bytes

record signed_pre_key =
  spk_key_id :: u32
  spk_public_key :: hybrid_kem_public_key
  spk_signature :: hybrid_signature
  spk_timestamp :: u64

record one_time_pre_key =
  otk_key_id :: u32
  otk_public_key :: hybrid_kem_public_key

record pre_key_bundle =
  pkb_identity_key :: identity_public_key
  pkb_identity_kem_public :: hybrid_kem_public_key
  pkb_signed_prekey :: signed_pre_key
  pkb_one_time_prekeys :: "one_time_pre_key list"
  pkb_bundle_signature :: hybrid_signature

text \<open>The array lengths of the Rust types.\<close>

definition ikp_wf :: "identity_key_pair \<Rightarrow> bool" where
  "ikp_wf kp \<longleftrightarrow> length (ikp_classical kp) = ED25519_PRIVATE_KEY_SIZE \<and>
     length (mlsk_key (ikp_pq kp)) = ML_DSA_87_PRIVATE_KEY_SIZE"

definition ipk_wf :: "identity_public_key \<Rightarrow> bool" where
  "ipk_wf k \<longleftrightarrow> length (ipk_classical k) = ED25519_PUBLIC_KEY_SIZE \<and>
     length (ipk_pq k) = ML_DSA_87_PUBLIC_KEY_SIZE"

definition hs_wf :: "hybrid_signature \<Rightarrow> bool" where
  "hs_wf s \<longleftrightarrow> length (hs_classical s) = ED25519_SIGNATURE_SIZE"

definition kpub_wf :: "hybrid_kem_public_key \<Rightarrow> bool" where
  "kpub_wf k \<longleftrightarrow> length (kpub_classical k) = X25519_PUBLIC_KEY_SIZE \<and>
     length (kpub_pq k) = ML_KEM_1024_PUBLIC_KEY_SIZE"

definition kpriv_wf :: "hybrid_kem_private_key \<Rightarrow> bool" where
  "kpriv_wf k \<longleftrightarrow> length (kpriv_classical k) = X25519_PRIVATE_KEY_SIZE \<and>
     length (kpriv_pq k) = ML_KEM_1024_PRIVATE_KEY_SIZE"

definition spk_wf :: "signed_pre_key \<Rightarrow> bool" where
  "spk_wf k \<longleftrightarrow> kpub_wf (spk_public_key k) \<and> hs_wf (spk_signature k)"

definition otk_wf :: "one_time_pre_key \<Rightarrow> bool" where
  "otk_wf k \<longleftrightarrow> kpub_wf (otk_public_key k)"

definition pkb_wf :: "pre_key_bundle \<Rightarrow> bool" where
  "pkb_wf b \<longleftrightarrow> ipk_wf (pkb_identity_key b) \<and> kpub_wf (pkb_identity_kem_public b) \<and>
     spk_wf (pkb_signed_prekey b) \<and> list_all otk_wf (pkb_one_time_prekeys b) \<and>
     hs_wf (pkb_bundle_signature b)"

section \<open>Identity keys and hybrid signatures\<close>

definition ml_dsa_signature :: "prims \<Rightarrow> bytes \<Rightarrow> bytes crypto_result" where
  "ml_dsa_signature P bs =
     and_then (try_into ML_DSA_87_SIGNATURE_SIZE InvalidSignature bs) (\<lambda>arr.
     if mldsa_sig_ok P arr then Inr arr else Inl InvalidSignature)"

text \<open>\<open>IdentityKeyPair::generate\<close>: the two draws are the seeds.\<close>

definition identity_generate :: "bytes \<Rightarrow> bytes \<Rightarrow> identity_key_pair crypto_result" where
  "identity_generate classical_draw pq_draw =
     Inr \<lparr>ikp_classical = classical_draw, ikp_pq = \<lparr>mlsk_key = pq_draw\<rparr>\<rparr>"

definition identity_from_seed :: "bytes \<Rightarrow> bytes \<Rightarrow> identity_key_pair crypto_result" where
  "identity_from_seed classical_seed pq_seed =
     and_then (try_into ED25519_PRIVATE_KEY_SIZE (InvalidKey ''classical seed must be 32 bytes'')
       classical_seed) (\<lambda>classical_bytes.
     and_then (try_into ML_DSA_87_PRIVATE_KEY_SIZE (InvalidKey ''pq seed must be 32 bytes'')
       pq_seed) (\<lambda>pq_bytes.
     Inr \<lparr>ikp_classical = classical_bytes, ikp_pq = \<lparr>mlsk_key = pq_bytes\<rparr>\<rparr>))"

definition identity_public :: "prims \<Rightarrow> identity_key_pair \<Rightarrow> identity_public_key" where
  "identity_public P kp =
     \<lparr>ipk_classical = ed25519_public P (ikp_classical kp),
      ipk_pq = mldsa_public P (mlsk_key (ikp_pq kp))\<rparr>"

definition sign_hybrid :: "prims \<Rightarrow> identity_key_pair \<Rightarrow> bytes \<Rightarrow> hybrid_signature crypto_result" where
  "sign_hybrid P kp message =
     Inr \<lparr>hs_classical = ed25519_sign P (ikp_classical kp) message,
          hs_pq = mldsa_sign P (mlsk_key (ikp_pq kp)) message\<rparr>"

definition verify_hybrid ::
    "prims \<Rightarrow> identity_public_key \<Rightarrow> bytes \<Rightarrow> hybrid_signature \<Rightarrow> unit crypto_result" where
  "verify_hybrid P public message sig =
     (if \<not> ed25519_point P (ipk_classical public)
      then Inl (InvalidKey ''Invalid Ed25519 public key'')
      else if \<not> ed25519_verify P (ipk_classical public) message (hs_classical sig)
      then Inl InvalidSignature
      else and_then (ml_dsa_signature P (hs_pq sig)) (\<lambda>pq_sig.
        if mldsa_verify P (ipk_pq public) message pq_sig then Inr () else Inl InvalidSignature))"

definition identity_seeds :: "identity_key_pair \<Rightarrow> bytes \<times> bytes" where
  "identity_seeds kp = (ikp_classical kp, mlsk_key (ikp_pq kp))"

definition ml_dsa87_public :: "prims \<Rightarrow> ml_dsa87_private_key \<Rightarrow> ml_dsa87_public_key" where
  "ml_dsa87_public P sk = \<lparr>mlpk_key = mldsa_public P (mlsk_key sk)\<rparr>"

definition ml_dsa87_from_bytes :: "bytes \<Rightarrow> ml_dsa87_public_key crypto_result" where
  "ml_dsa87_from_bytes bs =
     and_then (try_into ML_DSA_87_PUBLIC_KEY_SIZE (InvalidKey ''Invalid ML-DSA-87 public key size'')
       bs) (\<lambda>key. Inr \<lparr>mlpk_key = key\<rparr>)"

section \<open>Hybrid key encapsulation\<close>

text \<open>\<open>HybridKemPrivateKey::public_key\<close>.\<close>

definition kem_public_key :: "prims \<Rightarrow> hybrid_kem_private_key \<Rightarrow> hybrid_kem_public_key" where
  "kem_public_key P k =
     \<lparr>kpub_classical = x25519_base P (kpriv_classical k), kpub_pq = mlkem_public P (kpriv_pq k)\<rparr>"

text \<open>
  \<open>HybridKemPublicKey::generate\<close>: the X25519 draw, and what \<open>to_seed\<close> of the freshly
  generated ML-KEM key returned.
\<close>

definition kem_generate ::
    "prims \<Rightarrow> bytes \<Rightarrow> bytes option \<Rightarrow> (hybrid_kem_public_key \<times> hybrid_kem_private_key) crypto_result"
where
  "kem_generate P classical_secret dk_seed =
     and_then (ok_or (KeyDerivationFailed ''ML-KEM-1024 seed unavailable'') dk_seed) (\<lambda>pq_seed.
     Inr (\<lparr>kpub_classical = x25519_base P classical_secret, kpub_pq = mlkem_public P pq_seed\<rparr>,
          \<lparr>kpriv_classical = classical_secret, kpriv_pq = pq_seed\<rparr>))"

definition kem_from_bytes :: "bytes \<Rightarrow> hybrid_kem_public_key crypto_result" where
  "kem_from_bytes bs =
     (if length bs < X25519_PUBLIC_KEY_SIZE
      then Inl (InvalidKey ''Hybrid KEM public key too short'')
      else
        let classical = take X25519_PUBLIC_KEY_SIZE bs; pq = drop X25519_PUBLIC_KEY_SIZE bs in
        and_then (try_into X25519_PUBLIC_KEY_SIZE (InvalidKey ''Invalid X25519 public key size'')
          classical) (\<lambda>classical.
        and_then (try_into ML_KEM_1024_PUBLIC_KEY_SIZE
          (InvalidKey ''Invalid ML-KEM-1024 public key size'') pq) (\<lambda>pq.
        Inr \<lparr>kpub_classical = classical, kpub_pq = pq\<rparr>)))"

definition kem_as_bytes :: "hybrid_kem_public_key \<Rightarrow> bytes" where
  "kem_as_bytes k = kpub_classical k @ kpub_pq k"

definition encapsulate ::
    "prims \<Rightarrow> bytes \<Rightarrow> hybrid_kem_private_key \<Rightarrow> hybrid_kem_public_key \<Rightarrow> (bytes \<times> bytes) crypto_result"
where
  "encapsulate P draw self peer =
     (let classical_shared = x25519 P (kpriv_classical self) (kpub_classical peer) in
      and_then (try_into ML_KEM_1024_PUBLIC_KEY_SIZE (InvalidKey ''Invalid ML-KEM-1024 public key'')
        (kpub_pq peer)) (\<lambda>key.
      if \<not> mlkem_ek_ok P key then Inl (InvalidKey ''Invalid ML-KEM-1024 public key'')
      else
        let (ciphertext, pq_shared) = mlkem_encaps P key draw in
        and_then (expand P None (classical_shared @ pq_shared) ''presidium-pqxdh-shared'' 32
          ''HKDF expand failed'') (\<lambda>shared_secret.
        Inr (ciphertext, shared_secret))))"

definition decapsulate ::
    "prims \<Rightarrow> hybrid_kem_private_key \<Rightarrow> bytes \<Rightarrow> hybrid_kem_public_key \<Rightarrow> bytes crypto_result"
where
  "decapsulate P self ciphertext peer =
     (let classical_shared = x25519 P (kpriv_classical self) (kpub_classical peer) in
      and_then (try_into ML_KEM_1024_CIPHERTEXT_SIZE (InvalidParameter ''Invalid ciphertext size'')
        ciphertext) (\<lambda>ct.
      let pq_shared = mlkem_decaps P (kpriv_pq self) ct in
      expand P None (classical_shared @ pq_shared) ''presidium-pqxdh-shared'' 32
        ''HKDF expand failed''))"

text \<open>\<open>IdentityKeyPair::kem_secret\<close> and \<open>kem_public\<close>: the KEM key of an identity.\<close>

definition kem_secret :: "prims \<Rightarrow> identity_key_pair \<Rightarrow> hybrid_kem_private_key crypto_result" where
  "kem_secret P kp =
     and_then (expand P (Some (bstr ''presidium-identity-kem'')) (mlsk_key (ikp_pq kp))
       ''identity-pq-seed'' ML_KEM_1024_PRIVATE_KEY_SIZE ''Identity KEM seed derivation failed'') (\<lambda>pq.
     Inr \<lparr>kpriv_classical = ikp_classical kp, kpriv_pq = pq\<rparr>)"

definition kem_public :: "prims \<Rightarrow> identity_key_pair \<Rightarrow> hybrid_kem_public_key crypto_result" where
  "kem_public P kp = and_then (kem_secret P kp) (\<lambda>k. Inr (kem_public_key P k))"

section \<open>Prekey bundles\<close>

definition otk_bytes :: "one_time_pre_key \<Rightarrow> bytes" where
  "otk_bytes k = u32_to_le_bytes (otk_key_id k) @ kpub_classical (otk_public_key k) @
     kpub_pq (otk_public_key k)"

definition bundle_bytes ::
    "identity_public_key \<Rightarrow> hybrid_kem_public_key \<Rightarrow> signed_pre_key \<Rightarrow> one_time_pre_key list \<Rightarrow> bytes"
where
  "bundle_bytes identity identity_kem_public signed_prekey one_time_prekeys =
     ipk_classical identity @ ipk_pq identity @
     kpub_classical identity_kem_public @ kpub_pq identity_kem_public @
     u32_to_le_bytes (spk_key_id signed_prekey) @
     kpub_classical (spk_public_key signed_prekey) @ kpub_pq (spk_public_key signed_prekey) @
     u64_to_le_bytes (spk_timestamp signed_prekey) @
     concat (map otk_bytes one_time_prekeys)"

definition bundle_new ::
    "prims \<Rightarrow> identity_key_pair \<Rightarrow> signed_pre_key \<Rightarrow> one_time_pre_key list \<Rightarrow> pre_key_bundle crypto_result"
where
  "bundle_new P identity signed_prekey one_time_prekeys =
     and_then (kem_public P identity) (\<lambda>identity_kem_public.
     and_then (sign_hybrid P identity (bundle_bytes (identity_public P identity) identity_kem_public
       signed_prekey one_time_prekeys)) (\<lambda>bundle_signature.
     Inr \<lparr>pkb_identity_key = identity_public P identity,
          pkb_identity_kem_public = identity_kem_public,
          pkb_signed_prekey = signed_prekey,
          pkb_one_time_prekeys = one_time_prekeys,
          pkb_bundle_signature = bundle_signature\<rparr>))"

definition bundle_verify :: "prims \<Rightarrow> pre_key_bundle \<Rightarrow> unit crypto_result" where
  "bundle_verify P b =
     verify_hybrid P (pkb_identity_key b)
       (bundle_bytes (pkb_identity_key b) (pkb_identity_kem_public b) (pkb_signed_prekey b)
         (pkb_one_time_prekeys b))
       (pkb_bundle_signature b)"

section \<open>Serialization\<close>

definition identity_public_key_to_json :: "identity_public_key \<Rightarrow> json" where
  "identity_public_key_to_json k =
     JObj [(''classical'', json_bytes (ipk_classical k)), (''pq'', json_bytes (ipk_pq k))]"

definition identity_public_key_of_json :: "json \<Rightarrow> identity_public_key option" where
  "identity_public_key_of_json j = (case struct_fields [''classical'', ''pq''] j of
     Some [c, p] \<Rightarrow>
       Option.bind (required (array_of_json ED25519_PUBLIC_KEY_SIZE) c) (\<lambda>classical.
       Option.bind (required bytes_of_json p) (\<lambda>helper_pq.
       if length helper_pq = ML_DSA_87_PUBLIC_KEY_SIZE
       then Some \<lparr>ipk_classical = classical, ipk_pq = helper_pq\<rparr> else None))
   | _ \<Rightarrow> None)"

definition ml_dsa87_public_key_to_json :: "ml_dsa87_public_key \<Rightarrow> json" where
  "ml_dsa87_public_key_to_json k = JObj [(''key'', json_bytes (mlpk_key k))]"

definition ml_dsa87_public_key_of_json :: "json \<Rightarrow> ml_dsa87_public_key option" where
  "ml_dsa87_public_key_of_json j = (case struct_fields [''key''] j of
     Some [k] \<Rightarrow>
       Option.bind (required bytes_of_json k) (\<lambda>helper_key.
       if length helper_key = ML_DSA_87_PUBLIC_KEY_SIZE
       then Some \<lparr>mlpk_key = helper_key\<rparr> else None)
   | _ \<Rightarrow> None)"

definition hybrid_signature_to_json :: "hybrid_signature \<Rightarrow> json" where
  "hybrid_signature_to_json s =
     JObj [(''classical'', json_bytes (hs_classical s)), (''pq'', json_bytes (hs_pq s))]"

definition hybrid_signature_of_json :: "json \<Rightarrow> hybrid_signature option" where
  "hybrid_signature_of_json j = (case struct_fields [''classical'', ''pq''] j of
     Some [c, p] \<Rightarrow>
       Option.bind (required bytes_of_json c) (\<lambda>helper_classical.
       Option.bind (required bytes_of_json p) (\<lambda>helper_pq.
       if length helper_classical = ED25519_SIGNATURE_SIZE
       then Some \<lparr>hs_classical = helper_classical, hs_pq = helper_pq\<rparr> else None))
   | _ \<Rightarrow> None)"

definition hybrid_kem_public_key_to_json :: "hybrid_kem_public_key \<Rightarrow> json" where
  "hybrid_kem_public_key_to_json k =
     JObj [(''classical'', json_bytes (kpub_classical k)), (''pq'', json_bytes (kpub_pq k))]"

definition hybrid_kem_public_key_of_json :: "json \<Rightarrow> hybrid_kem_public_key option" where
  "hybrid_kem_public_key_of_json j = (case struct_fields [''classical'', ''pq''] j of
     Some [c, p] \<Rightarrow>
       Option.bind (required (array_of_json X25519_PUBLIC_KEY_SIZE) c) (\<lambda>classical.
       Option.bind (required bytes_of_json p) (\<lambda>helper_pq.
       if length helper_pq = ML_KEM_1024_PUBLIC_KEY_SIZE
       then Some \<lparr>kpub_classical = classical, kpub_pq = helper_pq\<rparr> else None))
   | _ \<Rightarrow> None)"

text \<open>The derived implementations of the prekey types.\<close>

definition signed_pre_key_to_json :: "signed_pre_key \<Rightarrow> json" where
  "signed_pre_key_to_json k =
     JObj [(''key_id'', json_uint (spk_key_id k)),
           (''public_key'', hybrid_kem_public_key_to_json (spk_public_key k)),
           (''signature'', hybrid_signature_to_json (spk_signature k)),
           (''timestamp'', json_uint (spk_timestamp k))]"

definition signed_pre_key_of_json :: "json \<Rightarrow> signed_pre_key option" where
  "signed_pre_key_of_json j =
    (case struct_fields [''key_id'', ''public_key'', ''signature'', ''timestamp''] j of
     Some [i, k, s, t] \<Rightarrow>
       Option.bind (required uint_of_json i) (\<lambda>key_id.
       Option.bind (required hybrid_kem_public_key_of_json k) (\<lambda>public_key.
       Option.bind (required hybrid_signature_of_json s) (\<lambda>signature.
       Option.bind (required uint_of_json t) (\<lambda>timestamp.
       Some \<lparr>spk_key_id = key_id, spk_public_key = public_key, spk_signature = signature,
             spk_timestamp = timestamp\<rparr>))))
   | _ \<Rightarrow> None)"

definition one_time_pre_key_to_json :: "one_time_pre_key \<Rightarrow> json" where
  "one_time_pre_key_to_json k =
     JObj [(''key_id'', json_uint (otk_key_id k)),
           (''public_key'', hybrid_kem_public_key_to_json (otk_public_key k))]"

definition one_time_pre_key_of_json :: "json \<Rightarrow> one_time_pre_key option" where
  "one_time_pre_key_of_json j = (case struct_fields [''key_id'', ''public_key''] j of
     Some [i, k] \<Rightarrow>
       Option.bind (required uint_of_json i) (\<lambda>key_id.
       Option.bind (required hybrid_kem_public_key_of_json k) (\<lambda>public_key.
       Some \<lparr>otk_key_id = key_id, otk_public_key = public_key\<rparr>))
   | _ \<Rightarrow> None)"

definition pre_key_bundle_to_json :: "pre_key_bundle \<Rightarrow> json" where
  "pre_key_bundle_to_json b =
     JObj [(''identity_key'', identity_public_key_to_json (pkb_identity_key b)),
           (''identity_kem_public'', hybrid_kem_public_key_to_json (pkb_identity_kem_public b)),
           (''signed_prekey'', signed_pre_key_to_json (pkb_signed_prekey b)),
           (''one_time_prekeys'', json_list one_time_pre_key_to_json (pkb_one_time_prekeys b)),
           (''bundle_signature'', hybrid_signature_to_json (pkb_bundle_signature b))]"

definition pre_key_bundle_of_json :: "json \<Rightarrow> pre_key_bundle option" where
  "pre_key_bundle_of_json j =
    (case struct_fields [''identity_key'', ''identity_kem_public'', ''signed_prekey'',
       ''one_time_prekeys'', ''bundle_signature''] j of
     Some [i, k, s, os, g] \<Rightarrow>
       Option.bind (required identity_public_key_of_json i) (\<lambda>identity_key.
       Option.bind (required hybrid_kem_public_key_of_json k) (\<lambda>identity_kem_public.
       Option.bind (required signed_pre_key_of_json s) (\<lambda>signed_prekey.
       Option.bind (required (list_of_json one_time_pre_key_of_json) os) (\<lambda>one_time_prekeys.
       Option.bind (required hybrid_signature_of_json g) (\<lambda>bundle_signature.
       Some \<lparr>pkb_identity_key = identity_key, pkb_identity_kem_public = identity_kem_public,
             pkb_signed_prekey = signed_prekey, pkb_one_time_prekeys = one_time_prekeys,
             pkb_bundle_signature = bundle_signature\<rparr>)))))
   | _ \<Rightarrow> None)"

section \<open>Laws of the signature and KEM operations\<close>

lemmas identity_wf_defs = ikp_wf_def ipk_wf_def hs_wf_def kpub_wf_def kpriv_wf_def spk_wf_def
  otk_wf_def pkb_wf_def

definition signature_laws :: "prims \<Rightarrow> bool" where
  "signature_laws P \<longleftrightarrow> ed25519_law P \<and> mldsa_law P"

definition kem_laws :: "prims \<Rightarrow> bool" where
  "kem_laws P \<longleftrightarrow> dh_law P \<and> hkdf_law P \<and> mlkem_law P"

lemma identity_public_wf: "signature_laws P \<Longrightarrow> ikp_wf kp \<Longrightarrow> ipk_wf (identity_public P kp)"
  by (simp add: signature_laws_def ed25519_law_def mldsa_law_def ikp_wf_def ipk_wf_def identity_public_def)

lemma sign_hybrid_ok:
  assumes "signature_laws P" "ikp_wf kp"
  obtains sig where "sign_hybrid P kp m = Inr sig" "hs_wf sig"
    "verify_hybrid P (identity_public P kp) m sig = Inr ()"
proof
  show "sign_hybrid P kp m = Inr \<lparr>hs_classical = ed25519_sign P (ikp_classical kp) m,
      hs_pq = mldsa_sign P (mlsk_key (ikp_pq kp)) m\<rparr>"
    by (simp add: sign_hybrid_def)
qed (use assms in \<open>simp_all add: signature_laws_def ed25519_law_def mldsa_law_def ikp_wf_def hs_wf_def
    verify_hybrid_def identity_public_def ml_dsa_signature_def\<close>)

lemma verify_hybrid_ok_iff:
  "verify_hybrid P public m sig = Inr u \<longleftrightarrow>
     ed25519_point P (ipk_classical public) \<and>
     ed25519_verify P (ipk_classical public) m (hs_classical sig) \<and>
     length (hs_pq sig) = ML_DSA_87_SIGNATURE_SIZE \<and> mldsa_sig_ok P (hs_pq sig) \<and>
     mldsa_verify P (ipk_pq public) m (hs_pq sig)"
  by (auto simp: verify_hybrid_def ml_dsa_signature_def result_simps)

lemma kem_public_key_wf: "kem_laws P \<Longrightarrow> kpriv_wf k \<Longrightarrow> kpub_wf (kem_public_key P k)"
  by (simp add: kem_laws_def dh_law_def mlkem_law_def kpriv_wf_def kpub_wf_def kem_public_key_def)

lemma kem_generate_ok_iff:
  "kem_generate P c seed = Inr (pub, priv) \<longleftrightarrow>
     (\<exists>s. seed = Some s \<and> priv = \<lparr>kpriv_classical = c, kpriv_pq = s\<rparr> \<and> pub = kem_public_key P priv)"
  by (auto simp: kem_generate_def kem_public_key_def result_simps)

text \<open>What one side encapsulates towards a key the other side decapsulates with it.\<close>

lemma encapsulate_ok:
  assumes "kem_laws P" "kpriv_wf peer"
  obtains ct ss where "encapsulate P r self (kem_public_key P peer) = Inr (ct, ss)" "length ss = 32"
    "decapsulate P peer ct (kem_public_key P self) = Inr ss"
proof -
  obtain ct pq where e: "mlkem_encaps P (mlkem_public P (kpriv_pq peer)) r = (ct, pq)"
    by (cases "mlkem_encaps P (mlkem_public P (kpriv_pq peer)) r")
  have kem: "mlkem_decaps P (kpriv_pq peer) ct = pq" "length ct = 1568"
      "length (mlkem_public P (kpriv_pq peer)) = 1568" "mlkem_ek_ok P (mlkem_public P (kpriv_pq peer))"
    using assms e by (auto simp: kem_laws_def mlkem_law_def kpriv_wf_def dest: spec [of _ "kpriv_pq peer"])
      (metis fst_conv snd_conv)+
  let ?ikm = "x25519 P (kpriv_classical self) (x25519_base P (kpriv_classical peer)) @ pq"
  obtain ss where ss: "expand P None ?ikm ''presidium-pqxdh-shared'' 32 ''HKDF expand failed'' = Inr ss"
      "length ss = 32"
    using assms expand_ok [of P 32 None ?ikm] by (auto simp: kem_laws_def)
  show thesis
  proof
    show "encapsulate P r self (kem_public_key P peer) = Inr (ct, ss)"
      using e kem ss by (simp add: encapsulate_def kem_public_key_def Let_def)
    show "decapsulate P peer ct (kem_public_key P self) = Inr ss"
      using assms kem ss
      by (simp add: decapsulate_def kem_public_key_def Let_def kem_laws_def dh_commutes)
  qed (rule ss(2))
qed

lemma kem_secret_ok:
  assumes "hkdf_law P" "ikp_wf kp"
  obtains k where "kem_secret P kp = Inr k" "kpriv_wf k"
proof -
  obtain pq where "expand P (Some (bstr ''presidium-identity-kem'')) (mlsk_key (ikp_pq kp))
      ''identity-pq-seed'' 64 ''Identity KEM seed derivation failed'' = Inr pq" "length pq = 64"
    using expand_ok [OF assms(1), of 64 "Some (bstr ''presidium-identity-kem'')" "mlsk_key (ikp_pq kp)"]
    by auto
  then show thesis
    using assms(2) by (intro that [of "\<lparr>kpriv_classical = ikp_classical kp, kpriv_pq = pq\<rparr>"])
      (simp_all add: kem_secret_def kpriv_wf_def ikp_wf_def)
qed

section \<open>The signed bytes of a bundle\<close>

lemma concat_chunks_inject:
  assumes "\<And>x. x \<in> set xs \<Longrightarrow> length (f x) = n" "\<And>y. y \<in> set ys \<Longrightarrow> length (f y) = n" "0 < n"
    and "concat (map f xs) = concat (map f ys)"
  shows "map f xs = map f ys"
  using assms
proof (induction xs arbitrary: ys)
  case Nil
  then show ?case by (cases ys) auto
next
  case (Cons x xs)
  then obtain y ys' where ys: "ys = y # ys'"
    by (cases ys) auto
  with Cons.prems have "f x = f y" "concat (map f xs) = concat (map f ys')"
    by auto
  with Cons show ?case by (simp add: ys)
qed

lemma length_otk_bytes: "otk_wf k \<Longrightarrow> length (otk_bytes k) = 1604"
  by (simp add: otk_bytes_def otk_wf_def kpub_wf_def)

lemma otk_bytes_inject: "otk_wf k \<Longrightarrow> otk_wf l \<Longrightarrow> otk_bytes k = otk_bytes l \<longleftrightarrow> k = l"
  by (auto simp: otk_bytes_def otk_wf_def kpub_wf_def)

lemma otk_concat_inject:
  assumes "list_all otk_wf ks" "list_all otk_wf ls" "concat (map otk_bytes ks) = concat (map otk_bytes ls)"
  shows "ks = ls"
proof -
  have "map otk_bytes ks = map otk_bytes ls"
    using assms by (intro concat_chunks_inject [where n = 1604])
      (auto simp: list_all_iff length_otk_bytes)
  moreover have "inj_on otk_bytes (set ks \<union> set ls)"
    using assms by (auto simp: inj_on_def list_all_iff otk_bytes_inject)
  ultimately show ?thesis
    by (rule map_inj_on)
qed

lemma bundle_bytes_inject:
  assumes "ipk_wf i" "kpub_wf k" "spk_wf s" "list_all otk_wf os"
    and "ipk_wf i'" "kpub_wf k'" "spk_wf s'" "list_all otk_wf os'"
    and "bundle_bytes i k s os = bundle_bytes i' k' s' os'"
  shows "i = i' \<and> k = k' \<and> spk_key_id s = spk_key_id s' \<and> spk_public_key s = spk_public_key s' \<and>
    spk_timestamp s = spk_timestamp s' \<and> os = os'"
  using assms by (auto simp: bundle_bytes_def ipk_wf_def kpub_wf_def spk_wf_def intro: otk_concat_inject)

lemma bundle_new_ok:
  assumes "signature_laws P" "kem_laws P" "ikp_wf kp"
  obtains b k where "bundle_new P kp spk otks = Inr b" "bundle_verify P b = Inr ()"
    "kem_secret P kp = Inr k" "kpriv_wf k" "pkb_identity_kem_public b = kem_public_key P k"
    "pkb_identity_key b = identity_public P kp" "pkb_signed_prekey b = spk"
    "pkb_one_time_prekeys b = otks" "hs_wf (pkb_bundle_signature b)"
proof -
  obtain k where k: "kem_secret P kp = Inr k" "kpriv_wf k"
    using assms kem_secret_ok [of P kp] by (auto simp: kem_laws_def)
  let ?m = "bundle_bytes (identity_public P kp) (kem_public_key P k) spk otks"
  obtain sig where sig: "sign_hybrid P kp ?m = Inr sig" "hs_wf sig"
      "verify_hybrid P (identity_public P kp) ?m sig = Inr ()"
    using sign_hybrid_ok [OF assms(1,3)] by blast
  show thesis
    by (rule that [OF _ _ k, of "\<lparr>pkb_identity_key = identity_public P kp,
          pkb_identity_kem_public = kem_public_key P k, pkb_signed_prekey = spk,
          pkb_one_time_prekeys = otks, pkb_bundle_signature = sig\<rparr>"])
      (simp_all add: bundle_new_def bundle_verify_def kem_public_def k sig)
qed

section \<open>The types that cross the wire\<close>

interpretation ipk_json: json_type identity_public_key_to_json identity_public_key_of_json ipk_wf
  by unfold_locales (simp_all add: identity_public_key_to_json_def identity_public_key_of_json_def ipk_wf_def)

interpretation mlpk_json: json_type ml_dsa87_public_key_to_json ml_dsa87_public_key_of_json
    "\<lambda>k. length (mlpk_key k) = ML_DSA_87_PUBLIC_KEY_SIZE"
  by unfold_locales (simp_all add: ml_dsa87_public_key_to_json_def ml_dsa87_public_key_of_json_def)

interpretation hs_json: json_type hybrid_signature_to_json hybrid_signature_of_json hs_wf
  by unfold_locales (simp_all add: hybrid_signature_to_json_def hybrid_signature_of_json_def hs_wf_def)

interpretation kpub_json: json_type hybrid_kem_public_key_to_json hybrid_kem_public_key_of_json kpub_wf
  by unfold_locales (simp_all add: hybrid_kem_public_key_to_json_def hybrid_kem_public_key_of_json_def kpub_wf_def)

interpretation spk_json: json_type signed_pre_key_to_json signed_pre_key_of_json spk_wf
  by unfold_locales (simp_all add: signed_pre_key_to_json_def signed_pre_key_of_json_def spk_wf_def
      kpub_json.of_to_json hs_json.of_to_json kpub_json.to_json_wf hs_json.to_json_wf)

interpretation otk_json: json_type one_time_pre_key_to_json one_time_pre_key_of_json otk_wf
  by unfold_locales (simp_all add: one_time_pre_key_to_json_def one_time_pre_key_of_json_def otk_wf_def
      kpub_json.of_to_json kpub_json.to_json_wf)

interpretation pkb_json: json_type pre_key_bundle_to_json pre_key_bundle_of_json pkb_wf
  by unfold_locales (simp_all add: pre_key_bundle_to_json_def pre_key_bundle_of_json_def pkb_wf_def
      ipk_json.of_to_json kpub_json.of_to_json spk_json.of_to_json hs_json.of_to_json
      list_of_json_list otk_json.of_to_json list_all_iff json_list_wf
      ipk_json.to_json_wf kpub_json.to_json_wf spk_json.to_json_wf hs_json.to_json_wf otk_json.to_json_wf)

text \<open>Their decoders enforce the lengths.\<close>

interpretation ipk_strict: strict_json identity_public_key_to_json identity_public_key_of_json ipk_wf
  by unfold_locales
    (auto simp: identity_public_key_of_json_def ipk_wf_def bind_eq_Some_conv split: option.split_asm list.split_asm if_splits
      dest!: required_array_length)

interpretation mlpk_strict: strict_json ml_dsa87_public_key_to_json ml_dsa87_public_key_of_json
    "\<lambda>k. length (mlpk_key k) = ML_DSA_87_PUBLIC_KEY_SIZE"
  by unfold_locales
    (auto simp: ml_dsa87_public_key_of_json_def bind_eq_Some_conv split: option.split_asm list.split_asm if_splits
      dest!: required_array_length)

interpretation hs_strict: strict_json hybrid_signature_to_json hybrid_signature_of_json hs_wf
  by unfold_locales
    (auto simp: hybrid_signature_of_json_def hs_wf_def bind_eq_Some_conv split: option.split_asm list.split_asm if_splits
      dest!: required_array_length)

interpretation kpub_strict: strict_json hybrid_kem_public_key_to_json hybrid_kem_public_key_of_json kpub_wf
  by unfold_locales
    (auto simp: hybrid_kem_public_key_of_json_def kpub_wf_def bind_eq_Some_conv split: option.split_asm list.split_asm if_splits
      dest!: required_array_length)

interpretation spk_strict: strict_json signed_pre_key_to_json signed_pre_key_of_json spk_wf
  by unfold_locales
    (auto simp: signed_pre_key_of_json_def spk_wf_def bind_eq_Some_conv
      split: option.split_asm list.split_asm
      dest!: required_array_length kpub_strict.required_valid hs_strict.required_valid)

interpretation otk_strict: strict_json one_time_pre_key_to_json one_time_pre_key_of_json otk_wf
  by unfold_locales
    (auto simp: one_time_pre_key_of_json_def otk_wf_def bind_eq_Some_conv
      split: option.split_asm list.split_asm
      dest!: required_array_length kpub_strict.required_valid)

interpretation pkb_strict: strict_json pre_key_bundle_to_json pre_key_bundle_of_json pkb_wf
  by unfold_locales
    (auto simp: pre_key_bundle_of_json_def pkb_wf_def bind_eq_Some_conv
      split: option.split_asm list.split_asm
      dest!: required_array_length ipk_strict.required_valid kpub_strict.required_valid spk_strict.required_valid otk_strict.list_valid hs_strict.required_valid)

text \<open>The concatenated encoding of a KEM public key is a codec of its own.\<close>

interpretation kem_bytes: total_codec "\<lambda>k. Inr (kem_as_bytes k)" kem_from_bytes kpub_wf
  by unfold_locales (auto simp: kem_as_bytes_def kem_from_bytes_def kpub_wf_def)

section \<open>Properties\<close>

definition sample_identity :: "byte \<Rightarrow> identity_key_pair" where
  "sample_identity b = \<lparr>ikp_classical = replicate 32 b, ikp_pq = \<lparr>mlsk_key = replicate 32 b\<rparr>\<rparr>"

definition sample_kem :: "byte \<Rightarrow> hybrid_kem_private_key" where
  "sample_kem b = \<lparr>kpriv_classical = replicate 32 b, kpriv_pq = replicate 64 b\<rparr>"

definition sample_spk :: signed_pre_key where
  "sample_spk = \<lparr>spk_key_id = 1, spk_public_key = kem_public_key sample_prims (sample_kem 3),
     spk_signature = \<lparr>hs_classical = replicate 64 0, hs_pq = []\<rparr>, spk_timestamp = 1234567890\<rparr>"

definition sample_otk :: one_time_pre_key where
  "sample_otk = \<lparr>otk_key_id = 7, otk_public_key = kem_public_key sample_prims (sample_kem 4)\<rparr>"

lemma sample_identity_laws:
  "signature_laws sample_prims" "kem_laws sample_prims" "ikp_wf (sample_identity b)"
  "kpriv_wf (sample_kem b)" "kpub_wf (kem_public_key sample_prims (sample_kem b))"
  "spk_wf sample_spk" "otk_wf sample_otk"
  by (simp_all add: signature_laws_def kem_laws_def sample_laws ikp_wf_def kpriv_wf_def
      sample_identity_def sample_kem_def spk_wf_def otk_wf_def sample_spk_def sample_otk_def hs_wf_def
      kem_public_key_wf)

text \<open>
  Signing with an identity always succeeds, and the hybrid signature verifies under
  the identity's public key; rebuilding the identity from its persisted seeds gives the
  same identity, so signatures made after a restart verify as well.
\<close>

theorem identity_sign_verify:
  assumes "signature_laws P" "ikp_wf kp"
  shows "\<exists>sig. sign_hybrid P kp m = Inr sig \<and> verify_hybrid P (identity_public P kp) m sig = Inr () \<and>
    identity_from_seed (fst (identity_seeds kp)) (snd (identity_seeds kp)) = Inr kp"
  using sign_hybrid_ok [OF assms, of m] assms(2)
  by (auto simp: identity_from_seed_def identity_seeds_def ikp_wf_def)

text \<open>
  A hybrid signature is accepted exactly when both halves are: the Ed25519 key
  decodes, the Ed25519 half verifies, the ML-DSA half has the canonical size and decodes,
  and it verifies too. Breaking one of the two schemes is not enough to forge.
\<close>

theorem verify_hybrid_requires_both:
  "is_ok (verify_hybrid P public m sig) \<longleftrightarrow>
     ed25519_point P (ipk_classical public) \<and>
     ed25519_verify P (ipk_classical public) m (hs_classical sig) \<and>
     length (hs_pq sig) = ML_DSA_87_SIGNATURE_SIZE \<and> mldsa_sig_ok P (hs_pq sig) \<and>
     mldsa_verify P (ipk_pq public) m (hs_pq sig)"
  by (simp add: is_ok_iff verify_hybrid_ok_iff)

text \<open>
  Hybrid encapsulation towards a peer's public key succeeds, and the peer, knowing
  the sender's public key, decapsulates the ciphertext to the same 32-byte secret.
\<close>

theorem hybrid_kem_agreement:
  assumes "kem_laws P" "kpriv_wf self" "kpriv_wf peer"
  shows "\<exists>ct ss. encapsulate P draw self (kem_public_key P peer) = Inr (ct, ss) \<and> length ss = 32 \<and>
    decapsulate P peer ct (kem_public_key P self) = Inr ss"
  using encapsulate_ok [OF assms(1,3), of draw self] by blast

text \<open>
  C30. The bytes under a bundle's signature determine every key of the bundle: two bundles
  with the same signed bytes have the same identity key, identity KEM key, signed prekey
  (id, key and time) and one-time prekeys, in the same order. Nothing can be moved from
  one field into another.
\<close>

theorem bundle_bytes_canonical:
  assumes "pkb_wf b" "pkb_wf b'"
    and "bundle_bytes (pkb_identity_key b) (pkb_identity_kem_public b) (pkb_signed_prekey b)
        (pkb_one_time_prekeys b) =
      bundle_bytes (pkb_identity_key b') (pkb_identity_kem_public b') (pkb_signed_prekey b')
        (pkb_one_time_prekeys b')"
  shows "pkb_identity_key b = pkb_identity_key b' \<and> pkb_identity_kem_public b = pkb_identity_kem_public b' \<and>
    spk_key_id (pkb_signed_prekey b) = spk_key_id (pkb_signed_prekey b') \<and>
    spk_public_key (pkb_signed_prekey b) = spk_public_key (pkb_signed_prekey b') \<and>
    spk_timestamp (pkb_signed_prekey b) = spk_timestamp (pkb_signed_prekey b') \<and>
    pkb_one_time_prekeys b = pkb_one_time_prekeys b'"
  using assms by (intro bundle_bytes_inject) (simp_all add: pkb_wf_def)

definition sample_bundle :: "hybrid_signature \<Rightarrow> pre_key_bundle" where
  "sample_bundle g = \<lparr>pkb_identity_key = identity_public sample_prims (sample_identity 2),
     pkb_identity_kem_public = kem_public_key sample_prims (sample_kem 2),
     pkb_signed_prekey = sample_spk, pkb_one_time_prekeys = [sample_otk], pkb_bundle_signature = g\<rparr>"

lemma sample_bundle_wf: "hs_wf g \<Longrightarrow> pkb_wf (sample_bundle g)"
  by (simp add: pkb_wf_def sample_bundle_def sample_identity_laws identity_public_wf)

text \<open>Two bundles that differ in their signatures only, and one with another time in its signed prekey.\<close>

abbreviation signed_part :: "pre_key_bundle \<Rightarrow> bytes" where
  "signed_part b \<equiv> bundle_bytes (pkb_identity_key b) (pkb_identity_kem_public b) (pkb_signed_prekey b) (pkb_one_time_prekeys b)"

theorem bundle_bytes_canonical_witness:
  "\<exists>b b' late. b \<noteq> b' \<and> pkb_wf b \<and> pkb_wf b' \<and> signed_part b = signed_part b' \<and>
    pkb_identity_key b = pkb_identity_key b' \<and> pkb_one_time_prekeys b = pkb_one_time_prekeys b' \<and>
    pkb_wf late \<and> pkb_identity_key late = pkb_identity_key b \<and> spk_timestamp (pkb_signed_prekey late) \<noteq> spk_timestamp (pkb_signed_prekey b) \<and>
    signed_part late \<noteq> signed_part b"
proof -
  let ?b = "sample_bundle \<lparr>hs_classical = replicate 64 0, hs_pq = []\<rparr>"
  let ?b' = "sample_bundle \<lparr>hs_classical = replicate 64 1, hs_pq = []\<rparr>"
  let ?late = "?b\<lparr>pkb_signed_prekey := sample_spk\<lparr>spk_timestamp := spk_timestamp sample_spk + 1\<rparr>\<rparr>"
  have wf: "pkb_wf (sample_bundle \<lparr>hs_classical = replicate 64 x, hs_pq = []\<rparr>)" for x
    by (rule sample_bundle_wf) (simp add: hs_wf_def)
  have late: "pkb_wf ?late" using wf [of 0] by (simp add: pkb_wf_def sample_bundle_def spk_wf_def)
  have "?b \<noteq> ?b'" by (simp add: sample_bundle_def)
  moreover have same: "signed_part ?b = signed_part ?b'" by (simp add: sample_bundle_def)
  moreover have time: "spk_timestamp (pkb_signed_prekey ?late) \<noteq> spk_timestamp (pkb_signed_prekey ?b)" by (simp add: sample_bundle_def)
  moreover have "pkb_identity_key ?late = pkb_identity_key ?b" by simp
  moreover have "signed_part ?late \<noteq> signed_part ?b" using bundle_bytes_canonical [OF late wf] time by blast
  ultimately show ?thesis using bundle_bytes_canonical [OF wf wf same] wf late by blast
qed

text \<open>
  C31. A bundle published by an identity verifies, and still does after the JSON round
  trip through which it reaches the initiator, which gives the very same bundle.
\<close>

theorem bundle_publish_verify:
  assumes "signature_laws P" "kem_laws P" "json_law J" "ikp_wf kp" "spk_wf spk" "list_all otk_wf otks"
  shows "\<exists>b bs. bundle_new P kp spk otks = Inr b \<and> to_vec J pre_key_bundle_to_json b = Inr bs \<and>
    from_slice J pre_key_bundle_of_json bs = Inr b \<and> bundle_verify P b = Inr ()"
proof -
  obtain b k where b: "bundle_new P kp spk otks = Inr b" "bundle_verify P b = Inr ()" "kpriv_wf k"
    "pkb_identity_kem_public b = kem_public_key P k" "pkb_identity_key b = identity_public P kp"
    "pkb_signed_prekey b = spk" "pkb_one_time_prekeys b = otks" "hs_wf (pkb_bundle_signature b)"
    using bundle_new_ok [OF assms(1,2,4)] by blast
  then have "pkb_wf b"
    using assms by (simp add: pkb_wf_def identity_public_wf kem_public_key_wf)
  with b(1,2) pkb_json.wire_roundtrip [OF assms(3)] show ?thesis by blast
qed

theorem bundle_publish_verify_witness:
  "\<exists>b bs. bundle_new sample_prims (sample_identity 2) sample_spk [sample_otk] = Inr b \<and>
    to_vec sample_json pre_key_bundle_to_json b = Inr bs \<and>
    from_slice sample_json pre_key_bundle_of_json bs = Inr b \<and> bundle_verify sample_prims b = Inr ()"
  by (rule bundle_publish_verify) (simp_all add: sample_identity_laws sample_json_law)

text \<open>
  A well-formed prekey bundle survives the versioned serialization, keys, signature
  and prekeys included.
\<close>

theorem bundle_serialize_roundtrip:
  assumes "json_law J" "pkb_wf b"
  shows "\<exists>bs. serialize J pre_key_bundle_to_json b = Inr bs \<and>
    deserialize J pre_key_bundle_of_json bs = Inr b"
  by (rule pkb_json.serialize_roundtrip [OF assms])

theorem bundle_serialize_roundtrip_witness:
  "\<exists>bs. serialize sample_json pre_key_bundle_to_json (sample_bundle \<lparr>hs_classical = replicate 64 0, hs_pq = [1]\<rparr>) = Inr bs \<and>
    deserialize sample_json pre_key_bundle_of_json bs = Inr (sample_bundle \<lparr>hs_classical = replicate 64 0, hs_pq = [1]\<rparr>)"
  by (rule bundle_serialize_roundtrip [OF sample_json_law sample_bundle_wf]) (simp add: hs_wf_def)

end
