(* ===== verification/Pqxdh.thy ===== *)
theory Pqxdh
  imports Identity
begin

text \<open>
  \<open>presidium-crypto/src/pqxdh.rs\<close>: the PQXDH key agreement. The initiator encapsulates
  four or five times towards the responder's bundle and sends the ciphertexts in a prekey
  message; the responder decapsulates them and both derive one master secret. The five
  draws of the encapsulations are the argument \<open>draw\<close>, one per leg.
\<close>

section \<open>Data\<close>

record pqxdh_output =
  po_shared_secret :: bytes
  po_ephemeral_public :: hybrid_kem_public_key
  po_signed_prekey_id :: u32
  po_one_time_prekey_id :: "u32 option"

record pqxdh_initiator_keys =
  pik_identity :: identity_key_pair
  pik_ephemeral :: hybrid_kem_private_key
  pik_peer_bundle :: pre_key_bundle

record pqxdh_responder_keys =
  prk_identity :: identity_key_pair
  prk_signed_prekey :: hybrid_kem_private_key
  prk_signed_prekey_id :: u32
  prk_one_time_prekey :: "hybrid_kem_private_key option"
  prk_one_time_prekey_id :: "u32 option"

record pqxdh_prekey_message =
  pm_identity_public :: identity_public_key
  pm_identity_kem_public :: hybrid_kem_public_key
  pm_ephemeral_public :: hybrid_kem_public_key
  pm_ciphertexts :: "bytes \<times> bytes \<times> bytes \<times> bytes"
  pm_one_time_ciphertext :: "bytes option"
  pm_signed_prekey_id :: u32
  pm_one_time_prekey_id :: "u32 option"

section \<open>The key agreement\<close>

definition hybrid_dh ::
    "prims \<Rightarrow> hybrid_kem_private_key \<Rightarrow> hybrid_kem_public_key \<Rightarrow> bytes option \<Rightarrow> bytes crypto_result"
where
  "hybrid_dh P our_key peer_public ciphertext =
     and_then (ok_or (PqxdhError ''Ciphertext required for decapsulation'') ciphertext) (\<lambda>ct.
     decapsulate P our_key ct peer_public)"

definition hybrid_encaps ::
    "prims \<Rightarrow> bytes \<Rightarrow> hybrid_kem_private_key \<Rightarrow> hybrid_kem_public_key \<Rightarrow> (bytes \<times> bytes) crypto_result"
where
  "hybrid_encaps P draw our_key peer_public =
     and_then (encapsulate P draw our_key peer_public) (\<lambda>(ciphertext, shared).
     Inr (shared, ciphertext))"

definition derive_master_secret ::
    "prims \<Rightarrow> bytes \<Rightarrow> bytes \<Rightarrow> bytes \<Rightarrow> bytes \<Rightarrow> bytes option \<Rightarrow> bytes crypto_result"
where
  "derive_master_secret P dh1 dh2 dh3 dh4 dh5 =
     expand P None (dh1 @ dh2 @ dh3 @ dh4 @ case_option [] id dh5) ''PQXDH-MASTER'' 32
       ''PQXDH master secret derivation failed''"

definition pqxdh_derive_keys :: "prims \<Rightarrow> pqxdh_output \<Rightarrow> (bytes \<times> bytes) crypto_result" where
  "pqxdh_derive_keys P out =
     and_then (expand P None (po_shared_secret out) ''ROOT_KEY'' ROOT_KEY_SIZE
       ''Root key derivation failed'') (\<lambda>root_key.
     and_then (expand P None (po_shared_secret out) ''SENDING_CHAIN'' CHAIN_KEY_SIZE
       ''Sending chain derivation failed'') (\<lambda>sending_chain.
     Inr (root_key, sending_chain)))"

definition pqxdh_initiator ::
    "prims \<Rightarrow> (nat \<Rightarrow> bytes) \<Rightarrow> pqxdh_initiator_keys \<Rightarrow>
      (pqxdh_output \<times> pqxdh_prekey_message) crypto_result"
where
  "pqxdh_initiator P draw keys =
    (let identity = pik_identity keys; ephemeral = pik_ephemeral keys; bundle = pik_peer_bundle keys in
     and_then (bundle_verify P bundle) (\<lambda>_.
     and_then (kem_secret P identity) (\<lambda>identity_kem.
     and_then (hybrid_encaps P (draw 1) ephemeral (spk_public_key (pkb_signed_prekey bundle))) (\<lambda>(dh1, ct1).
     and_then (hybrid_encaps P (draw 2) identity_kem (spk_public_key (pkb_signed_prekey bundle))) (\<lambda>(dh2, ct2).
     and_then (hybrid_encaps P (draw 3) ephemeral (pkb_identity_kem_public bundle)) (\<lambda>(dh3, ct3).
     and_then (hybrid_encaps P (draw 4) identity_kem (pkb_identity_kem_public bundle)) (\<lambda>(dh4, ct4).
     and_then (case pkb_one_time_prekeys bundle of
         [] \<Rightarrow> Inr (replicate 32 0, None, None)
       | otpk # _ \<Rightarrow> and_then (hybrid_encaps P (draw 5) ephemeral (otk_public_key otpk)) (\<lambda>(dh5_val, ct5_val).
           Inr (dh5_val, Some ct5_val, Some (otk_key_id otpk)))) (\<lambda>(dh5, ct5, dh5_id).
     and_then (derive_master_secret P dh1 dh2 dh3 dh4 (map_option (\<lambda>_. dh5) dh5_id)) (\<lambda>shared_secret.
     let ephemeral_public = kem_public_key P ephemeral;
         message = \<lparr>pm_identity_public = identity_public P identity,
           pm_identity_kem_public = kem_public_key P identity_kem,
           pm_ephemeral_public = ephemeral_public,
           pm_ciphertexts = (ct1, ct2, ct3, ct4),
           pm_one_time_ciphertext = ct5,
           pm_signed_prekey_id = spk_key_id (pkb_signed_prekey bundle),
           pm_one_time_prekey_id = dh5_id\<rparr>
     in Inr (\<lparr>po_shared_secret = shared_secret, po_ephemeral_public = ephemeral_public,
              po_signed_prekey_id = pm_signed_prekey_id message,
              po_one_time_prekey_id = pm_one_time_prekey_id message\<rparr>, message))))))))))"

text \<open>The responder's check that it still holds the one-time prekey the message names.\<close>

definition select_one_time_prekey ::
    "pqxdh_responder_keys \<Rightarrow> pqxdh_prekey_message \<Rightarrow> hybrid_kem_private_key option crypto_result"
where
  "select_one_time_prekey keys message =
     (case (prk_one_time_prekey keys, pm_one_time_prekey_id message) of
        (Some opk, Some opk_id) \<Rightarrow>
          if Some opk_id = prk_one_time_prekey_id keys then Inr (Some opk)
          else Inl (PqxdhError ''Unknown one-time prekey ID'')
      | (None, None) \<Rightarrow> Inr None
      | _ \<Rightarrow> Inl (PqxdhError ''Unknown one-time prekey ID''))"

definition pqxdh_responder ::
    "prims \<Rightarrow> pqxdh_responder_keys \<Rightarrow> pqxdh_prekey_message \<Rightarrow> pqxdh_output crypto_result"
where
  "pqxdh_responder P keys message =
    (let signed_prekey = prk_signed_prekey keys; (ct1, ct2, ct3, ct4) = pm_ciphertexts message in
     if pm_signed_prekey_id message \<noteq> prk_signed_prekey_id keys
     then Inl (PqxdhError ''Unknown signed prekey ID'')
     else
     and_then (select_one_time_prekey keys message) (\<lambda>one_time_prekey.
     and_then (kem_secret P (prk_identity keys)) (\<lambda>identity_kem.
     and_then (hybrid_dh P signed_prekey (pm_ephemeral_public message) (Some ct1)) (\<lambda>dh1.
     and_then (hybrid_dh P signed_prekey (pm_identity_kem_public message) (Some ct2)) (\<lambda>dh2.
     and_then (hybrid_dh P identity_kem (pm_ephemeral_public message) (Some ct3)) (\<lambda>dh3.
     and_then (hybrid_dh P identity_kem (pm_identity_kem_public message) (Some ct4)) (\<lambda>dh4.
     and_then (case (one_time_prekey, pm_one_time_ciphertext message) of
         (Some opk, Some ct) \<Rightarrow>
           and_then (hybrid_dh P opk (pm_ephemeral_public message) (Some ct)) (\<lambda>d. Inr (Some d))
       | _ \<Rightarrow> Inr None) (\<lambda>dh5.
     and_then (derive_master_secret P dh1 dh2 dh3 dh4 dh5) (\<lambda>shared_secret.
     Inr \<lparr>po_shared_secret = shared_secret,
          po_ephemeral_public = pm_ephemeral_public message,
          po_signed_prekey_id = pm_signed_prekey_id message,
          po_one_time_prekey_id = pm_one_time_prekey_id message\<rparr>)))))))))"

section \<open>The initial message\<close>

definition pqxdh_encrypt_initial :: "prims \<Rightarrow> bytes \<Rightarrow> bytes \<Rightarrow> bytes \<Rightarrow> bytes \<Rightarrow> bytes crypto_result" where
  "pqxdh_encrypt_initial P nonce shared_secret plaintext associated_data =
     and_then (ok_or (EncryptionFailed ''Initial message encryption failed'')
       (chacha_seal P shared_secret nonce associated_data plaintext)) (\<lambda>ciphertext.
     Inr (nonce @ ciphertext))"

definition pqxdh_decrypt_initial :: "prims \<Rightarrow> bytes \<Rightarrow> bytes \<Rightarrow> bytes \<Rightarrow> bytes crypto_result" where
  "pqxdh_decrypt_initial P shared_secret message associated_data =
     (if length message < CHACHA20_POLY1305_NONCE_SIZE
      then Inl (InvalidMessage ''Message too short'')
      else
        let nonce = take CHACHA20_POLY1305_NONCE_SIZE message;
            ciphertext = drop CHACHA20_POLY1305_NONCE_SIZE message in
        and_then (try_into CHACHA20_POLY1305_NONCE_SIZE (InvalidMessage ''Invalid nonce size'') nonce)
          (\<lambda>nonce_arr.
        ok_or DecryptionFailed (chacha_open P shared_secret nonce_arr associated_data ciphertext)))"

section \<open>Serialization of the prekey message\<close>

definition ciphertexts_to_json :: "bytes \<times> bytes \<times> bytes \<times> bytes \<Rightarrow> json" where
  "ciphertexts_to_json c = (case c of (c1, c2, c3, c4) \<Rightarrow> json_list json_bytes [c1, c2, c3, c4])"

definition ciphertexts_of_json :: "json \<Rightarrow> (bytes \<times> bytes \<times> bytes \<times> bytes) option" where
  "ciphertexts_of_json j = (case list_of_json bytes_of_json j of
     Some [c1, c2, c3, c4] \<Rightarrow> Some (c1, c2, c3, c4) | _ \<Rightarrow> None)"

definition prekey_message_to_json :: "pqxdh_prekey_message \<Rightarrow> json" where
  "prekey_message_to_json m =
     JObj [(''identity_public'', identity_public_key_to_json (pm_identity_public m)),
           (''identity_kem_public'', hybrid_kem_public_key_to_json (pm_identity_kem_public m)),
           (''ephemeral_public'', hybrid_kem_public_key_to_json (pm_ephemeral_public m)),
           (''ciphertexts'', ciphertexts_to_json (pm_ciphertexts m)),
           (''one_time_ciphertext'', json_option json_bytes (pm_one_time_ciphertext m)),
           (''signed_prekey_id'', json_uint (pm_signed_prekey_id m)),
           (''one_time_prekey_id'', json_option json_uint (pm_one_time_prekey_id m))]"

definition prekey_message_of_json :: "json \<Rightarrow> pqxdh_prekey_message option" where
  "prekey_message_of_json j =
    (case struct_fields [''identity_public'', ''identity_kem_public'', ''ephemeral_public'',
       ''ciphertexts'', ''one_time_ciphertext'', ''signed_prekey_id'', ''one_time_prekey_id''] j of
     Some [i, k, e, cs, oc, s, oi] \<Rightarrow>
       Option.bind (required identity_public_key_of_json i) (\<lambda>identity_public.
       Option.bind (required hybrid_kem_public_key_of_json k) (\<lambda>identity_kem_public.
       Option.bind (required hybrid_kem_public_key_of_json e) (\<lambda>ephemeral_public.
       Option.bind (required ciphertexts_of_json cs) (\<lambda>ciphertexts.
       Option.bind (optional bytes_of_json oc) (\<lambda>one_time_ciphertext.
       Option.bind (required uint_of_json s) (\<lambda>signed_prekey_id.
       Option.bind (optional uint_of_json oi) (\<lambda>one_time_prekey_id.
       Some \<lparr>pm_identity_public = identity_public, pm_identity_kem_public = identity_kem_public,
             pm_ephemeral_public = ephemeral_public, pm_ciphertexts = ciphertexts,
             pm_one_time_ciphertext = one_time_ciphertext, pm_signed_prekey_id = signed_prekey_id,
             pm_one_time_prekey_id = one_time_prekey_id\<rparr>)))))))
   | _ \<Rightarrow> None)"

definition pm_wf :: "pqxdh_prekey_message \<Rightarrow> bool" where
  "pm_wf m \<longleftrightarrow> ipk_wf (pm_identity_public m) \<and> kpub_wf (pm_identity_kem_public m) \<and>
     kpub_wf (pm_ephemeral_public m)"

lemma ciphertexts_roundtrip [simp]: "ciphertexts_of_json (ciphertexts_to_json c) = Some c"
  by (cases c) (simp add: ciphertexts_of_json_def ciphertexts_to_json_def list_of_json_list)

lemma ciphertexts_wf [simp]: "json_wf (ciphertexts_to_json c)"
  by (cases c) (simp add: ciphertexts_to_json_def json_list_wf)

interpretation pm_json: json_type prekey_message_to_json prekey_message_of_json pm_wf
  by unfold_locales (simp_all add: prekey_message_to_json_def prekey_message_of_json_def pm_wf_def
      ipk_json.of_to_json kpub_json.of_to_json ipk_json.to_json_wf kpub_json.to_json_wf json_option_wf)

interpretation pm_strict: strict_json prekey_message_to_json prekey_message_of_json pm_wf
  by unfold_locales
    (auto simp: prekey_message_of_json_def pm_wf_def bind_eq_Some_conv
      split: option.split_asm list.split_asm
      dest!: required_array_length ipk_strict.required_valid kpub_strict.required_valid)

text \<open>
  The initial message under one shared secret, nonce and associated data is a codec; the
  law of the cipher is part of what makes a plaintext valid for it.
\<close>

interpretation initial: codec
    "\<lambda>m. pqxdh_encrypt_initial P nonce secret m aad"
    "\<lambda>c. pqxdh_decrypt_initial P secret c aad"
    "\<lambda>m. aead_law P \<and> length nonce = CHACHA20_POLY1305_NONCE_SIZE" for P nonce secret aad
  by unfold_locales (auto simp: pqxdh_encrypt_initial_def pqxdh_decrypt_initial_def result_simps
      aead_open_seal)

section \<open>Agreement\<close>

text \<open>One leg: what the initiator's encapsulation gives, the responder's decapsulation gives.\<close>

lemma hybrid_leg:
  assumes "kem_laws P" "kpriv_wf peer"
  shows "\<exists>ss ct. hybrid_encaps P r self (kem_public_key P peer) = Inr (ss, ct) \<and>
    hybrid_dh P peer (kem_public_key P self) (Some ct) = Inr ss"
  by (rule encapsulate_ok [OF assms, of r self]) (simp add: hybrid_encaps_def hybrid_dh_def)

lemma derive_master_secret_ok: "hkdf_law P \<Longrightarrow> \<exists>s. derive_master_secret P d1 d2 d3 d4 d5 = Inr s"
  using expand_ok [of P 32] by (fastforce simp: derive_master_secret_def)

text \<open>
  The responder holds the private halves of what its bundle offers: the signed prekey,
  and the first one-time prekey if the bundle has one.
\<close>

definition holds_prekeys ::
    "prims \<Rightarrow> signed_pre_key \<Rightarrow> one_time_pre_key list \<Rightarrow> pqxdh_responder_keys \<Rightarrow> bool"
where
  "holds_prekeys P spk otks keys \<longleftrightarrow>
     ikp_wf (prk_identity keys) \<and> kpriv_wf (prk_signed_prekey keys) \<and>
     spk_public_key spk = kem_public_key P (prk_signed_prekey keys) \<and>
     spk_key_id spk = prk_signed_prekey_id keys \<and>
     (case otks of
        [] \<Rightarrow> prk_one_time_prekey keys = None \<and> prk_one_time_prekey_id keys = None
      | k # _ \<Rightarrow> (case prk_one_time_prekey keys of
           None \<Rightarrow> False
         | Some sk \<Rightarrow> kpriv_wf sk \<and> otk_public_key k = kem_public_key P sk \<and>
             prk_one_time_prekey_id keys = Some (otk_key_id k)))"

lemma pqxdh_agree:
  assumes laws: "signature_laws P" "kem_laws P" and "ikp_wf alice"
    and keys: "holds_prekeys P spk otks keys"
    and published: "bundle_new P (prk_identity keys) spk otks = Inr bundle"
  shows "\<exists>out m. pqxdh_initiator P draw \<lparr>pik_identity = alice, pik_ephemeral = eph, pik_peer_bundle = bundle\<rparr>
      = Inr (out, m) \<and> pqxdh_responder P keys m = Inr out \<and>
      pm_identity_public m = identity_public P alice \<and> pm_ephemeral_public m = kem_public_key P eph"
proof -
  have hk: "hkdf_law P" using laws by (simp add: kem_laws_def)
  obtain ik where ik: "kem_secret P alice = Inr ik"
    using kem_secret_ok [OF hk \<open>ikp_wf alice\<close>] by blast
  have bob: "ikp_wf (prk_identity keys)" "kpriv_wf (prk_signed_prekey keys)"
    using keys by (simp_all add: holds_prekeys_def)
  obtain bk where bk: "bundle_verify P bundle = Inr ()" "kem_secret P (prk_identity keys) = Inr bk"
      "kpriv_wf bk" "pkb_identity_kem_public bundle = kem_public_key P bk"
      "pkb_signed_prekey bundle = spk" "pkb_one_time_prekeys bundle = otks"
    using bundle_new_ok [OF laws bob(1), of spk otks] published by force
  obtain s1 c1 s2 c2 where spk:
      "hybrid_encaps P (draw 1) eph (kem_public_key P (prk_signed_prekey keys)) = Inr (s1, c1)"
      "hybrid_dh P (prk_signed_prekey keys) (kem_public_key P eph) (Some c1) = Inr s1"
      "hybrid_encaps P (draw 2) ik (kem_public_key P (prk_signed_prekey keys)) = Inr (s2, c2)"
      "hybrid_dh P (prk_signed_prekey keys) (kem_public_key P ik) (Some c2) = Inr s2"
    using hybrid_leg [OF laws(2) bob(2)] by metis
  obtain s3 c3 s4 c4 where idk:
      "hybrid_encaps P (draw 3) eph (kem_public_key P bk) = Inr (s3, c3)"
      "hybrid_dh P bk (kem_public_key P eph) (Some c3) = Inr s3"
      "hybrid_encaps P (draw 4) ik (kem_public_key P bk) = Inr (s4, c4)"
      "hybrid_dh P bk (kem_public_key P ik) (Some c4) = Inr s4"
    using hybrid_leg [OF laws(2) bk(3)] by metis
  show ?thesis
  proof (cases otks)
    case Nil
    obtain ms where "derive_master_secret P s1 s2 s3 s4 None = Inr ms"
      using derive_master_secret_ok [OF hk] by blast
    with Nil keys show ?thesis
      by (simp add: pqxdh_initiator_def pqxdh_responder_def select_one_time_prekey_def holds_prekeys_def
          bk ik spk idk Let_def del: One_nat_def)
  next
    case (Cons k ks)
    then obtain sk where sk: "prk_one_time_prekey keys = Some sk" "kpriv_wf sk"
        "otk_public_key k = kem_public_key P sk" "prk_one_time_prekey_id keys = Some (otk_key_id k)"
      using keys by (auto simp: holds_prekeys_def split: option.splits)
    obtain s5 c5 where otk: "hybrid_encaps P (draw 5) eph (kem_public_key P sk) = Inr (s5, c5)"
        "hybrid_dh P sk (kem_public_key P eph) (Some c5) = Inr s5"
      using hybrid_leg [OF laws(2) sk(2)] by metis
    obtain ms where "derive_master_secret P s1 s2 s3 s4 (Some s5) = Inr ms"
      using derive_master_secret_ok [OF hk] by blast
    with Cons keys show ?thesis
      by (simp add: pqxdh_initiator_def pqxdh_responder_def select_one_time_prekey_def holds_prekeys_def
          bk ik spk idk sk otk Let_def del: One_nat_def)
  qed
qed

section \<open>Properties\<close>

definition sample_responder :: "pqxdh_responder_keys" where
  "sample_responder = \<lparr>prk_identity = sample_identity 2, prk_signed_prekey = sample_kem 3,
     prk_signed_prekey_id = 1, prk_one_time_prekey = Some (sample_kem 4),
     prk_one_time_prekey_id = Some 7\<rparr>"

lemma sample_holds_prekeys: "holds_prekeys sample_prims sample_spk [sample_otk] sample_responder"
  by (simp add: holds_prekeys_def sample_responder_def sample_identity_laws)
    (simp add: sample_spk_def sample_otk_def)

text \<open>
  C6. PQXDH agreement: for a responder that holds the private halves of the prekeys in
  its published bundle, the initiator's run succeeds, the responder accepts the resulting
  prekey message, and both end with the same output, that is the same shared secret,
  ephemeral key and prekey ids, with or without a one-time prekey and for all draws.
\<close>

theorem pqxdh_agreement:
  assumes "signature_laws P" "kem_laws P" "ikp_wf alice" "holds_prekeys P spk otks keys"
    and "bundle_new P (prk_identity keys) spk otks = Inr bundle"
  shows "\<exists>out m. pqxdh_initiator P draw \<lparr>pik_identity = alice, pik_ephemeral = eph, pik_peer_bundle = bundle\<rparr>
      = Inr (out, m) \<and> pqxdh_responder P keys m = Inr out"
  using pqxdh_agree [OF assms] by blast

theorem pqxdh_agreement_witness:
  "\<exists>bundle out m. bundle_new sample_prims (sample_identity 2) sample_spk [sample_otk] = Inr bundle \<and>
     pqxdh_initiator sample_prims (\<lambda>i. [word_of_nat i])
       \<lparr>pik_identity = sample_identity 1, pik_ephemeral = sample_kem 5, pik_peer_bundle = bundle\<rparr>
       = Inr (out, m) \<and>
     pqxdh_responder sample_prims sample_responder m = Inr out"
proof -
  obtain b where "bundle_new sample_prims (sample_identity 2) sample_spk [sample_otk] = Inr b"
    using bundle_new_ok [OF sample_identity_laws(1,2,3), of 2 sample_spk "[sample_otk]"] by blast
  moreover have "prk_identity sample_responder = sample_identity 2"
    by (simp add: sample_responder_def)
  ultimately show ?thesis
    using pqxdh_agreement [OF sample_identity_laws(1,2,3) sample_holds_prekeys, of b "\<lambda>i. [word_of_nat i]"
        1 "sample_kem 5"]
    by auto
qed

lemma pqxdh_responder_ids:
  assumes "pqxdh_responder P keys m = Inr out"
  shows "pm_signed_prekey_id m = prk_signed_prekey_id keys" "is_ok (select_one_time_prekey keys m)"
    "po_signed_prekey_id out = pm_signed_prekey_id m"
    "po_one_time_prekey_id out = pm_one_time_prekey_id m"
    "po_ephemeral_public out = pm_ephemeral_public m"
  using assms
  by (auto simp: pqxdh_responder_def result_simps Let_def split: if_splits prod.splits)

text \<open>
  C32. The responder accepts a prekey message only if it names the signed prekey the
  responder holds and exactly the one-time prekey it holds, or none when it holds none;
  its output repeats the ids and the ephemeral key of the message.
\<close>

theorem pqxdh_responder_checks:
  assumes "pqxdh_responder P keys m = Inr out"
  shows "pm_signed_prekey_id m = prk_signed_prekey_id keys \<and>
    (case prk_one_time_prekey keys of
       None \<Rightarrow> pm_one_time_prekey_id m = None
     | Some k \<Rightarrow> pm_one_time_prekey_id m \<noteq> None \<and> pm_one_time_prekey_id m = prk_one_time_prekey_id keys) \<and>
    po_signed_prekey_id out = pm_signed_prekey_id m \<and> po_one_time_prekey_id out = pm_one_time_prekey_id m \<and>
    po_ephemeral_public out = pm_ephemeral_public m"
  using pqxdh_responder_ids [OF assms]
  by (auto simp: select_one_time_prekey_def split: option.splits if_splits)

lemma sample_run:
  obtains m out where "pqxdh_responder sample_prims sample_responder m = Inr out"
    "pm_identity_public m = identity_public sample_prims (sample_identity 1)"
proof -
  obtain b where "bundle_new sample_prims (prk_identity sample_responder) sample_spk [sample_otk] = Inr b"
    using bundle_new_ok [OF sample_identity_laws(1,2,3), of 2 sample_spk "[sample_otk]"]
    by (auto simp: sample_responder_def)
  with pqxdh_agree [OF sample_identity_laws(1,2,3) sample_holds_prekeys this, of "\<lambda>_. []" 1 "sample_kem 5"]
  show thesis using that by blast
qed

theorem pqxdh_responder_checks_witness:
  "\<exists>m out. pqxdh_responder sample_prims sample_responder m = Inr out \<and>
     pm_one_time_prekey_id m = Some 7 \<and> po_signed_prekey_id out = 1"
proof -
  obtain m out where run: "pqxdh_responder sample_prims sample_responder m = Inr out"
    by (rule sample_run)
  from pqxdh_responder_checks [OF run] have "pm_one_time_prekey_id m = Some 7 \<and> po_signed_prekey_id out = 1"
    by (simp add: sample_responder_def)
  with run show ?thesis by blast
qed

text \<open>The identity key of a prekey message plays no part in the responder's computation.\<close>

lemma pqxdh_identity_unbound:
  "pqxdh_responder P keys (m\<lparr>pm_identity_public := claimed\<rparr>) = pqxdh_responder P keys m"
  by (cases "pm_ciphertexts m") (simp add: pqxdh_responder_def select_one_time_prekey_def Let_def cong: option.case_cong if_cong)

lemma pqxdh_responder_drop_ciphertext:
  assumes "hkdf_law P" "pqxdh_responder P keys m = Inr out"
  shows "\<exists>out'. pqxdh_responder P keys (m\<lparr>pm_one_time_ciphertext := None\<rparr>) = Inr out'"
proof -
  obtain c1 c2 c3 c4 where c: "pm_ciphertexts m = (c1, c2, c3, c4)" by (cases "pm_ciphertexts m")
  with assms(2) obtain ik d1 d2 d3 d4 where legs: "pm_signed_prekey_id m = prk_signed_prekey_id keys"
      "is_ok (select_one_time_prekey keys m)" "kem_secret P (prk_identity keys) = Inr ik"
      "hybrid_dh P (prk_signed_prekey keys) (pm_ephemeral_public m) (Some c1) = Inr d1"
      "hybrid_dh P (prk_signed_prekey keys) (pm_identity_kem_public m) (Some c2) = Inr d2"
      "hybrid_dh P ik (pm_ephemeral_public m) (Some c3) = Inr d3"
      "hybrid_dh P ik (pm_identity_kem_public m) (Some c4) = Inr d4"
    by (auto simp: pqxdh_responder_def result_simps Let_def split: if_splits)
  have "select_one_time_prekey keys (m\<lparr>pm_one_time_ciphertext := None\<rparr>) = select_one_time_prekey keys m"
    by (simp add: select_one_time_prekey_def)
  with legs c show ?thesis
    using derive_master_secret_ok [OF assms(1), of d1 d2 d3 d4 None]
    by (auto simp: pqxdh_responder_def is_ok_iff split: option.split)
qed

text \<open>
  A prekey message that names the one-time prekey but carries no ciphertext for it is
  accepted, with the secret of the four other legs: the very secret of a run without any
  one-time prekey.
\<close>

theorem pqxdh_missing_one_time_leg:
  assumes "pqxdh_responder P keys m = Inr out" "pm_one_time_ciphertext m = None"
  shows "pqxdh_responder P (keys\<lparr>prk_one_time_prekey := None, prk_one_time_prekey_id := None\<rparr>)
      (m\<lparr>pm_one_time_prekey_id := None\<rparr>) = Inr (out\<lparr>po_one_time_prekey_id := None\<rparr>)"
  using assms
  by (auto simp: pqxdh_responder_def select_one_time_prekey_def result_simps Let_def
      split: if_splits prod.splits option.splits)

theorem pqxdh_missing_one_time_leg_witness:
  "\<exists>m out. pm_one_time_ciphertext m = None \<and> pqxdh_responder sample_prims sample_responder m = Inr out \<and>
    pqxdh_responder sample_prims
      (sample_responder\<lparr>prk_one_time_prekey := None, prk_one_time_prekey_id := None\<rparr>)
      (m\<lparr>pm_one_time_prekey_id := None\<rparr>) = Inr (out\<lparr>po_one_time_prekey_id := None\<rparr>)"
proof -
  obtain m out where "pqxdh_responder sample_prims sample_responder m = Inr out"
    by (rule sample_run)
  then obtain out' where run: "pqxdh_responder sample_prims sample_responder
      (m\<lparr>pm_one_time_ciphertext := None\<rparr>) = Inr out'"
    using pqxdh_responder_drop_ciphertext [OF sample_hkdf] by blast
  have none: "pm_one_time_ciphertext (m\<lparr>pm_one_time_ciphertext := None\<rparr>) = None" by simp
  show ?thesis
    using pqxdh_missing_one_time_leg [OF run none] run none by blast
qed

text \<open>
  The first message under the shared secret: whatever the initiator encrypts with a
  12-byte nonce the responder decrypts with the same secret and associated data, and a
  message shorter than a nonce is refused.
\<close>

theorem initial_message_roundtrip:
  assumes "aead_law P" "aead_total P" "length secret = 32" "length nonce = 12" "length plaintext < 2 ^ 32"
  shows "\<exists>c. pqxdh_encrypt_initial P nonce secret plaintext aad = Inr c \<and> 12 \<le> length c \<and>
    pqxdh_decrypt_initial P secret c aad = Inr plaintext"
proof -
  obtain body where "chacha_seal P secret nonce aad plaintext = Some body"
    using aead_seal_ok [OF assms(2-5)] by blast
  then have "pqxdh_encrypt_initial P nonce secret plaintext aad = Inr (nonce @ body)"
    by (simp add: pqxdh_encrypt_initial_def)
  with initial.dec_enc [of P nonce secret plaintext aad] assms show ?thesis by simp
qed

theorem initial_message_roundtrip_witness:
  "\<exists>c. pqxdh_encrypt_initial sample_prims (replicate 12 5) (replicate 32 66) [72, 105] [1] = Inr c \<and>
    12 \<le> length c \<and> pqxdh_decrypt_initial sample_prims (replicate 32 66) c [1] = Inr [72, 105]"
  by (rule initial_message_roundtrip) (simp_all add: sample_laws)

end
