(* ===== verification/Ratchet.thy ===== *)
theory Ratchet
  imports Instances
begin

text \<open>
  The Double Ratchet of \<open>presidium-crypto/src/ratchet.rs\<close>: chain keys and root keys, the
  two chains of a session, initialisation on both sides, encryption, decryption with its
  loop over skipped messages, and the DH ratchet step. The methods on \<open>&mut self\<close> return
  their result and the state they leave behind.

  An X25519 secret is its 32 bytes. The session's headers cross the wire as JSON and are
  the associated data of the cipher; the field \<open>associated_data\<close> is stored and not used
  by any method, as in the source.
\<close>

section \<open>Chain keys\<close>

definition CHAIN_KEY_INFO :: bytes where
  "CHAIN_KEY_INFO = bstr ''presidium-chain-key''"

definition MESSAGE_KEY_INFO :: bytes where
  "MESSAGE_KEY_INFO = bstr ''presidium-message-key''"

record message_keys =
  mk_key :: bytes
  mk_index :: u64

record chain_key =
  ck_key :: bytes
  ck_index :: u64

definition chain_message_key :: "prims \<Rightarrow> chain_key \<Rightarrow> message_keys crypto_result" where
  "chain_message_key P c =
     and_then (hmac_sha256 P (ck_key c) MESSAGE_KEY_INFO) (\<lambda>digest.
     Inr \<lparr>mk_key = take MESSAGE_KEY_SIZE digest, mk_index = ck_index c\<rparr>)"

definition chain_next :: "prims \<Rightarrow> chain_key \<Rightarrow> chain_key crypto_result" where
  "chain_next P c =
     and_then (hmac_sha256 P (ck_key c) CHAIN_KEY_INFO) (\<lambda>digest.
     Inr \<lparr>ck_key = take CHAIN_KEY_SIZE digest, ck_index = ck_index c + 1\<rparr>)"

section \<open>Root keys\<close>

record root_key =
  rk_key :: bytes

definition root_key_from_slice :: "bytes \<Rightarrow> root_key crypto_result" where
  "root_key_from_slice bs =
     (if length bs \<noteq> ROOT_KEY_SIZE then Inl (InvalidKey ''Root key must be 32 bytes'')
      else Inr \<lparr>rk_key = bs\<rparr>)"

definition ratchet_step :: "prims \<Rightarrow> root_key \<Rightarrow> bytes \<Rightarrow> (root_key \<times> chain_key) crypto_result" where
  "ratchet_step P rk dh_output =
     and_then (expand P (Some (rk_key rk)) dh_output ''presidium-ratchet-root'' ROOT_KEY_SIZE
       ''Root key derivation failed'') (\<lambda>new_root.
     and_then (expand P (Some (rk_key rk)) dh_output ''presidium-ratchet-chain'' CHAIN_KEY_SIZE
       ''Chain key derivation failed'') (\<lambda>new_chain.
     Inr (\<lparr>rk_key = new_root\<rparr>, \<lparr>ck_key = new_chain, ck_index = 0\<rparr>)))"

section \<open>Headers, chains and sessions\<close>

record ratchet_message_header =
  rh_dh_public_key :: bytes
  rh_message_number :: u64
  rh_previous_message_number :: u64

record ratchet_chain =
  rc_our_ratchet_key :: "bytes option"
  rc_their_ratchet_public :: "bytes option"
  rc_chain_key :: "chain_key option"
  rc_skipped_message_keys :: "(u64 \<times> bytes) list"

record double_ratchet =
  dr_root_key :: root_key
  dr_sending_chain :: ratchet_chain
  dr_receiving_chain :: ratchet_chain
  dr_session_id :: string
  dr_associated_data :: bytes

type_synonym 'a ratchet_result = "(crypto_error + 'a) \<times> double_ratchet"

definition ratchet_header_to_json :: "ratchet_message_header \<Rightarrow> json" where
  "ratchet_header_to_json h =
     JObj [(''dh_public_key'', json_bytes (rh_dh_public_key h)),
           (''message_number'', json_uint (rh_message_number h)),
           (''previous_message_number'', json_uint (rh_previous_message_number h))]"

definition ratchet_header_of_json :: "json \<Rightarrow> ratchet_message_header option" where
  "ratchet_header_of_json j =
    (case struct_fields [''dh_public_key'', ''message_number'', ''previous_message_number''] j of
     Some [d, n, p] \<Rightarrow>
       Option.bind (required (array_of_json X25519_PUBLIC_KEY_SIZE) d) (\<lambda>dh_public_key.
       Option.bind (required uint_of_json n) (\<lambda>message_number.
       Option.bind (required uint_of_json p) (\<lambda>previous_message_number.
       Some \<lparr>rh_dh_public_key = dh_public_key, rh_message_number = message_number,
             rh_previous_message_number = previous_message_number\<rparr>)))
   | _ \<Rightarrow> None)"

definition rh_wf :: "ratchet_message_header \<Rightarrow> bool" where
  "rh_wf h \<longleftrightarrow> length (rh_dh_public_key h) = X25519_PUBLIC_KEY_SIZE"

interpretation rh_json: json_type ratchet_header_to_json ratchet_header_of_json rh_wf
  by unfold_locales (simp_all add: ratchet_header_to_json_def ratchet_header_of_json_def rh_wf_def)

interpretation rh_strict: strict_json ratchet_header_to_json ratchet_header_of_json rh_wf
  by unfold_locales
    (auto simp: ratchet_header_of_json_def rh_wf_def bind_eq_Some_conv split: option.split_asm list.split_asm
      dest!: required_array_length)

section \<open>Initialisation\<close>

definition dr_init ::
    "prims \<Rightarrow> string \<Rightarrow> root_key \<Rightarrow> bytes \<Rightarrow> bytes \<Rightarrow> bytes \<Rightarrow> double_ratchet crypto_result"
where
  "dr_init P session_id rk our_dh_key peer_dh_public associated_data =
     (let shared = x25519 P our_dh_key peer_dh_public in
      and_then (ratchet_step P rk shared) (\<lambda>(new_root, chain).
      Inr \<lparr>dr_root_key = new_root,
           dr_sending_chain = \<lparr>rc_our_ratchet_key = Some our_dh_key,
             rc_their_ratchet_public = Some peer_dh_public,
             rc_chain_key = Some chain, rc_skipped_message_keys = []\<rparr>,
           dr_receiving_chain = \<lparr>rc_our_ratchet_key = None,
             rc_their_ratchet_public = Some peer_dh_public,
             rc_chain_key = None, rc_skipped_message_keys = []\<rparr>,
           dr_session_id = session_id, dr_associated_data = associated_data\<rparr>))"

definition dr_init_as_responder ::
    "string \<Rightarrow> root_key \<Rightarrow> bytes \<Rightarrow> bytes \<Rightarrow> double_ratchet crypto_result"
where
  "dr_init_as_responder session_id rk our_ratchet_key associated_data =
     Inr \<lparr>dr_root_key = rk,
          dr_sending_chain = \<lparr>rc_our_ratchet_key = Some our_ratchet_key,
            rc_their_ratchet_public = None, rc_chain_key = None, rc_skipped_message_keys = []\<rparr>,
          dr_receiving_chain = \<lparr>rc_our_ratchet_key = None,
            rc_their_ratchet_public = None, rc_chain_key = None, rc_skipped_message_keys = []\<rparr>,
          dr_session_id = session_id, dr_associated_data = associated_data\<rparr>"

section \<open>Encryption\<close>

text \<open>The first block of \<open>encrypt\<close>: derive the sending chain if there is none yet.\<close>

definition ensure_sending_chain :: "prims \<Rightarrow> double_ratchet \<Rightarrow> unit ratchet_result" where
  "ensure_sending_chain P r =
    (if rc_chain_key (dr_sending_chain r) = None then
       try_st (ok_or (RatchetError ''No sending ratchet key'')
         (rc_our_ratchet_key (dr_sending_chain r))) r (\<lambda>our_key.
       try_st (ok_or (RatchetError ''No peer ratchet key'')
         (rc_their_ratchet_public (dr_sending_chain r))) r (\<lambda>their_bytes.
       try_st (ratchet_step P (dr_root_key r) (x25519 P our_key their_bytes)) r (\<lambda>(new_root, chain).
       (Inr (), r\<lparr>dr_root_key := new_root,
         dr_sending_chain := (dr_sending_chain r)\<lparr>rc_chain_key := Some chain\<rparr>\<rparr>))))
     else (Inr (), r))"

definition dr_encrypt ::
    "prims \<Rightarrow> json_text \<Rightarrow> bytes \<Rightarrow> double_ratchet \<Rightarrow> (bytes \<times> ratchet_message_header) ratchet_result"
where
  "dr_encrypt P J plaintext r0 =
     then_st (ensure_sending_chain P r0) (\<lambda>_ r1.
     try_st (ok_or (RatchetError ''No sending chain'') (rc_chain_key (dr_sending_chain r1))) r1 (\<lambda>chain.
     try_st (chain_message_key P chain) r1 (\<lambda>message_key.
     try_st (chain_next P chain) r1 (\<lambda>chain'.
     let r = r1\<lparr>dr_sending_chain := (dr_sending_chain r1)\<lparr>rc_chain_key := Some chain'\<rparr>\<rparr>;
         dh_public_key = (case rc_our_ratchet_key (dr_sending_chain r) of
           Some key \<Rightarrow> x25519_base P key | None \<Rightarrow> replicate X25519_PUBLIC_KEY_SIZE 0);
         header = \<lparr>rh_dh_public_key = dh_public_key, rh_message_number = mk_index message_key,
           rh_previous_message_number = 0\<rparr> in
     try_st (map_err SerializationError (to_vec J ratchet_header_to_json header)) r (\<lambda>serialized_header.
     try_st (ok_or (EncryptionFailed ''Ratchet encryption failed'')
       (chacha_seal P (mk_key message_key) (counter_nonce_le (mk_index message_key))
         serialized_header plaintext)) r (\<lambda>ciphertext.
     (Inr (ciphertext, header), r)))))))"

section \<open>Decryption\<close>

text \<open>
  The loop that advances the receiving chain to a message number and stores the keys it
  passes: the result, the chain key and the stored keys when the loop is left.
\<close>

function skip_to ::
    "prims \<Rightarrow> u64 \<Rightarrow> chain_key \<Rightarrow> (u64 \<times> bytes) list \<Rightarrow>
      (crypto_error + unit) \<times> chain_key \<times> (u64 \<times> bytes) list"
where
  "skip_to P n chain skipped =
    (if ck_index chain < n then
       try_st (chain_message_key P chain) (chain, skipped) (\<lambda>msg_key.
       let skipped' = skipped @ [(mk_index msg_key, mk_key msg_key)] in
       if length skipped' > MAX_SKIP_MESSAGES
       then (Inl (RatchetError ''Too many skipped messages''), chain, skipped')
       else case chain_next P chain of
           Inl e \<Rightarrow> (Inl e, chain, skipped')
         | Inr chain' \<Rightarrow> skip_to P n chain' skipped')
     else (Inr (), chain, skipped))"
  by pat_completeness auto

lemma chain_next_index: "chain_next P c = Inr c' \<Longrightarrow> ck_index c' = ck_index c + 1"
  by (auto simp: chain_next_def result_simps)

termination skip_to
proof (relation "measure (\<lambda>(P, n, chain, skipped). unat n - unat (ck_index chain))", goal_cases)
  case 1
  then show ?case by simp
next
  case (2 P n chain skipped m s c)
  then have "ck_index c = ck_index chain + 1" by (simp add: chain_next_index)
  with 2 show ?case
    by (simp add: unat_Suc_less word_less_nat_alt)
qed

text \<open>\<open>decrypt\<close> of one message with a given key: the common tail of both of its paths.\<close>

definition open_message ::
    "prims \<Rightarrow> json_text \<Rightarrow> bytes \<Rightarrow> bytes \<Rightarrow> ratchet_message_header \<Rightarrow> bytes crypto_result"
where
  "open_message P J key ciphertext header =
     and_then (map_err SerializationError (to_vec J ratchet_header_to_json header)) (\<lambda>serialized_header.
     ok_or DecryptionFailed (chacha_open P key (counter_nonce_le (rh_message_number header))
       serialized_header ciphertext))"

definition dr_decrypt ::
    "prims \<Rightarrow> json_text \<Rightarrow> bytes \<Rightarrow> ratchet_message_header \<Rightarrow> double_ratchet \<Rightarrow> bytes ratchet_result"
where
  "dr_decrypt P J ciphertext header r =
    (let rc = dr_receiving_chain r in
     case find (\<lambda>e. fst e = rh_message_number header) (rc_skipped_message_keys rc) of
       Some (_, key) \<Rightarrow> (open_message P J key ciphertext header, r)
     | None \<Rightarrow>
       (case rc_chain_key rc of
          None \<Rightarrow> (Inl (RatchetError ''No receiving chain established''), r)
        | Some chain0 \<Rightarrow>
          (case skip_to P (rh_message_number header) chain0 (rc_skipped_message_keys rc) of
             (res, chain, skipped) \<Rightarrow>
             let r1 = r\<lparr>dr_receiving_chain :=
                   rc\<lparr>rc_chain_key := Some chain, rc_skipped_message_keys := skipped\<rparr>\<rparr> in
             try_st res r1 (\<lambda>_.
             try_st (chain_message_key P chain) r1 (\<lambda>message_key.
             try_st (chain_next P chain) r1 (\<lambda>chain'.
             let r2 = r1\<lparr>dr_receiving_chain :=
                   (dr_receiving_chain r1)\<lparr>rc_chain_key := Some chain'\<rparr>\<rparr> in
             (open_message P J (mk_key message_key) ciphertext header, r2)))))))"

section \<open>The DH ratchet step\<close>

definition dr_dh_ratchet :: "prims \<Rightarrow> bytes \<Rightarrow> double_ratchet \<Rightarrow> unit ratchet_result" where
  "dr_dh_ratchet P peer_ratchet_public r =
     try_st (ok_or (RatchetError ''No ratchet key available'')
       (case rc_our_ratchet_key (dr_receiving_chain r) of
          Some k \<Rightarrow> Some k | None \<Rightarrow> rc_our_ratchet_key (dr_sending_chain r))) r (\<lambda>our_key.
     try_st (ratchet_step P (dr_root_key r) (x25519 P our_key peer_ratchet_public)) r
       (\<lambda>(new_root, new_chain).
     let r1 = r\<lparr>dr_root_key := new_root,
           dr_sending_chain := (dr_sending_chain r)
             \<lparr>rc_their_ratchet_public := Some peer_ratchet_public\<rparr>\<rparr> in
     if rc_our_ratchet_key (dr_receiving_chain r) \<noteq> None
     then (Inr (), r1\<lparr>dr_sending_chain := (dr_sending_chain r1)
              \<lparr>rc_our_ratchet_key := rc_our_ratchet_key (dr_receiving_chain r),
               rc_chain_key := Some new_chain\<rparr>,
            dr_receiving_chain := (dr_receiving_chain r)\<lparr>rc_our_ratchet_key := None\<rparr>\<rparr>)
     else (Inr (), r1\<lparr>dr_receiving_chain := (dr_receiving_chain r)
              \<lparr>rc_chain_key := Some new_chain\<rparr>\<rparr>)))"

declare skip_to.simps [simp del]

section \<open>The links of a chain\<close>

interpretation dr_chain: kdf_chain "chain_next P" "chain_message_key P" ck_index "\<lambda>_. hmac_law P" for P
proof (unfold_locales, goal_cases)
  case (1 c)
  then show ?case
    using hmac_sha256_ok [of P "ck_key c" CHAIN_KEY_INFO] by (auto simp: chain_next_def)
next
  case (2 c)
  then show ?case
    using hmac_sha256_ok [of P "ck_key c" MESSAGE_KEY_INFO] by (auto simp: chain_message_key_def)
next
  case (3 c c')
  then show ?case by (simp add: chain_next_index unat_word_ariths)
qed

abbreviation link :: "prims \<Rightarrow> chain_key \<Rightarrow> nat \<Rightarrow> chain_key" where
  "link P \<equiv> nth_link (chain_next P)"

definition link_key :: "prims \<Rightarrow> chain_key \<Rightarrow> nat \<Rightarrow> bytes" where
  "link_key P c n = mk_key (projr (chain_message_key P (link P c n)))"

text \<open>A chain as \<open>ratchet_step\<close> makes it, under a working HMAC.\<close>

definition fresh_chain :: "prims \<Rightarrow> chain_key \<Rightarrow> bool" where
  "fresh_chain P c \<longleftrightarrow> hmac_law P \<and> ck_index c = 0"

lemma link_index:
  assumes "fresh_chain P c" "n < 2 ^ 64"
  shows "ck_index (link P c n) = word_of_nat n"
proof -
  have "unat (ck_index (link P c n)) = n"
    using dr_chain.counter_nth [of P c n] assms by (simp add: fresh_chain_def)
  with assms(2) show ?thesis by (simp add: word_unat_eq_iff unat_of_nat)
qed

lemma link_next: "fresh_chain P c \<Longrightarrow> chain_next P (link P c n) = Inr (link P c (Suc n))"
  using dr_chain.advance_nth by (simp add: fresh_chain_def)

lemma link_message_key:
  assumes "fresh_chain P c" "n < 2 ^ 64"
  shows "chain_message_key P (link P c n) = Inr \<lparr>mk_key = link_key P c n, mk_index = word_of_nat n\<rparr>"
proof -
  obtain k where k: "chain_message_key P (link P c n) = Inr k"
    using dr_chain.key_nth [of P c n] assms(1) by (auto simp: fresh_chain_def)
  then have "mk_index k = ck_index (link P c n)"
    by (auto simp: chain_message_key_def result_simps)
  with k link_index [OF assms] show ?thesis by (simp add: link_key_def)
qed

lemma length_link_key:
  assumes "fresh_chain P c"
  shows "length (link_key P c n) = 32"
proof -
  have "hmac_law P" using assms by (simp add: fresh_chain_def)
  then obtain d where "hmac_sha256 P (ck_key (link P c n)) MESSAGE_KEY_INFO = Inr d" "length d = 32"
    using hmac_sha256_ok by blast
  then show ?thesis by (simp add: link_key_def chain_message_key_def)
qed

lemma word_of_nat_less_u64: "m < 2 ^ 64 \<Longrightarrow> n < 2 ^ 64 \<Longrightarrow> (word_of_nat m :: u64) < word_of_nat n \<longleftrightarrow> m < n"
  by (simp add: word_less_nat_alt unat_of_nat)

lemma word_of_nat_eq_u64: "m < 2 ^ 64 \<Longrightarrow> n < 2 ^ 64 \<Longrightarrow> (word_of_nat m :: u64) = word_of_nat n \<longleftrightarrow> m = n"
  by (simp add: word_unat_eq_iff unat_of_nat)

section \<open>The skip loop\<close>

definition entry :: "prims \<Rightarrow> chain_key \<Rightarrow> nat \<Rightarrow> u64 \<times> bytes" where
  "entry P c n = (word_of_nat n, link_key P c n)"

lemma skip_to_done: "\<not> ck_index chain < n \<Longrightarrow> skip_to P n chain sk = (Inr (), chain, sk)"
  by (simp add: skip_to.simps)

lemma skip_to_step:
  assumes "fresh_chain P c" "n < 2 ^ 64" "j < n"
  shows "skip_to P (word_of_nat n) (link P c j) sk =
    (if length sk < MAX_SKIP_MESSAGES
     then skip_to P (word_of_nat n) (link P c (Suc j)) (sk @ [entry P c j])
     else (Inl (RatchetError ''Too many skipped messages''), link P c j, sk @ [entry P c j]))"
  using assms
  by (subst skip_to.simps)
    (simp add: link_index link_message_key link_next word_of_nat_less_u64 entry_def Let_def)

lemma skip_to_fits:
  assumes "fresh_chain P c" "n < 2 ^ 64"
  shows "j \<le> n \<Longrightarrow> length sk + (n - j) \<le> MAX_SKIP_MESSAGES \<Longrightarrow>
    skip_to P (word_of_nat n) (link P c j) sk = (Inr (), link P c n, sk @ map (entry P c) [j..<n])"
proof (induction "n - j" arbitrary: j sk)
  case 0
  then show ?case
    using assms by (simp add: skip_to_done link_index)
next
  case (Suc d)
  then have j: "j < n" by simp
  have "skip_to P (word_of_nat n) (link P c (Suc j)) (sk @ [entry P c j]) =
      (Inr (), link P c n, (sk @ [entry P c j]) @ map (entry P c) [Suc j..<n])"
    using Suc j by (intro Suc.hyps) simp_all
  with Suc j show ?case
    by (simp add: skip_to_step [OF assms j] upt_conv_Cons)
qed

text \<open>When the table runs full the loop stops with an error, one key beyond the limit.\<close>

lemma skip_to_overflows:
  assumes "fresh_chain P c" "n < 2 ^ 64"
  shows "j < n \<Longrightarrow> MAX_SKIP_MESSAGES < length sk + (n - j) \<Longrightarrow> MAX_SKIP_MESSAGES - length sk = d \<Longrightarrow>
    skip_to P (word_of_nat n) (link P c j) sk =
      (Inl (RatchetError ''Too many skipped messages''), link P c (j + d),
       sk @ map (entry P c) [j..<Suc (j + d)])"
proof (induction d arbitrary: j sk)
  case 0
  then show ?case by (simp add: skip_to_step [OF assms])
next
  case (Suc d)
  then have "skip_to P (word_of_nat n) (link P c (Suc j)) (sk @ [entry P c j]) =
      (Inl (RatchetError ''Too many skipped messages''), link P c (Suc j + d),
       (sk @ [entry P c j]) @ map (entry P c) [Suc j..<Suc (Suc j + d)])"
    by (intro Suc.IH) simp_all
  with Suc.prems show ?case
    by (simp add: skip_to_step [OF assms] upt_conv_Cons del: upt_Suc)
qed

section \<open>The receiving window\<close>

text \<open>
  What \<open>decrypt\<close> promises, without any cryptography: the receiver is the next expected
  message number and the numbers whose keys are stored. A number is readable when its key
  is stored, or when the chain can be moved forward to it within the limit. A number that
  is behind the chain and not stored is unreadable, and moves the chain on all the same.
\<close>

type_synonym window = "nat \<times> nat list"

fun window_receive :: "nat \<Rightarrow> window \<Rightarrow> bool \<times> window" where
  "window_receive n (j, S) =
    (if n \<in> set S then (True, (j, S))
     else if n < j then (False, (Suc j, S))
     else if length S + (n - j) \<le> MAX_SKIP_MESSAGES \<or> n = j then (True, (Suc n, S @ [j..<n]))
     else (let k = j + (MAX_SKIP_MESSAGES - length S) in (False, (k, S @ [j..<Suc k]))))"

text \<open>The concrete receiver holds the links and keys of the window's numbers.\<close>

definition tracks :: "prims \<Rightarrow> chain_key \<Rightarrow> window \<Rightarrow> double_ratchet \<Rightarrow> bool" where
  "tracks P c w r \<longleftrightarrow>
     rc_chain_key (dr_receiving_chain r) = Some (link P c (fst w)) \<and>
     rc_skipped_message_keys (dr_receiving_chain r) = map (entry P c) (snd w)"

text \<open>A message as the sender makes it at position \<open>n\<close> of the chain.\<close>

definition sealed ::
    "prims \<Rightarrow> json_text \<Rightarrow> chain_key \<Rightarrow> nat \<Rightarrow> bytes \<Rightarrow> bytes \<times> ratchet_message_header \<Rightarrow> bool"
where
  "sealed P J c n m ch \<longleftrightarrow> rh_message_number (snd ch) = word_of_nat n \<and>
     (\<exists>sh. to_vec J ratchet_header_to_json (snd ch) = Inr sh \<and>
        chacha_seal P (link_key P c n) (counter_nonce_le (word_of_nat n)) sh m = Some (fst ch))"

lemma open_sealed:
  "aead_law P \<Longrightarrow> sealed P J c n m (ct, h) \<Longrightarrow> open_message P J (link_key P c n) ct h = Inr m"
  by (auto simp: sealed_def open_message_def aead_open_seal)

definition window_small :: "window \<Rightarrow> bool" where
  "window_small w \<longleftrightarrow> fst w < 2 ^ 64 \<and> (\<forall>k\<in>set (snd w). k < 2 ^ 64)"

lemma find_entry:
  assumes "n < 2 ^ 64" "\<forall>k\<in>set S. k < 2 ^ 64"
  shows "find (\<lambda>e. fst e = word_of_nat n) (map (entry P c) S) = (if n \<in> set S then Some (entry P c n) else None)"
  using assms by (induction S) (auto simp: entry_def word_of_nat_eq_u64)

lemma open_stored:
  "open_message P J (snd (entry P c n)) ct h = open_message P J (link_key P c n) ct h"
  by (simp add: entry_def)

lemma decrypt_stored:
  assumes "tracks P c (j, S) r" "window_small (j, S)" "n < 2 ^ 64" "n \<in> set S" "rh_message_number h = word_of_nat n"
  shows "dr_decrypt P J ct h r = (open_message P J (link_key P c n) ct h, r)"
  using assms by (simp add: dr_decrypt_def tracks_def window_small_def find_entry entry_def)

lemma decrypt_advance:
  assumes "tracks P c (j, S) r" "window_small (j, S)" "fresh_chain P c"
    and "n < 2 ^ 64" "n \<notin> set S" "rh_message_number h = word_of_nat n"
    and "skip_to P (word_of_nat n) (link P c j) (map (entry P c) S) =
      (Inr (), link P c k, map (entry P c) T)" "k < 2 ^ 64"
  shows "fst (dr_decrypt P J ct h r) = open_message P J (link_key P c k) ct h \<and>
    tracks P c (Suc k, T) (snd (dr_decrypt P J ct h r))"
  using assms
  by (simp add: dr_decrypt_def tracks_def window_small_def find_entry link_message_key link_next Let_def)

lemma decrypt_overflow:
  assumes "tracks P c (j, S) r" "window_small (j, S)" "fresh_chain P c"
    and "n < 2 ^ 64" "n \<notin> set S" "rh_message_number h = word_of_nat n"
    and "skip_to P (word_of_nat n) (link P c j) (map (entry P c) S) =
      (Inl e, link P c k, map (entry P c) T)"
  shows "fst (dr_decrypt P J ct h r) = Inl e \<and> tracks P c (k, T) (snd (dr_decrypt P J ct h r))"
  using assms
  by (simp add: dr_decrypt_def tracks_def window_small_def find_entry Let_def)

text \<open>The refinement: \<open>decrypt\<close> moves the window as specified, whatever the ciphertext is.\<close>

lemma decrypt_refines_window:
  assumes r: "tracks P c w r" "window_small w" "fresh_chain P c"
    and n: "n < 2 ^ 64" "rh_message_number h = word_of_nat n"
  shows "tracks P c (snd (window_receive n w)) (snd (dr_decrypt P J ct h r)) \<and>
    (fst (window_receive n w) \<longrightarrow> fst (dr_decrypt P J ct h r) = open_message P J (link_key P c n) ct h)"
proof -
  obtain j S where w: "w = (j, S)" by (cases w)
  have j: "j < 2 ^ 64" using r(2) w by (simp add: window_small_def)
  note r = r [unfolded w]
  consider "n \<in> set S" | "n \<notin> set S" "n < j"
    | "n \<notin> set S" "j \<le> n" "length S + (n - j) \<le> MAX_SKIP_MESSAGES \<or> n = j"
    | "n \<notin> set S" "j < n" "MAX_SKIP_MESSAGES < length S + (n - j)"
    by linarith
  then show ?thesis
  proof cases
    case 1
    then show ?thesis using decrypt_stored [OF r(1,2) n(1) _ n(2)] r(1) by (simp add: w)
  next
    case 2
    have "skip_to P (word_of_nat n) (link P c j) (map (entry P c) S) = (Inr (), link P c j, map (entry P c) S)"
      using 2 r j n by (simp add: skip_to_done link_index word_of_nat_less_u64)
    then show ?thesis using decrypt_advance [OF r n(1) 2(1) n(2)] 2 j by (simp add: w)
  next
    case 3
    then have "skip_to P (word_of_nat n) (link P c j) (map (entry P c) S) =
        (Inr (), link P c n, map (entry P c) (S @ [j..<n]))"
      using r(3) n skip_to_fits [of P c n j "map (entry P c) S"]
      by (cases "n = j") (simp_all add: skip_to_done link_index)
    from decrypt_advance [OF r n(1) 3(1) n(2) this n(1)] show ?thesis using 3 by (simp add: w)
  next
    case 4
    then have "skip_to P (word_of_nat n) (link P c j) (map (entry P c) S) =
        (Inl (RatchetError ''Too many skipped messages''), link P c (j + (MAX_SKIP_MESSAGES - length S)),
         map (entry P c) (S @ [j..<Suc (j + (MAX_SKIP_MESSAGES - length S))]))"
      using skip_to_overflows [OF r(3) n(1), of j "map (entry P c) S"] by simp
    from decrypt_overflow [OF r n(1) 4(1) n(2) this] show ?thesis using 4 by (simp add: w Let_def)
  qed
qed

lemma window_receive_small:
  assumes "window_small w" "n < 2 ^ 64 - 1" "fst w < 2 ^ 64 - 1"
  shows "window_small (snd (window_receive n w))"
proof -
  obtain j S where w: "w = (j, S)" by (cases w)
  show ?thesis
  proof (cases "n \<in> set S \<or> n < j \<or> n = j \<or> length S + (n - j) \<le> MAX_SKIP_MESSAGES")
    case True
    then show ?thesis using assms by (auto simp: w window_small_def)
  next
    case False
    then have "j + (MAX_SKIP_MESSAGES - length S) < n" by linarith
    then show ?thesis using False assms by (auto simp: w window_small_def Let_def)
  qed
qed

section \<open>Delivery in any order\<close>

text \<open>
  The window reads every message once, in whatever order they arrive, as long as no more
  than \<open>MAX_SKIP_MESSAGES + 1\<close> of them were sent.
\<close>

definition window_fair :: "nat set \<Rightarrow> window \<Rightarrow> bool" where
  "window_fair D w \<longleftrightarrow> distinct (snd w) \<and> set (snd w) \<subseteq> {..<fst w} \<and> (\<forall>k<fst w. k \<in> set (snd w) \<union> D)"

lemma window_fair_init [simp]: "window_fair {} (0, [])"
  by (simp add: window_fair_def)

lemma window_fair_receive:
  assumes "window_fair D w" "n \<notin> D" "n \<le> MAX_SKIP_MESSAGES"
  shows "fst (window_receive n w) \<and> window_fair (insert n D) (snd (window_receive n w)) \<and>
    fst (snd (window_receive n w)) \<le> max (fst w) (Suc n)"
proof -
  obtain j S where w: "w = (j, S)" by (cases w)
  show ?thesis
  proof (cases "n \<in> set S")
    case True
    then show ?thesis using assms(1) by (auto simp: w window_fair_def)
  next
    case False
    then have j: "j \<le> n"
      using assms(1,2) unfolding w window_fair_def by (metis Un_iff fst_conv snd_conv not_le)
    have "card (set S) \<le> card {..<j}"
      using assms(1) by (intro card_mono) (auto simp: w window_fair_def)
    then have "length S \<le> j"
      using assms(1) by (simp add: w window_fair_def distinct_card)
    then have "length S + (n - j) \<le> MAX_SKIP_MESSAGES" using j assms(3) by simp
    then show ?thesis using False j assms(1) by (auto simp: w window_fair_def) (metis not_le)
  qed
qed

lemma decrypt_fair:
  assumes laws: "fresh_chain P c" "aead_law P"
    and r: "tracks P c w r" "window_fair D w" "fst w \<le> Suc MAX_SKIP_MESSAGES"
    and m: "sealed P J c n m (ct, h)" "n \<notin> D" "n \<le> MAX_SKIP_MESSAGES"
  shows "\<exists>w' r'. dr_decrypt P J ct h r = (Inr m, r') \<and> tracks P c w' r' \<and> window_fair (insert n D) w' \<and>
    fst w' \<le> Suc MAX_SKIP_MESSAGES"
proof -
  have max: "MAX_SKIP_MESSAGES = 1000" by (simp add: MAX_SKIP_MESSAGES_def)
  have "window_small w" using r(2,3) max by (force simp: window_fair_def window_small_def)
  moreover have "n < 2 ^ 64" "rh_message_number h = word_of_nat n" using m max by (simp_all add: sealed_def)
  ultimately have "tracks P c (snd (window_receive n w)) (snd (dr_decrypt P J ct h r)) \<and>
      (fst (window_receive n w) \<longrightarrow> fst (dr_decrypt P J ct h r) = open_message P J (link_key P c n) ct h)"
    by (intro decrypt_refines_window r laws)
  moreover note window_fair_receive [OF r(2) m(2,3)] open_sealed [OF laws(2) m(1)]
  ultimately show ?thesis
    using r(3) m(3)
    by (intro exI [of _ "snd (window_receive n w)"] exI [of _ "snd (dr_decrypt P J ct h r)"])
      (simp add: prod_eq_iff max_def split: if_splits)
qed

text \<open>A receiver fed with messages one after the other.\<close>

abbreviation dr_decrypt_all ::
    "prims \<Rightarrow> json_text \<Rightarrow> (bytes \<times> ratchet_message_header) list \<Rightarrow> double_ratchet \<Rightarrow>
      bytes crypto_result list \<times> double_ratchet"
where
  "dr_decrypt_all P J \<equiv> run_all (\<lambda>ch. dr_decrypt P J (fst ch) (snd ch))"

lemma decrypt_all_fair:
  assumes laws: "fresh_chain P c" "aead_law P"
    and sent: "\<And>n. n < length ms \<Longrightarrow> sealed P J c n (ms ! n) (msgs ! n)"
    and len: "length ms \<le> Suc MAX_SKIP_MESSAGES"
  shows "tracks P c w r \<Longrightarrow> window_fair D w \<Longrightarrow> fst w \<le> Suc MAX_SKIP_MESSAGES \<Longrightarrow>
    distinct order \<Longrightarrow> set order \<subseteq> {..<length ms} - D \<Longrightarrow>
    fst (dr_decrypt_all P J (map ((!) msgs) order) r) = map (\<lambda>n. Inr (ms ! n)) order"
proof (induction order arbitrary: w r D)
  case Nil
  then show ?case by simp
next
  case (Cons n order)
  then have n: "n < length ms" "n \<notin> D" "n \<le> MAX_SKIP_MESSAGES" using len by auto
  obtain ct h where ch: "msgs ! n = (ct, h)" by (cases "msgs ! n")
  obtain w' r' where step: "dr_decrypt P J ct h r = (Inr (ms ! n), r')" "tracks P c w' r'"
      "window_fair (insert n D) w'" "fst w' \<le> Suc MAX_SKIP_MESSAGES"
    using decrypt_fair [OF laws Cons.prems(1-3) sent [OF n(1), unfolded ch] n(2,3)] by blast
  have "fst (dr_decrypt_all P J (map ((!) msgs) order) r') = map (\<lambda>n. Inr (ms ! n)) order"
    using Cons.prems by (intro Cons.IH [OF step(2-4)]) auto
  then show ?case by (simp add: ch step(1) split_beta)
qed

section \<open>Sending along a chain\<close>

lemma dr_encrypt_ensured: "ensure_sending_chain P r = (Inr (), r') \<Longrightarrow> dr_encrypt P J m r = dr_encrypt P J m r'"
proof -
  assume e: "ensure_sending_chain P r = (Inr (), r')"
  then have "ensure_sending_chain P r' = (Inr (), r')"
    by (auto simp: ensure_sending_chain_def split: if_splits st_splits_asm)
  with e show ?thesis by (simp add: dr_encrypt_def)
qed

lemma dr_encrypt_link:
  assumes laws: "fresh_chain P c" "aead_total P" "json_law J"
    and r: "rc_chain_key (dr_sending_chain r) = Some (link P c n)" "n < 2 ^ 64" "length m < 2 ^ 32"
  shows "\<exists>ct h. dr_encrypt P J m r = (Inr (ct, h),
      r\<lparr>dr_sending_chain := (dr_sending_chain r)\<lparr>rc_chain_key := Some (link P c (Suc n))\<rparr>\<rparr>) \<and>
    sealed P J c n m (ct, h) \<and> rh_previous_message_number h = 0 \<and>
    (\<forall>k. rc_our_ratchet_key (dr_sending_chain r) = Some k \<longrightarrow> rh_dh_public_key h = x25519_base P k)"
proof -
  let ?h = "\<lparr>rh_dh_public_key = (case rc_our_ratchet_key (dr_sending_chain r) of
      Some key \<Rightarrow> x25519_base P key | None \<Rightarrow> replicate X25519_PUBLIC_KEY_SIZE 0),
    rh_message_number = word_of_nat n, rh_previous_message_number = 0\<rparr>"
  have "json_wf (ratchet_header_to_json ?h)" by (simp add: ratchet_header_to_json_def)
  then obtain sh where sh: "to_vec J ratchet_header_to_json ?h = Inr sh"
    using laws(3) by (auto simp: json_law_def to_vec_def)
  obtain ct where ct: "chacha_seal P (link_key P c n) (counter_nonce_le (word_of_nat n)) sh m = Some ct"
    using aead_seal_ok [OF laws(2)] length_link_key [OF laws(1)] r(3) by (metis length_counter_nonce(1) CHACHA20_POLY1305_NONCE_SIZE_def)
  have "ensure_sending_chain P r = (Inr (), r)" using r(1) by (simp add: ensure_sending_chain_def)
  then have "dr_encrypt P J m r = (Inr (ct, ?h),
      r\<lparr>dr_sending_chain := (dr_sending_chain r)\<lparr>rc_chain_key := Some (link P c (Suc n))\<rparr>\<rparr>)"
    using r sh ct by (simp add: dr_encrypt_def link_message_key link_next laws Let_def)
  with sh ct show ?thesis by (auto simp: sealed_def)
qed

lemma encrypt_all_link:
  assumes laws: "fresh_chain P c" "aead_total P" "json_law J"
  shows "rc_chain_key (dr_sending_chain r) = Some (link P c n) \<Longrightarrow> n + length ms \<le> 2 ^ 64 \<Longrightarrow>
    \<forall>m\<in>set ms. length m < 2 ^ 32 \<Longrightarrow>
    \<exists>msgs r'. run_all (dr_encrypt P J) ms r = (map Inr msgs, r') \<and> length msgs = length ms \<and>
      (\<forall>i<length ms. sealed P J c (n + i) (ms ! i) (msgs ! i))"
proof (induction ms arbitrary: n r)
  case Nil
  then show ?case by simp
next
  case (Cons m ms)
  obtain ct h r1 where enc: "dr_encrypt P J m r = (Inr (ct, h), r1)" "sealed P J c n m (ct, h)"
      "rc_chain_key (dr_sending_chain r1) = Some (link P c (Suc n))"
    using dr_encrypt_link [OF laws Cons.prems(1), of m] Cons.prems by auto
  then obtain msgs r' where "run_all (dr_encrypt P J) ms r1 = (map Inr msgs, r')" "length msgs = length ms"
      "\<forall>i<length ms. sealed P J c (Suc n + i) (ms ! i) (msgs ! i)"
    using Cons.IH [of r1 "Suc n"] Cons.prems by auto
  with enc show ?case
    by (intro exI [of _ "(ct, h) # msgs"] exI [of _ r']) (auto simp: less_Suc_eq_0_disj)
qed

text \<open>Both ends stand at the head of the same fresh chain.\<close>

definition chain_shared :: "prims \<Rightarrow> double_ratchet \<Rightarrow> double_ratchet \<Rightarrow> bool" where
  "chain_shared P s r \<longleftrightarrow> (\<exists>c s'. ensure_sending_chain P s = (Inr (), s') \<and>
     rc_chain_key (dr_sending_chain s') = Some c \<and> ck_index c = 0 \<and>
     rc_chain_key (dr_receiving_chain r) = Some c \<and> rc_skipped_message_keys (dr_receiving_chain r) = [])"

lemma shared_chain_delivers:
  assumes laws: "hmac_law P" "aead_law P" "aead_total P" "json_law J" and "chain_shared P s r"
    and ms: "length ms \<le> MAX_SKIP_MESSAGES + 1" "\<forall>m\<in>set ms. length m < 2 ^ 32"
  shows "\<exists>msgs s'. run_all (dr_encrypt P J) ms s = (map Inr msgs, s') \<and> length msgs = length ms \<and>
    (\<forall>order. distinct order \<and> set order \<subseteq> {..<length ms} \<longrightarrow>
      fst (dr_decrypt_all P J (map ((!) msgs) order) r) = map (\<lambda>n. Inr (ms ! n)) order)"
proof (cases ms)
  case Nil
  then show ?thesis by simp
next
  case (Cons m ms')
  obtain c s1 where c: "ensure_sending_chain P s = (Inr (), s1)"
      "rc_chain_key (dr_sending_chain s1) = Some c" "ck_index c = 0"
      "rc_chain_key (dr_receiving_chain r) = Some c" "rc_skipped_message_keys (dr_receiving_chain r) = []"
    using assms(5) by (auto simp: chain_shared_def)
  have fresh: "fresh_chain P c" using c laws by (simp add: fresh_chain_def)
  have "0 + length ms \<le> 2 ^ 64" using ms(1) by (simp add: MAX_SKIP_MESSAGES_def)
  then obtain msgs s' where sent: "run_all (dr_encrypt P J) ms s1 = (map Inr msgs, s')" "length msgs = length ms"
      "\<And>i. i < length ms \<Longrightarrow> sealed P J c i (ms ! i) (msgs ! i)"
    using encrypt_all_link [OF fresh laws(3,4), of s1 0 ms] c ms by auto
  have "tracks P c (0, []) r" using c by (simp add: tracks_def)
  from decrypt_all_fair [OF fresh laws(2) sent(3) _ this window_fair_init] sent ms(1) show ?thesis
    by (intro exI [of _ msgs] exI [of _ s']) (simp add: dr_encrypt_ensured [OF c(1)] Cons)
qed

section \<open>What an operation leaves alone\<close>

lemma dr_decrypt_frame:
  assumes "dr_decrypt P J ct h r = (x, r')"
  shows "dr_root_key r' = dr_root_key r" "dr_sending_chain r' = dr_sending_chain r"
    "rc_our_ratchet_key (dr_receiving_chain r') = rc_our_ratchet_key (dr_receiving_chain r)"
  using assms by (auto simp: dr_decrypt_def Let_def split: option.splits prod.splits st_splits_asm)

lemma ensure_sending_chain_frame:
  assumes "ensure_sending_chain P r = (x, r')"
  shows "dr_receiving_chain r' = dr_receiving_chain r"
    "rc_our_ratchet_key (dr_sending_chain r') = rc_our_ratchet_key (dr_sending_chain r)"
    "rc_chain_key (dr_sending_chain r) \<noteq> None \<Longrightarrow> r' = r"
  using assms by (auto simp: ensure_sending_chain_def split: if_splits st_splits_asm prod.splits)

lemma dr_encrypt_frame:
  assumes "dr_encrypt P J m r = (x, r')"
  shows "dr_receiving_chain r' = dr_receiving_chain r"
    "rc_our_ratchet_key (dr_sending_chain r') = rc_our_ratchet_key (dr_sending_chain r)"
    "rc_chain_key (dr_sending_chain r) \<noteq> None \<Longrightarrow>
      dr_root_key r' = dr_root_key r \<and> rc_chain_key (dr_sending_chain r') \<noteq> None"
proof -
  obtain y r1 where e: "ensure_sending_chain P r = (y, r1)" by (cases "ensure_sending_chain P r")
  have r': "r' = r1 \<or> (\<exists>c. r' = r1\<lparr>dr_sending_chain := (dr_sending_chain r1)\<lparr>rc_chain_key := Some c\<rparr>\<rparr>)"
    using assms by (auto simp: dr_encrypt_def e Let_def split: st_splits_asm)
  with ensure_sending_chain_frame [OF e] show "dr_receiving_chain r' = dr_receiving_chain r"
    "rc_our_ratchet_key (dr_sending_chain r') = rc_our_ratchet_key (dr_sending_chain r)"
    "rc_chain_key (dr_sending_chain r) \<noteq> None \<Longrightarrow>
      dr_root_key r' = dr_root_key r \<and> rc_chain_key (dr_sending_chain r') \<noteq> None"
    by auto
qed

lemma dr_encrypt_header:
  assumes "dr_encrypt P J m r = (Inr (ct, h), r')" "rc_our_ratchet_key (dr_sending_chain r) = Some k"
  shows "rh_dh_public_key h = x25519_base P k \<and> rh_previous_message_number h = 0"
  using assms
  by (auto simp: dr_encrypt_def Let_def split: st_splits_asm dest!: ensure_sending_chain_frame(2))

section \<open>Both ends agree on their chains\<close>

lemma ratchet_step_ok:
  assumes "hkdf_law P"
  shows "\<exists>rk' c. ratchet_step P rk dh = Inr (rk', c) \<and> ck_index c = 0"
proof -
  obtain a where "expand P (Some (rk_key rk)) dh ''presidium-ratchet-root'' ROOT_KEY_SIZE
      ''Root key derivation failed'' = Inr a"
    using expand_ok [OF assms, of ROOT_KEY_SIZE] by fastforce
  moreover obtain b where "expand P (Some (rk_key rk)) dh ''presidium-ratchet-chain'' CHAIN_KEY_SIZE
      ''Chain key derivation failed'' = Inr b"
    using expand_ok [OF assms, of CHAIN_KEY_SIZE] by fastforce
  ultimately show ?thesis by (simp add: ratchet_step_def)
qed

text \<open>
  The state of the two ends after both were initialised and the responder took the
  initiator's ratchet key: one root key, one chain from initiator to responder.
\<close>

lemma init_shared:
  assumes "dh_law P" "hkdf_law P" "dr_init P sid rk a (x25519_base P b) ad = Inr alice"
    and "dr_init_as_responder sid' rk b ad' = Inr bob"
  obtains bob' where "dr_dh_ratchet P (x25519_base P a) bob = (Inr (), bob')" "chain_shared P alice bob'"
    "dr_root_key bob' = dr_root_key alice" "rc_chain_key (dr_sending_chain alice) \<noteq> None"
    "rc_our_ratchet_key (dr_sending_chain alice) = Some a" "rc_our_ratchet_key (dr_receiving_chain alice) = None"
    "rc_skipped_message_keys (dr_receiving_chain alice) = []"
    "rc_our_ratchet_key (dr_sending_chain bob') = Some b"
    "rc_their_ratchet_public (dr_sending_chain bob') = Some (x25519_base P a)"
    "rc_chain_key (dr_sending_chain bob') = None"
proof -
  obtain rk' c where "ratchet_step P rk (x25519 P a (x25519_base P b)) = Inr (rk', c)" "ck_index c = 0"
    using ratchet_step_ok [OF assms(2)] by blast
  then show thesis
    using assms(3,4) dh_commutes [OF assms(1), of a b]
    by (intro that [of "snd (dr_dh_ratchet P (x25519_base P a) bob)"])
      (auto simp: dr_init_def dr_init_as_responder_def dr_dh_ratchet_def chain_shared_def
        ensure_sending_chain_def Let_def)
qed

text \<open>The way back: the initiator takes the responder's ratchet key once.\<close>

lemma reply_shared:
  assumes "dh_law P" "hkdf_law P" "dr_root_key bob = dr_root_key alice"
    and alice: "rc_our_ratchet_key (dr_sending_chain alice) = Some a"
      "rc_our_ratchet_key (dr_receiving_chain alice) = None" "rc_skipped_message_keys (dr_receiving_chain alice) = []"
    and bob: "rc_our_ratchet_key (dr_sending_chain bob) = Some b" "rc_chain_key (dr_sending_chain bob) = None"
      "rc_their_ratchet_public (dr_sending_chain bob) = Some (x25519_base P a)"
  shows "\<exists>alice'. dr_dh_ratchet P (x25519_base P b) alice = (Inr (), alice') \<and> chain_shared P bob alice'"
proof -
  obtain rk' c where "ratchet_step P (dr_root_key alice) (x25519 P a (x25519_base P b)) = Inr (rk', c)" "ck_index c = 0"
    using ratchet_step_ok [OF assms(2)] by blast
  then show ?thesis
    using assms(3) alice bob dh_commutes [OF assms(1), of a b]
    by (simp add: dr_dh_ratchet_def chain_shared_def ensure_sending_chain_def Let_def)
qed

section \<open>Sessions as machines\<close>

datatype ratchet_op =
    OpEncrypt bytes
  | OpDecrypt bytes ratchet_message_header
  | OpDhRatchet bytes

fun ratchet_exec :: "prims \<Rightarrow> json_text \<Rightarrow> ratchet_op \<Rightarrow> double_ratchet \<Rightarrow> double_ratchet" where
  "ratchet_exec P J (OpEncrypt m) r = snd (dr_encrypt P J m r)"
| "ratchet_exec P J (OpDecrypt ct h) r = snd (dr_decrypt P J ct h r)"
| "ratchet_exec P J (OpDhRatchet pk) r = snd (dr_dh_ratchet P pk r)"

definition ratchet_inv :: "bytes \<Rightarrow> double_ratchet \<Rightarrow> bool" where
  "ratchet_inv k r \<longleftrightarrow> rc_our_ratchet_key (dr_sending_chain r) = Some k \<and>
     rc_our_ratchet_key (dr_receiving_chain r) = None"

lemma dr_dh_ratchet_inv: "ratchet_inv k r \<Longrightarrow> ratchet_inv k (snd (dr_dh_ratchet P pk r))"
  by (auto simp: dr_dh_ratchet_def ratchet_inv_def Let_def split: st_splits)

interpretation dr_machine: machine "ratchet_exec P J" "ratchet_inv k" for P J k
proof (unfold_locales, goal_cases)
  case (1 r op)
  show ?case
  proof (cases op)
    case (OpEncrypt m)
    obtain x r' where e: "dr_encrypt P J m r = (x, r')" by (cases "dr_encrypt P J m r")
    with OpEncrypt 1 dr_encrypt_frame [OF e] show ?thesis by (simp add: ratchet_inv_def)
  next
    case (OpDecrypt ct h)
    obtain x r' where e: "dr_decrypt P J ct h r = (x, r')" by (cases "dr_decrypt P J ct h r")
    with OpDecrypt 1 dr_decrypt_frame [OF e] show ?thesis by (simp add: ratchet_inv_def)
  next
    case (OpDhRatchet pk)
    then show ?thesis using 1 by (simp add: dr_dh_ratchet_inv)
  qed
qed

text \<open>How the program obtains a session: one of the two initialisations, with ratchet key \<open>k\<close>.\<close>

definition session_start :: "prims \<Rightarrow> bytes \<Rightarrow> double_ratchet \<Rightarrow> bool" where
  "session_start P k r \<longleftrightarrow> (\<exists>sid rk ad. (\<exists>pk. dr_init P sid rk k pk ad = Inr r) \<or> dr_init_as_responder sid rk k ad = Inr r)"

lemma session_start_inv: "session_start P k r \<Longrightarrow> ratchet_inv k r"
  by (auto simp: session_start_def dr_init_def dr_init_as_responder_def ratchet_inv_def result_simps Let_def)

lemma run_encrypt_root:
  assumes "rc_chain_key (dr_sending_chain r) \<noteq> None"
  shows "dr_root_key (snd (run_all (dr_encrypt P J) ms r)) = dr_root_key r \<and>
    dr_receiving_chain (snd (run_all (dr_encrypt P J) ms r)) = dr_receiving_chain r \<and>
    rc_our_ratchet_key (dr_sending_chain (snd (run_all (dr_encrypt P J) ms r))) =
      rc_our_ratchet_key (dr_sending_chain r)"
proof -
  let ?I = "\<lambda>r'. rc_chain_key (dr_sending_chain r') \<noteq> None \<and>
      dr_root_key r' = dr_root_key r \<and> dr_receiving_chain r' = dr_receiving_chain r \<and>
      rc_our_ratchet_key (dr_sending_chain r') = rc_our_ratchet_key (dr_sending_chain r)"
  have "list_all2 (\<lambda>_ _. True) ms (fst (run_all (dr_encrypt P J) ms r)) \<and> ?I (snd (run_all (dr_encrypt P J) ms r))"
  proof (rule run_all_invariant)
    fix m r1 y r2
    assume "?I r1" and e: "dr_encrypt P J m r1 = (y, r2)"
    with dr_encrypt_frame [OF e] show "True \<and> ?I r2" by simp
  qed (use assms in simp)
  then show ?thesis by blast
qed

lemma run_decrypt_root:
  "dr_root_key (snd (dr_decrypt_all P J chs r)) = dr_root_key r \<and>
    dr_sending_chain (snd (dr_decrypt_all P J chs r)) = dr_sending_chain r"
proof -
  let ?I = "\<lambda>r'. dr_root_key r' = dr_root_key r \<and> dr_sending_chain r' = dr_sending_chain r"
  have "list_all2 (\<lambda>_ _. True) chs (fst (dr_decrypt_all P J chs r)) \<and> ?I (snd (dr_decrypt_all P J chs r))"
  proof (rule run_all_invariant)
    fix ch r1 y r2
    assume "?I r1" and e: "dr_decrypt P J (fst ch) (snd ch) r1 = (y, r2)"
    with dr_decrypt_frame [OF e] show "True \<and> ?I r2" by simp
  qed simp
  then show ?thesis by blast
qed

section \<open>Properties\<close>

text \<open>The laws of the primitives that a session relies on.\<close>

definition ratchet_laws :: "prims \<Rightarrow> json_text \<Rightarrow> bool" where
  "ratchet_laws P J \<longleftrightarrow> dh_law P \<and> hkdf_law P \<and> hmac_law P \<and> aead_law P \<and> aead_total P \<and> json_law J"

lemma sample_ratchet_laws: "ratchet_laws sample_prims sample_json"
  by (simp add: ratchet_laws_def sample_laws sample_json_law)

text \<open>
  C4. Delivery: once the responder has taken the initiator's ratchet key, up to
  \<open>MAX_SKIP_MESSAGES + 1\<close> messages of the initiator all encrypt, and the responder
  decrypts any selection of them in any order, each to the text that was sent.
\<close>

theorem ratchet_delivery:
  assumes "ratchet_laws P J" "dr_init P sid rk a (x25519_base P b) ad = Inr alice"
    and "dr_init_as_responder sid' rk b ad' = Inr bob"
    and "length ms \<le> MAX_SKIP_MESSAGES + 1" "\<forall>m\<in>set ms. length m < 2 ^ 32"
  shows "\<exists>bob' msgs alice'. dr_dh_ratchet P (x25519_base P a) bob = (Inr (), bob') \<and>
    run_all (dr_encrypt P J) ms alice = (map Inr msgs, alice') \<and> length msgs = length ms \<and>
    (\<forall>order. distinct order \<and> set order \<subseteq> {..<length ms} \<longrightarrow>
      fst (dr_decrypt_all P J (map ((!) msgs) order) bob') = map (\<lambda>n. Inr (ms ! n)) order)"
proof -
  have laws: "dh_law P" "hkdf_law P" "hmac_law P" "aead_law P" "aead_total P" "json_law J"
    using assms(1) by (simp_all add: ratchet_laws_def)
  obtain bob' where bob': "dr_dh_ratchet P (x25519_base P a) bob = (Inr (), bob')" "chain_shared P alice bob'"
    using init_shared [OF laws(1,2) assms(2,3)] by blast
  with shared_chain_delivers [OF laws(3-6) bob'(2) assms(4,5)] show ?thesis by blast
qed

lemma sample_sessions:
  obtains alice bob where
    "dr_init sample_prims ''s'' \<lparr>rk_key = replicate 32 9\<rparr> (replicate 32 1) (x25519_base sample_prims (replicate 32 2)) [] = Inr alice"
    "dr_init_as_responder ''s'' \<lparr>rk_key = replicate 32 9\<rparr> (replicate 32 2) [] = Inr bob"
proof -
  obtain rk c where "ratchet_step sample_prims \<lparr>rk_key = replicate 32 9\<rparr>
      (x25519 sample_prims (replicate 32 1) (x25519_base sample_prims (replicate 32 2))) = Inr (rk, c)"
    using ratchet_step_ok [OF sample_hkdf] by blast
  then show thesis by (intro that) (simp_all add: dr_init_def dr_init_as_responder_def)
qed

theorem ratchet_delivery_witness:
  "\<exists>alice bob bob' msgs.
    dr_init sample_prims ''s'' \<lparr>rk_key = replicate 32 9\<rparr> (replicate 32 1) (x25519_base sample_prims (replicate 32 2)) [] = Inr alice \<and>
    dr_dh_ratchet sample_prims (x25519_base sample_prims (replicate 32 1)) bob = (Inr (), bob') \<and>
    fst (run_all (dr_encrypt sample_prims sample_json) [[1], [2], [3]] alice) = map Inr msgs \<and>
    fst (dr_decrypt_all sample_prims sample_json (map ((!) msgs) [2, 0, 1]) bob') = [Inr [3], Inr [1], Inr [2]]"
proof -
  obtain alice bob where ab:
    "dr_init sample_prims ''s'' \<lparr>rk_key = replicate 32 9\<rparr> (replicate 32 1) (x25519_base sample_prims (replicate 32 2)) [] = Inr alice"
    "dr_init_as_responder ''s'' \<lparr>rk_key = replicate 32 9\<rparr> (replicate 32 2) [] = Inr bob"
    by (rule sample_sessions)
  let ?ms = "[[1], [2], [3]] :: bytes list"
  have "length ?ms \<le> MAX_SKIP_MESSAGES + 1" "\<forall>m\<in>set ?ms. length m < 2 ^ 32"
    by (simp_all add: MAX_SKIP_MESSAGES_def)
  from ratchet_delivery [OF sample_ratchet_laws ab this]
  obtain bob' msgs alice' where r:
    "dr_dh_ratchet sample_prims (x25519_base sample_prims (replicate 32 1)) bob = (Inr (), bob')"
    "run_all (dr_encrypt sample_prims sample_json) ?ms alice = (map Inr msgs, alice')"
    "\<forall>order. distinct order \<and> set order \<subseteq> {..<length ?ms} \<longrightarrow>
      fst (dr_decrypt_all sample_prims sample_json (map ((!) msgs) order) bob') =
        map (\<lambda>n. Inr (?ms ! n)) order"
    by blast
  have "distinct [2, 0, 1 :: nat] \<and> set [2, 0, 1] \<subseteq> {..<length ?ms}" by simp
  with r(3) have "fst (dr_decrypt_all sample_prims sample_json (map ((!) msgs) [2, 0, 1]) bob') =
      map (\<lambda>n. Inr (?ms ! n)) [2, 0, 1]"
    by blast
  also have "\<dots> = [Inr [3], Inr [1], Inr [2]]" by simp
  finally have dec: "fst (dr_decrypt_all sample_prims sample_json (map ((!) msgs) [2, 0, 1]) bob') =
      [Inr [3], Inr [1], Inr [2]]" .
  have enc: "fst (run_all (dr_encrypt sample_prims sample_json) ?ms alice) = map Inr msgs"
    using r(2) by (simp only: fst_conv)
  show ?thesis by (intro exI conjI) (rule ab(1) r(1) enc dec)+
qed

text \<open>
  C29. A conversation: after the initiator's messages and their decryption in whatever
  order, the initiator takes the responder's ratchet key, and up to \<open>MAX_SKIP_MESSAGES + 1\<close> replies of
  the responder are all encrypted, and any selection of them is decrypted in any order, each to its text.
\<close>

theorem ratchet_conversation:
  assumes laws: "ratchet_laws P J" and init: "dr_init P sid rk a (x25519_base P b) ad = Inr alice"
      "dr_init_as_responder sid' rk b ad' = Inr bob"
    and "dr_dh_ratchet P (x25519_base P a) bob = (Inr (), bob1)"
    and "alice2 = snd (run_all (dr_encrypt P J) ms alice)" "bob2 = snd (dr_decrypt_all P J received bob1)"
    and replies: "length rs \<le> MAX_SKIP_MESSAGES + 1" "\<forall>m\<in>set rs. length m < 2 ^ 32"
  shows "\<exists>alice3 msgs bob3. dr_dh_ratchet P (x25519_base P b) alice2 = (Inr (), alice3) \<and>
    run_all (dr_encrypt P J) rs bob2 = (map Inr msgs, bob3) \<and> length msgs = length rs \<and>
    (\<forall>order. distinct order \<and> set order \<subseteq> {..<length rs} \<longrightarrow>
      fst (dr_decrypt_all P J (map ((!) msgs) order) alice3) = map (\<lambda>n. Inr (rs ! n)) order)"
proof -
  have l: "dh_law P" "hkdf_law P" "hmac_law P" "aead_law P" "aead_total P" "json_law J"
    using laws by (simp_all add: ratchet_laws_def)
  obtain bob' where s: "dr_dh_ratchet P (x25519_base P a) bob = (Inr (), bob')"
    "dr_root_key bob' = dr_root_key alice" "rc_chain_key (dr_sending_chain alice) \<noteq> None"
    "rc_our_ratchet_key (dr_sending_chain alice) = Some a" "rc_our_ratchet_key (dr_receiving_chain alice) = None"
    "rc_skipped_message_keys (dr_receiving_chain alice) = []"
    "rc_our_ratchet_key (dr_sending_chain bob') = Some b"
    "rc_their_ratchet_public (dr_sending_chain bob') = Some (x25519_base P a)"
    "rc_chain_key (dr_sending_chain bob') = None"
    by (rule init_shared [OF l(1,2) init])
  have [simp]: "bob' = bob1" using s(1) assms(4) by simp
  obtain alice3 where "dr_dh_ratchet P (x25519_base P b) alice2 = (Inr (), alice3)" "chain_shared P bob2 alice3"
    using reply_shared [OF l(1,2), of bob2 alice2 a b] run_encrypt_root [OF s(3), of P J ms]
      run_decrypt_root [of P J received bob1] s assms(5,6) by auto
  with shared_chain_delivers [OF l(3-6) _ replies] show ?thesis by blast
qed

theorem ratchet_conversation_witness:
  "\<exists>alice bob bob1 alice3 msgs bob3.
    dr_init sample_prims ''s'' \<lparr>rk_key = replicate 32 9\<rparr> (replicate 32 1) (x25519_base sample_prims (replicate 32 2)) [] = Inr alice \<and>
    dr_init_as_responder ''s'' \<lparr>rk_key = replicate 32 9\<rparr> (replicate 32 2) [] = Inr bob \<and>
    dr_dh_ratchet sample_prims (x25519_base sample_prims (replicate 32 1)) bob = (Inr (), bob1) \<and>
    dr_dh_ratchet sample_prims (x25519_base sample_prims (replicate 32 2))
      (snd (run_all (dr_encrypt sample_prims sample_json) [[1]] alice)) = (Inr (), alice3) \<and>
    run_all (dr_encrypt sample_prims sample_json) [[4], [5]]
      (snd (dr_decrypt_all sample_prims sample_json [] bob1)) = (map Inr msgs, bob3) \<and>
    fst (dr_decrypt_all sample_prims sample_json (map ((!) msgs) [1, 0]) alice3) = [Inr [5], Inr [4]]"
proof -
  obtain alice bob where ab:
    "dr_init sample_prims ''s'' \<lparr>rk_key = replicate 32 9\<rparr> (replicate 32 1) (x25519_base sample_prims (replicate 32 2)) [] = Inr alice"
    "dr_init_as_responder ''s'' \<lparr>rk_key = replicate 32 9\<rparr> (replicate 32 2) [] = Inr bob"
    by (rule sample_sessions)
  obtain bob1 where b1: "dr_dh_ratchet sample_prims (x25519_base sample_prims (replicate 32 1)) bob = (Inr (), bob1)"
    by (rule init_shared [OF sample_dh sample_hkdf ab])
  let ?ms = "[[4], [5]] :: bytes list"
  have "length ?ms \<le> MAX_SKIP_MESSAGES + 1" "\<forall>m\<in>set ?ms. length m < 2 ^ 32"
    by (simp_all add: MAX_SKIP_MESSAGES_def)
  from ratchet_conversation [OF sample_ratchet_laws ab b1 refl refl this]
  obtain alice3 msgs bob3 where r:
    "dr_dh_ratchet sample_prims (x25519_base sample_prims (replicate 32 2))
      (snd (run_all (dr_encrypt sample_prims sample_json) [[1]] alice)) = (Inr (), alice3)"
    "run_all (dr_encrypt sample_prims sample_json) ?ms
      (snd (dr_decrypt_all sample_prims sample_json [] bob1)) = (map Inr msgs, bob3)"
    "\<forall>order. distinct order \<and> set order \<subseteq> {..<length ?ms} \<longrightarrow>
      fst (dr_decrypt_all sample_prims sample_json (map ((!) msgs) order) alice3) =
        map (\<lambda>n. Inr (?ms ! n)) order"
    by blast
  have "distinct [1, 0 :: nat] \<and> set [1, 0] \<subseteq> {..<length ?ms}" by simp
  with r(3) have "fst (dr_decrypt_all sample_prims sample_json (map ((!) msgs) [1, 0]) alice3) =
      map (\<lambda>n. Inr (?ms ! n)) [1, 0]"
    by blast
  also have "\<dots> = [Inr [5], Inr [4]]" by simp
  finally have dec: "fst (dr_decrypt_all sample_prims sample_json (map ((!) msgs) [1, 0]) alice3) = [Inr [5], Inr [4]]" .
  show ?thesis by (intro exI conjI) (rule ab b1 r(1) r(2) dec)+
qed

definition sample_chain :: chain_key where
  "sample_chain = \<lparr>ck_key = replicate 32 7, ck_index = 0\<rparr>"

definition sample_receiver :: "window \<Rightarrow> double_ratchet" where
  "sample_receiver w = \<lparr>dr_root_key = \<lparr>rk_key = replicate 32 9\<rparr>,
     dr_sending_chain = \<lparr>rc_our_ratchet_key = Some (replicate 32 2), rc_their_ratchet_public = None,
       rc_chain_key = None, rc_skipped_message_keys = []\<rparr>,
     dr_receiving_chain = \<lparr>rc_our_ratchet_key = None, rc_their_ratchet_public = None,
       rc_chain_key = Some (link sample_prims sample_chain (fst w)),
       rc_skipped_message_keys = map (entry sample_prims sample_chain) (snd w)\<rparr>,
     dr_session_id = ''s'', dr_associated_data = []\<rparr>"

definition sample_header :: "nat \<Rightarrow> ratchet_message_header" where
  "sample_header n = \<lparr>rh_dh_public_key = replicate 32 1, rh_message_number = word_of_nat n,
     rh_previous_message_number = 0\<rparr>"

lemma sample_receiver_tracks [simp]:
  "tracks sample_prims sample_chain w (sample_receiver w)" "fresh_chain sample_prims sample_chain"
  "rh_message_number (sample_header n) = word_of_nat n"
  by (simp_all add: tracks_def sample_receiver_def fresh_chain_def sample_chain_def sample_hmac sample_header_def)

lemma sample_sealed: obtains ct where "sealed sample_prims sample_json sample_chain n m (ct, sample_header n)"
proof -
  have "json_wf (ratchet_header_to_json (sample_header n))" by (simp add: ratchet_header_to_json_def)
  then obtain sh where "to_vec sample_json ratchet_header_to_json (sample_header n) = Inr sh"
    using sample_json_law by (auto simp: json_law_def to_vec_def)
  then show thesis by (intro that) (simp add: sealed_def, simp add: sample_prims_def)
qed

text \<open>
  C10. Refinement: a receiver that tracks a window moves with it on every decryption, and
  an authentic message whose number the window can read is decrypted to its text. The new state depends on the message number alone: an authentic message and a
  forged one move the receiver alike.
\<close>

theorem ratchet_refines_window:
  assumes "fresh_chain P c" "aead_law P" "tracks P c w r" "window_small w"
    and "n < 2 ^ 64" "rh_message_number h = word_of_nat n"
  shows "tracks P c (snd (window_receive n w)) (snd (dr_decrypt P J ct h r)) \<and>
    (\<forall>m. fst (window_receive n w) \<and> sealed P J c n m (ct, h) \<longrightarrow> fst (dr_decrypt P J ct h r) = Inr m)"
  using decrypt_refines_window [OF assms(3,4,1,5,6), of J ct] open_sealed [OF assms(2)] by fastforce

theorem ratchet_refines_window_witness:
  "tracks sample_prims sample_chain (6, [2, 3, 4])
     (snd (dr_decrypt sample_prims sample_json [1, 2] (sample_header 5) (sample_receiver (3, [2]))))"
proof -
  have "window_small (3, [2])" "(5 :: nat) < 2 ^ 64" by (simp_all add: window_small_def)
  then have "tracks sample_prims sample_chain (snd (window_receive 5 (3, [2])))
      (snd (dr_decrypt sample_prims sample_json [1, 2] (sample_header 5) (sample_receiver (3, [2]))))"
    using ratchet_refines_window [OF sample_receiver_tracks(2) sample_aead(1) sample_receiver_tracks(1)
        _ _ sample_receiver_tracks(3), of "(3, [2])" 5 sample_json "[1, 2]"] by blast
  moreover have "[3::nat..<5] = [3, 4]" by (simp add: upt_rec)
  ultimately show ?thesis by (simp add: MAX_SKIP_MESSAGES_def)
qed

lemma decrypt_behind:
  assumes "tracks P c (j, S) r" "window_small (j, S)" "fresh_chain P c"
    and "n < j" "n \<notin> set S" "rh_message_number h = word_of_nat n"
  shows "fst (dr_decrypt P J ct h r) = open_message P J (link_key P c j) ct h"
proof -
  have j: "j < 2 ^ 64" "n < 2 ^ 64" using assms by (simp_all add: window_small_def)
  then have "skip_to P (word_of_nat n) (link P c j) (map (entry P c) S) = (Inr (), link P c j, map (entry P c) S)"
    using assms by (simp add: skip_to_done link_index word_of_nat_less_u64)
  from decrypt_advance [OF assms(1-3) j(2) assms(5,6) this j(1)] show ?thesis by blast
qed

text \<open>
  C33. A forged message locks out the real one: after any ciphertext was presented under
  the number that the chain expects next, the authentic message with that number is
  opened with the key of the following one.
\<close>

theorem ratchet_forgery_displaces:
  assumes "fresh_chain P c" "tracks P c (j, S) r" "window_small (Suc j, S)" "j \<notin> set S"
    and "rh_message_number h = word_of_nat j" "rh_message_number h' = word_of_nat j"
  shows "fst (dr_decrypt P J ct h (snd (dr_decrypt P J forged h' r))) =
    open_message P J (link_key P c (Suc j)) ct h"
proof -
  have "window_small (j, S)" "j < 2 ^ 64" using assms(3) by (simp_all add: window_small_def)
  then have "tracks P c (Suc j, S) (snd (dr_decrypt P J forged h' r))"
    using decrypt_refines_window [OF assms(2) _ assms(1) _ assms(6), of J forged] assms(4) by simp
  then show ?thesis using assms by (intro decrypt_behind [where n = j]) simp_all
qed

theorem ratchet_forgery_displaces_witness:
  "\<exists>ct. sealed sample_prims sample_json sample_chain 0 [72, 105] (ct, sample_header 0) \<and>
    fst (dr_decrypt sample_prims sample_json ct (sample_header 0)
      (snd (dr_decrypt sample_prims sample_json [66] (sample_header 0) (sample_receiver (0, []))))) =
    open_message sample_prims sample_json (link_key sample_prims sample_chain 1) ct (sample_header 0)"
proof -
  obtain ct where ct: "sealed sample_prims sample_json sample_chain 0 [72, 105] (ct, sample_header 0)"
    by (rule sample_sealed)
  have "window_small (Suc 0, [])" by (simp add: window_small_def)
  from ratchet_forgery_displaces [OF sample_receiver_tracks(2) sample_receiver_tracks(1) this _
      sample_receiver_tracks(3) sample_receiver_tracks(3), of sample_json ct "[66]"] ct
  show ?thesis by auto
qed

text \<open>
  C35. Stored keys are never used up: a message whose key is stored is decrypted any
  number of times, and the receiver does not change.
\<close>

theorem ratchet_replays_skipped:
  assumes "aead_law P" "tracks P c (j, S) r" "window_small (j, S)"
    and "n \<in> set S" "sealed P J c n m (ct, h)"
  shows "dr_decrypt_all P J (replicate k (ct, h)) r = (replicate k (Inr m), r)"
proof -
  have "n < 2 ^ 64" "rh_message_number h = word_of_nat n"
    using assms by (simp_all add: window_small_def sealed_def)
  then have "dr_decrypt P J ct h r = (Inr m, r)"
    using decrypt_stored [OF assms(2,3) _ assms(4)] open_sealed [OF assms(1,5)] by simp
  then show ?thesis by (induction k) simp_all
qed

theorem ratchet_replays_skipped_witness:
  "\<exists>ct. sealed sample_prims sample_json sample_chain 2 [72, 105] (ct, sample_header 2) \<and>
    dr_decrypt_all sample_prims sample_json (replicate 3 (ct, sample_header 2)) (sample_receiver (4, [2])) =
      (replicate 3 (Inr [72, 105]), sample_receiver (4, [2]))"
proof -
  obtain ct where ct: "sealed sample_prims sample_json sample_chain 2 [72, 105] (ct, sample_header 2)"
    by (rule sample_sealed)
  have "window_small (4, [2])" "(2 :: nat) \<in> set [2]" by (simp_all add: window_small_def)
  with ratchet_replays_skipped [OF sample_aead(1) sample_receiver_tracks(1) _ _ ct] ct show ?thesis by blast
qed

text \<open>
  C34. A full table jams the session: when \<open>MAX_SKIP_MESSAGES\<close> keys are stored, every
  message from beyond the chain's position is refused, the chain never moves again under
  such messages, and each of them makes the table longer.
\<close>

theorem ratchet_jams:
  assumes fresh: "fresh_chain P c"
  shows "tracks P c (j, S) r \<Longrightarrow> window_small (j, S) \<Longrightarrow> MAX_SKIP_MESSAGES \<le> length S \<Longrightarrow>
    (\<forall>ch\<in>set chs. \<exists>n>j. n < 2 ^ 64 \<and> n \<notin> set S \<and> rh_message_number (snd ch) = word_of_nat n) \<Longrightarrow>
    fst (dr_decrypt_all P J chs r) = replicate (length chs) (Inl (RatchetError ''Too many skipped messages'')) \<and>
    tracks P c (j, S @ replicate (length chs) j) (snd (dr_decrypt_all P J chs r))"
proof (induction chs arbitrary: S r)
  case Nil
  then show ?case by simp
next
  case (Cons ch chs)
  then obtain n where n: "j < n" "n < 2 ^ 64" "n \<notin> set S" "rh_message_number (snd ch) = word_of_nat n"
    by auto
  have "skip_to P (word_of_nat n) (link P c j) (map (entry P c) S) =
      (Inl (RatchetError ''Too many skipped messages''), link P c j, map (entry P c) (S @ [j]))"
    using skip_to_overflows [OF fresh n(2,1), of "map (entry P c) S" 0] Cons.prems(3) n(1) by simp
  then have d: "fst (dr_decrypt P J (fst ch) (snd ch) r) = Inl (RatchetError ''Too many skipped messages'')"
      "tracks P c (j, S @ [j]) (snd (dr_decrypt P J (fst ch) (snd ch) r))"
    using decrypt_overflow [OF Cons.prems(1,2) fresh n(2-4)] by blast+
  have "fst (dr_decrypt_all P J chs (snd (dr_decrypt P J (fst ch) (snd ch) r))) =
        replicate (length chs) (Inl (RatchetError ''Too many skipped messages'')) \<and>
      tracks P c (j, (S @ [j]) @ replicate (length chs) j)
        (snd (dr_decrypt_all P J chs (snd (dr_decrypt P J (fst ch) (snd ch) r))))"
    using Cons.prems by (intro Cons.IH [OF d(2)]) (auto simp: window_small_def)
  with d show ?case by (simp add: split_beta)
qed

theorem ratchet_jams_witness:
  "fst (dr_decrypt_all sample_prims sample_json [([1], sample_header 2000), ([2], sample_header 1001)]
     (sample_receiver (1000, [0..<1000]))) =
   [Inl (RatchetError ''Too many skipped messages''), Inl (RatchetError ''Too many skipped messages'')]"
proof -
  have w: "window_small (1000, [0..<1000])" "MAX_SKIP_MESSAGES \<le> length [0..<1000]"
    by (simp_all add: window_small_def MAX_SKIP_MESSAGES_def)
  have "\<forall>ch\<in>set [([1 :: byte], sample_header 2000), ([2], sample_header 1001)].
      \<exists>n>1000. n < 2 ^ 64 \<and> n \<notin> set [0..<1000] \<and> rh_message_number (snd ch) = word_of_nat n"
    by (auto intro: exI [of _ 2000] exI [of _ 1001])
  from ratchet_jams [OF sample_receiver_tracks(2) sample_receiver_tracks(1) w this, of sample_json]
  have "fst (dr_decrypt_all sample_prims sample_json [([1], sample_header 2000), ([2], sample_header 1001)]
      (sample_receiver (1000, [0..<1000]))) =
      replicate (length [([1 :: byte], sample_header 2000), ([2], sample_header 1001)])
        (Inl (RatchetError ''Too many skipped messages''))"
    by (rule conjunct1)
  also have "\<dots> = [Inl (RatchetError ''Too many skipped messages''), Inl (RatchetError ''Too many skipped messages'')]"
    by simp
  finally show ?thesis .
qed

text \<open>
  C36. The ratchet key pair of a session never changes: after any sequence of operations
  from either initialisation, every message carries the public key the session was
  created with, and a previous-chain counter of zero.
\<close>

theorem ratchet_key_fixed:
  assumes "session_start P k r" "dr_encrypt P J m (fold (ratchet_exec P J) ops r) = (Inr (ct, h), r')"
  shows "rh_dh_public_key h = x25519_base P k \<and> rh_previous_message_number h = 0"
  using dr_encrypt_header [OF assms(2)] dr_machine.run_inv [OF session_start_inv [OF assms(1)], of P J ops]
  by (simp add: ratchet_inv_def)

theorem ratchet_key_fixed_witness:
  "\<exists>alice ct h r'. session_start sample_prims (replicate 32 1) alice \<and>
    dr_encrypt sample_prims sample_json [5]
      (fold (ratchet_exec sample_prims sample_json) [OpDhRatchet (replicate 32 3)] alice) = (Inr (ct, h), r') \<and>
    rh_dh_public_key h = replicate 32 1"
proof -
  obtain alice bob where ab:
    "dr_init sample_prims ''s'' \<lparr>rk_key = replicate 32 9\<rparr> (replicate 32 1) (x25519_base sample_prims (replicate 32 2)) [] = Inr alice"
    by (rule sample_sessions)
  then have start: "session_start sample_prims (replicate 32 1) alice"
    unfolding session_start_def by blast
  obtain rk c where step: "ratchet_step sample_prims \<lparr>rk_key = replicate 32 9\<rparr>
      (x25519 sample_prims (replicate 32 1) (x25519_base sample_prims (replicate 32 2))) = Inr (rk, c)" "ck_index c = 0"
    using ratchet_step_ok [OF sample_hkdf] by blast
  then have fresh: "fresh_chain sample_prims c" by (simp add: fresh_chain_def sample_hmac)
  have "rc_chain_key (dr_sending_chain (snd (dr_dh_ratchet sample_prims (replicate 32 3) alice))) = Some (link sample_prims c 0)"
    using ab step(1) by (auto simp: dr_init_def dr_dh_ratchet_def Let_def split: st_splits)
  from dr_encrypt_link [OF fresh sample_aead(2) sample_json_law this, of "[5]"]
  obtain ct h r' where enc: "dr_encrypt sample_prims sample_json [5]
      (fold (ratchet_exec sample_prims sample_json) [OpDhRatchet (replicate 32 3)] alice) = (Inr (ct, h), r')"
    by auto
  have "rh_dh_public_key h = x25519_base sample_prims (replicate 32 1)"
    using ratchet_key_fixed [OF start enc] by blast
  then have "rh_dh_public_key h = replicate 32 1" by (simp add: sample_prims_def)
  with start enc show ?thesis by blast
qed

end
