(* ===== verification/Keys.thy ===== *)
theory Keys
  imports Identity Ratchet
begin

text \<open>
  The key containers of \<open>presidium-crypto/src/keys.rs\<close>: session keys derived from the
  PQXDH secret, sender keys of groups, and media keys, with the sealed boxes of
  \<open>presidium-crypto/src/crypto_box.rs\<close>. Keys drawn at random are arguments.
\<close>

section \<open>Session keys\<close>

record session_keys =
  sk_is_initiator :: bool
  sk_root_key :: bytes
  sk_sending_chain :: bytes
  sk_receiving_chain :: bytes
  sk_peer_identity :: identity_public_key
  sk_message_count :: u64

definition session_keys_new ::
    "prims \<Rightarrow> bool \<Rightarrow> bytes \<Rightarrow> identity_public_key \<Rightarrow> session_keys crypto_result"
where
  "session_keys_new P is_initiator shared_secret peer_identity =
     and_then (expand P None shared_secret ''ROOT_KEY'' ROOT_KEY_SIZE ''Root key derivation failed'')
       (\<lambda>root_key.
     and_then (expand P None shared_secret ''SENDING_CHAIN'' CHAIN_KEY_SIZE
         ''Sending chain derivation failed'') (\<lambda>sending_chain.
     and_then (expand P None shared_secret ''RECEIVING_CHAIN'' CHAIN_KEY_SIZE
         ''Receiving chain derivation failed'') (\<lambda>receiving_chain.
     Inr \<lparr>sk_is_initiator = is_initiator, sk_root_key = root_key,
          sk_sending_chain = sending_chain, sk_receiving_chain = receiving_chain,
          sk_peer_identity = peer_identity, sk_message_count = 0\<rparr>)))"

definition increment_count :: "session_keys \<Rightarrow> session_keys" where
  "increment_count k = k\<lparr>sk_message_count := saturating_add1 (sk_message_count k)\<rparr>"

definition needs_rotation :: "session_keys \<Rightarrow> bool" where
  "needs_rotation k \<longleftrightarrow> sk_message_count k \<ge> KEY_ROTATION_MESSAGE_COUNT"

definition session_to_ratchet ::
    "prims \<Rightarrow> session_keys \<Rightarrow> bytes \<Rightarrow> bytes option \<Rightarrow> double_ratchet crypto_result"
where
  "session_to_ratchet P k our_dh_key peer_dh_public =
    (let root_key = \<lparr>rk_key = sk_root_key k\<rparr> in
     if sk_is_initiator k then
       and_then (ok_or (InvalidParameter ''Peer ratchet public key required'') peer_dh_public) (\<lambda>peer.
       dr_init P ''presidium-session'' root_key our_dh_key peer [])
     else dr_init_as_responder ''presidium-session'' root_key our_dh_key [])"

definition session_keys_to_json :: "session_keys \<Rightarrow> json" where
  "session_keys_to_json k =
     JObj [(''is_initiator'', JBool (sk_is_initiator k)),
           (''root_key'', json_bytes (sk_root_key k)),
           (''sending_chain'', json_bytes (sk_sending_chain k)),
           (''receiving_chain'', json_bytes (sk_receiving_chain k)),
           (''peer_identity'', identity_public_key_to_json (sk_peer_identity k)),
           (''message_count'', json_uint (sk_message_count k))]"

definition session_keys_of_json :: "json \<Rightarrow> session_keys option" where
  "session_keys_of_json j =
    (case struct_fields [''is_initiator'', ''root_key'', ''sending_chain'', ''receiving_chain'',
       ''peer_identity'', ''message_count''] j of
     Some [i, r, s, c, p, n] \<Rightarrow>
       Option.bind (required bool_of_json i) (\<lambda>is_initiator.
       Option.bind (required (array_of_json ROOT_KEY_SIZE) r) (\<lambda>root_key.
       Option.bind (required (array_of_json CHAIN_KEY_SIZE) s) (\<lambda>sending_chain.
       Option.bind (required (array_of_json CHAIN_KEY_SIZE) c) (\<lambda>receiving_chain.
       Option.bind (required identity_public_key_of_json p) (\<lambda>peer_identity.
       Option.bind (required uint_of_json n) (\<lambda>message_count.
       Some \<lparr>sk_is_initiator = is_initiator, sk_root_key = root_key,
             sk_sending_chain = sending_chain, sk_receiving_chain = receiving_chain,
             sk_peer_identity = peer_identity, sk_message_count = message_count\<rparr>))))))
   | _ \<Rightarrow> None)"

definition sk_wf :: "session_keys \<Rightarrow> bool" where
  "sk_wf k \<longleftrightarrow> length (sk_root_key k) = ROOT_KEY_SIZE \<and> length (sk_sending_chain k) = CHAIN_KEY_SIZE \<and>
     length (sk_receiving_chain k) = CHAIN_KEY_SIZE \<and> ipk_wf (sk_peer_identity k)"

interpretation sk_json: json_type session_keys_to_json session_keys_of_json sk_wf
  by unfold_locales (simp_all add: session_keys_to_json_def session_keys_of_json_def sk_wf_def
      ipk_json.of_to_json ipk_json.to_json_wf)

interpretation sk_strict: strict_json session_keys_to_json session_keys_of_json sk_wf
  by unfold_locales
    (auto simp: session_keys_of_json_def sk_wf_def bind_eq_Some_conv split: option.split_asm list.split_asm
      dest!: required_array_length ipk_strict.required_valid)

section \<open>Sender keys\<close>

record identity_key =
  idk_public :: bytes

record sender_keys =
  snd_chain_key :: bytes
  snd_group_id :: bytes
  snd_sender_identity :: identity_key
  snd_message_index :: u64
  snd_key_id :: u64

record sender_key_message =
  skm_group_id :: bytes
  skm_sender_identity :: identity_key
  skm_message_index :: u64
  skm_ciphertext :: bytes

definition SENDER_ADVANCE_INFO :: bytes where
  "SENDER_ADVANCE_INFO = bstr ''presidium-sender-advance''"

definition sender_keys_new :: "bytes \<Rightarrow> bytes \<Rightarrow> identity_key \<Rightarrow> sender_keys crypto_result" where
  "sender_keys_new drawn group_id sender =
     Inr \<lparr>snd_chain_key = drawn, snd_group_id = group_id, snd_sender_identity = sender,
          snd_message_index = 0, snd_key_id = 1\<rparr>"

definition sender_message_key :: "prims \<Rightarrow> sender_keys \<Rightarrow> bytes crypto_result" where
  "sender_message_key P s =
     and_then (hmac_sha256 P (snd_chain_key s) MESSAGE_KEY_INFO) (\<lambda>digest.
     Inr (take MESSAGE_KEY_SIZE digest))"

definition sender_encrypt ::
    "prims \<Rightarrow> bytes \<Rightarrow> bytes \<Rightarrow> sender_keys \<Rightarrow> bytes crypto_result \<times> sender_keys"
where
  "sender_encrypt P plaintext associated_data s =
     try_st (sender_message_key P s) s (\<lambda>msg_key.
     try_st (hmac_sha256 P (snd_chain_key s) SENDER_ADVANCE_INFO) s (\<lambda>nxt.
     let nonce_index = snd_message_index s;
         s' = s\<lparr>snd_chain_key := take CHAIN_KEY_SIZE nxt, snd_message_index := snd_message_index s + 1\<rparr> in
     try_st (ok_or (EncryptionFailed ''Sender key encryption failed'')
       (chacha_seal P msg_key (counter_nonce_le nonce_index) associated_data plaintext)) s' (\<lambda>ciphertext.
     (Inr ciphertext, s'))))"

definition sender_decrypt ::
    "prims \<Rightarrow> bytes \<Rightarrow> u64 \<Rightarrow> bytes \<Rightarrow> sender_keys \<Rightarrow> bytes crypto_result \<times> sender_keys"
where
  "sender_decrypt P ciphertext index associated_data s =
     try_st (sender_message_key P s) s (\<lambda>msg_key.
     (ok_or DecryptionFailed (chacha_open P msg_key (counter_nonce_le index) associated_data ciphertext), s))"

definition sender_next :: "prims \<Rightarrow> sender_keys \<Rightarrow> sender_keys crypto_result" where
  "sender_next P s =
     and_then (hmac_sha256 P (snd_chain_key s) SENDER_ADVANCE_INFO) (\<lambda>nxt.
     Inr (s\<lparr>snd_chain_key := take CHAIN_KEY_SIZE nxt,
            snd_message_index := saturating_add1 (snd_message_index s)\<rparr>))"

definition sender_advance :: "prims \<Rightarrow> sender_keys \<Rightarrow> unit crypto_result \<times> sender_keys" where
  "sender_advance P s = try_st (sender_next P s) s (\<lambda>s'. (Inr (), s'))"

definition identity_key_to_json :: "identity_key \<Rightarrow> json" where
  "identity_key_to_json i = JObj [(''public'', json_bytes (idk_public i))]"

definition identity_key_of_json :: "json \<Rightarrow> identity_key option" where
  "identity_key_of_json j = (case struct_fields [''public''] j of
     Some [p] \<Rightarrow> Option.bind (required bytes_of_json p) (\<lambda>public. Some \<lparr>idk_public = public\<rparr>)
   | _ \<Rightarrow> None)"

interpretation idk_json: json_type identity_key_to_json identity_key_of_json "\<lambda>_. True"
  by unfold_locales (simp_all add: identity_key_to_json_def identity_key_of_json_def)

definition sender_key_message_to_json :: "sender_key_message \<Rightarrow> json" where
  "sender_key_message_to_json m =
     JObj [(''group_id'', json_bytes (skm_group_id m)),
           (''sender_identity'', identity_key_to_json (skm_sender_identity m)),
           (''message_index'', json_uint (skm_message_index m)),
           (''ciphertext'', json_bytes (skm_ciphertext m))]"

definition sender_key_message_of_json :: "json \<Rightarrow> sender_key_message option" where
  "sender_key_message_of_json j =
    (case struct_fields [''group_id'', ''sender_identity'', ''message_index'', ''ciphertext''] j of
     Some [g, s, i, c] \<Rightarrow>
       Option.bind (required bytes_of_json g) (\<lambda>group_id.
       Option.bind (required identity_key_of_json s) (\<lambda>sender_identity.
       Option.bind (required uint_of_json i) (\<lambda>message_index.
       Option.bind (required bytes_of_json c) (\<lambda>ciphertext.
       Some \<lparr>skm_group_id = group_id, skm_sender_identity = sender_identity,
             skm_message_index = message_index, skm_ciphertext = ciphertext\<rparr>))))
   | _ \<Rightarrow> None)"

interpretation skm_json: json_type sender_key_message_to_json sender_key_message_of_json "\<lambda>_. True"
  by unfold_locales (simp_all add: sender_key_message_to_json_def sender_key_message_of_json_def
      idk_json.of_to_json idk_json.to_json_wf)

section \<open>Media keys\<close>

record media_key =
  mdk_key :: bytes
  mdk_kind :: byte

definition media_key_generate :: "bytes \<Rightarrow> byte \<Rightarrow> media_key crypto_result" where
  "media_key_generate drawn kind = Inr \<lparr>mdk_key = drawn, mdk_kind = kind\<rparr>"

definition encrypt_chunk :: "prims \<Rightarrow> media_key \<Rightarrow> bytes \<Rightarrow> u64 \<Rightarrow> bytes crypto_result" where
  "encrypt_chunk P k chunk chunk_index =
     ok_or (EncryptionFailed ''Media encryption failed'')
       (chacha_seal P (mdk_key k) (counter_nonce_be chunk_index) (bstr ''presidium-media'') chunk)"

definition decrypt_chunk :: "prims \<Rightarrow> media_key \<Rightarrow> bytes \<Rightarrow> u64 \<Rightarrow> bytes crypto_result" where
  "decrypt_chunk P k chunk chunk_index =
     ok_or DecryptionFailed
       (chacha_open P (mdk_key k) (counter_nonce_be chunk_index) (bstr ''presidium-media'') chunk)"

section \<open>Sealed boxes\<close>

record crypto_box =
  cb_ephemeral_public :: bytes
  cb_nonce :: bytes
  cb_ciphertext :: bytes

definition box_seal ::
    "prims \<Rightarrow> bytes \<Rightarrow> bytes \<Rightarrow> bytes \<Rightarrow> bytes \<Rightarrow> crypto_box crypto_result"
where
  "box_seal P ephemeral_secret nonce recipient_public plaintext =
    (let ephemeral_public = x25519_base P ephemeral_secret;
         shared = x25519 P ephemeral_secret recipient_public in
     and_then (expand P (Some (bstr ''presidium-cryptobox'')) shared ''sealed-key''
         CHACHA20_POLY1305_KEY_SIZE ''CryptoBox key derivation failed'') (\<lambda>key.
     and_then (ok_or (EncryptionFailed ''CryptoBox seal failed'')
         (chacha_seal P key nonce ephemeral_public plaintext)) (\<lambda>ciphertext.
     Inr \<lparr>cb_ephemeral_public = ephemeral_public, cb_nonce = nonce, cb_ciphertext = ciphertext\<rparr>)))"

definition box_open :: "prims \<Rightarrow> crypto_box \<Rightarrow> bytes \<Rightarrow> bytes crypto_result" where
  "box_open P b recipient_secret =
    (let shared = x25519 P recipient_secret (cb_ephemeral_public b) in
     and_then (expand P (Some (bstr ''presidium-cryptobox'')) shared ''sealed-key''
         CHACHA20_POLY1305_KEY_SIZE ''CryptoBox key derivation failed'') (\<lambda>key.
     ok_or DecryptionFailed (chacha_open P key (cb_nonce b) (cb_ephemeral_public b) (cb_ciphertext b))))"

definition crypto_box_to_json :: "crypto_box \<Rightarrow> json" where
  "crypto_box_to_json b =
     JObj [(''ephemeral_public'', json_bytes (cb_ephemeral_public b)),
           (''nonce'', json_bytes (cb_nonce b)),
           (''ciphertext'', json_bytes (cb_ciphertext b))]"

definition crypto_box_of_json :: "json \<Rightarrow> crypto_box option" where
  "crypto_box_of_json j =
    (case struct_fields [''ephemeral_public'', ''nonce'', ''ciphertext''] j of
     Some [e, n, c] \<Rightarrow>
       Option.bind (required (array_of_json X25519_PUBLIC_KEY_SIZE) e) (\<lambda>ephemeral_public.
       Option.bind (required (array_of_json CHACHA20_POLY1305_NONCE_SIZE) n) (\<lambda>nonce.
       Option.bind (required bytes_of_json c) (\<lambda>ciphertext.
       Some \<lparr>cb_ephemeral_public = ephemeral_public, cb_nonce = nonce, cb_ciphertext = ciphertext\<rparr>)))
   | _ \<Rightarrow> None)"

definition cb_wf :: "crypto_box \<Rightarrow> bool" where
  "cb_wf b \<longleftrightarrow> length (cb_ephemeral_public b) = X25519_PUBLIC_KEY_SIZE \<and>
     length (cb_nonce b) = CHACHA20_POLY1305_NONCE_SIZE"

interpretation cb_json: json_type crypto_box_to_json crypto_box_of_json cb_wf
  by unfold_locales (simp_all add: crypto_box_to_json_def crypto_box_of_json_def cb_wf_def)

interpretation cb_strict: strict_json crypto_box_to_json crypto_box_of_json cb_wf
  by unfold_locales
    (auto simp: crypto_box_of_json_def cb_wf_def bind_eq_Some_conv split: option.split_asm list.split_asm
      dest!: required_array_length)

definition crypto_box_seal ::
    "prims \<Rightarrow> json_text \<Rightarrow> bytes \<Rightarrow> bytes \<Rightarrow> bytes \<Rightarrow> bytes \<Rightarrow> bytes crypto_result"
where
  "crypto_box_seal P J ephemeral_secret nonce recipient_public plaintext =
     and_then (box_seal P ephemeral_secret nonce recipient_public plaintext) (\<lambda>boxed.
     map_err SerializationError (to_vec J crypto_box_to_json boxed))"

definition crypto_box_open :: "prims \<Rightarrow> json_text \<Rightarrow> bytes \<Rightarrow> bytes \<Rightarrow> bytes crypto_result" where
  "crypto_box_open P J recipient_secret msg =
     and_then (map_err SerializationError (from_slice J crypto_box_of_json msg)) (\<lambda>boxed.
     box_open P boxed recipient_secret)"

section \<open>Codecs\<close>

interpretation media: total_codec "\<lambda>c. encrypt_chunk P k c i" "\<lambda>c. decrypt_chunk P k c i"
    "\<lambda>c. aead_law P \<and> aead_total P \<and> length (mdk_key k) = MEDIA_KEY_SIZE \<and> length c < 2 ^ 32" for P k i
proof (unfold_locales, goal_cases)
  case (1 x y)
  then show ?case by (auto simp: encrypt_chunk_def decrypt_chunk_def aead_open_seal)
next
  case (2 x)
  then show ?case
    using aead_seal_ok [of P "mdk_key k" "counter_nonce_be i" x "bstr ''presidium-media''"]
    by (simp add: encrypt_chunk_def)
qed

definition box_laws :: "prims \<Rightarrow> json_text \<Rightarrow> bool" where
  "box_laws P J \<longleftrightarrow> dh_law P \<and> hkdf_law P \<and> aead_law P \<and> aead_total P \<and> json_law J"

lemma box_seal_ok:
  assumes "box_laws P J" "length eph = 32" "length nonce = 12" "length m < 2 ^ 32"
  shows "\<exists>b. box_seal P eph nonce pk m = Inr b \<and> cb_wf b"
proof -
  obtain key where key: "expand P (Some (bstr ''presidium-cryptobox'')) (x25519 P eph pk) ''sealed-key'' 32
      ''CryptoBox key derivation failed'' = Inr key" "length key = 32"
    using expand_ok [of P 32] assms(1) by (fastforce simp: box_laws_def)
  moreover obtain c where "chacha_seal P key nonce (x25519_base P eph) m = Some c"
    using aead_seal_ok [of P key nonce m] assms key by (auto simp: box_laws_def)
  ultimately show ?thesis
    using assms by (simp add: box_seal_def cb_wf_def box_laws_def length_x25519_base)
qed

lemma box_open_seal:
  assumes "dh_law P" "aead_law P" "box_seal P eph nonce (x25519_base P sk) m = Inr b"
  shows "box_open P b sk = Inr m"
  using assms dh_commutes [OF assms(1), of eph sk]
  by (auto simp: box_seal_def box_open_def result_simps Let_def aead_open_seal)

interpretation sealed_box: total_codec "crypto_box_seal P J eph nonce (x25519_base P sk)" "crypto_box_open P J sk"
    "\<lambda>m. box_laws P J \<and> length eph = 32 \<and> length nonce = 12 \<and> length m < 2 ^ 32" for P J eph nonce sk
proof (unfold_locales, goal_cases)
  case (1 m y)
  then obtain b where b: "box_seal P eph nonce (x25519_base P sk) m = Inr b" "cb_wf b"
    using box_seal_ok by blast
  moreover obtain bs where "to_vec J crypto_box_to_json b = Inr bs" "from_slice J crypto_box_of_json bs = Inr b"
    using cb_json.wire_roundtrip [OF _ b(2), of J] 1 by (auto simp: box_laws_def)
  ultimately show ?case
    using 1 box_open_seal [of P eph nonce sk m b] by (simp add: crypto_box_seal_def crypto_box_open_def box_laws_def)
next
  case (2 m)
  then obtain b where b: "box_seal P eph nonce (x25519_base P sk) m = Inr b" "cb_wf b"
    using box_seal_ok by blast
  then show ?case
    using cb_json.wire_roundtrip [OF _ b(2), of J] 2 by (auto simp: crypto_box_seal_def box_laws_def)
qed

section \<open>The chain of a sender\<close>

interpretation sender_chain: kdf_chain "sender_next P" "sender_message_key P" snd_message_index "\<lambda>_. hmac_law P" for P
proof (unfold_locales, goal_cases)
  case (1 c)
  then show ?case
    using hmac_sha256_ok [of P "snd_chain_key c" SENDER_ADVANCE_INFO] by (auto simp: sender_next_def)
next
  case (2 c)
  then show ?case
    using hmac_sha256_ok [of P "snd_chain_key c" MESSAGE_KEY_INFO] by (auto simp: sender_message_key_def)
next
  case (3 c c')
  then show ?case by (auto simp: sender_next_def result_simps unat_saturating_add1)
qed

lemma sender_message_key_length:
  assumes "hmac_law P" "sender_message_key P s = Inr k"
  shows "length k = 32"
proof -
  obtain d where "hmac_sha256 P (snd_chain_key s) MESSAGE_KEY_INFO = Inr d" "length d = 32"
    using hmac_sha256_ok [OF assms(1)] by blast
  with assms(2) show ?thesis by (auto simp: sender_message_key_def)
qed

text \<open>Below the last index, \<open>encrypt\<close> moves the sender exactly as \<open>advance\<close> moves the receiver.\<close>

lemma sender_encrypt_ok:
  assumes laws: "hmac_law P" "aead_total P" and "unat (snd_message_index s) + 1 < 2 ^ 64" "length m < 2 ^ 32"
  shows "\<exists>k ct s'. sender_message_key P s = Inr k \<and> sender_next P s = Inr s' \<and>
    sender_encrypt P m aad s = (Inr ct, s') \<and>
    chacha_seal P k (counter_nonce_le (snd_message_index s)) aad m = Some ct"
proof -
  obtain k where k: "sender_message_key P s = Inr k" using sender_chain.key_ok [OF laws(1)] by blast
  obtain nx where nx: "hmac_sha256 P (snd_chain_key s) SENDER_ADVANCE_INFO = Inr nx"
    using hmac_sha256_ok [OF laws(1)] by blast
  obtain ct where "chacha_seal P k (counter_nonce_le (snd_message_index s)) aad m = Some ct"
    using aead_seal_ok [OF laws(2) sender_message_key_length [OF laws(1) k]] assms(4) by fastforce
  moreover have "snd_message_index s \<noteq> -1"
    using assms(3) by (auto simp: unsigned_minus_1_eq_mask mask_eq_exp_minus_1)
  ultimately show ?thesis
    using k nx by (simp add: sender_encrypt_def sender_next_def saturating_add1_def)
qed

text \<open>How a reader takes a group message: decrypt, then advance.\<close>

definition sender_receive ::
    "prims \<Rightarrow> bytes \<Rightarrow> bytes \<times> u64 \<Rightarrow> sender_keys \<Rightarrow> bytes crypto_result \<times> sender_keys"
where
  "sender_receive P aad message s =
     then_st (sender_decrypt P (fst message) (snd message) aad s) (\<lambda>plaintext s1.
     then_st (sender_advance P s1) (\<lambda>_ s2. (Inr plaintext, s2)))"

text \<open>A reader in step with a sender: the same chain and the same index.\<close>

definition in_step :: "sender_keys \<Rightarrow> sender_keys \<Rightarrow> bool" where
  "in_step s r \<longleftrightarrow> snd_chain_key r = snd_chain_key s \<and> snd_message_index r = snd_message_index s"

lemma in_step_next:
  assumes "in_step s r" "sender_next P s = Inr s'"
  shows "\<exists>r'. sender_next P r = Inr r' \<and> in_step s' r'"
  using assms by (auto simp: in_step_def sender_next_def result_simps)

lemma sender_receive_ok:
  assumes "aead_law P" "in_step s r" "sender_message_key P s = Inr k" "sender_next P s = Inr s'"
    and "chacha_seal P k (counter_nonce_le (snd_message_index s)) aad m = Some ct"
  shows "\<exists>r'. sender_receive P aad (ct, snd_message_index s) r = (Inr m, r') \<and> in_step s' r'"
proof -
  obtain r' where "sender_next P r = Inr r'" "in_step s' r'" using in_step_next [OF assms(2,4)] by blast
  moreover have "sender_message_key P r = Inr k"
    using assms(2,3) by (simp add: in_step_def sender_message_key_def)
  ultimately show ?thesis
    using assms by (simp add: sender_receive_def sender_decrypt_def sender_advance_def aead_open_seal)
qed

lemma sender_stream:
  assumes laws: "hmac_law P" "aead_law P" "aead_total P"
  shows "unat (snd_message_index s) + length ms < 2 ^ 64 \<Longrightarrow> \<forall>m\<in>set ms. length m < 2 ^ 32 \<Longrightarrow> in_step s r \<Longrightarrow>
    \<exists>cts s' r'. run_all (\<lambda>m. sender_encrypt P m aad) ms s = (map Inr cts, s') \<and> length cts = length ms \<and>
      run_all (sender_receive P aad) (zip cts (map (\<lambda>i. snd_message_index s + word_of_nat i) [0..<length ms])) r =
        (map Inr ms, r') \<and> in_step s' r'"
proof (induction ms arbitrary: s r)
  case Nil
  then show ?case by simp
next
  case (Cons m ms)
  obtain k ct s1 where step: "sender_message_key P s = Inr k" "sender_next P s = Inr s1"
      "sender_encrypt P m aad s = (Inr ct, s1)"
      "chacha_seal P k (counter_nonce_le (snd_message_index s)) aad m = Some ct"
    using sender_encrypt_ok [OF laws(1,3), of s m aad] Cons.prems by auto
  obtain r1 where r1: "sender_receive P aad (ct, snd_message_index s) r = (Inr m, r1)" "in_step s1 r1"
    using sender_receive_ok [OF laws(2) Cons.prems(3) step(1,2,4)] by blast
  have idx: "unat (snd_message_index s1) = unat (snd_message_index s) + 1"
    using sender_chain.advance_counter [OF step(2)] Cons.prems(1) by simp
  then have w: "snd_message_index s1 = snd_message_index s + 1"
    using Cons.prems(1) by (simp add: word_unat_eq_iff unat_word_ariths)
  obtain cts s' r' where "run_all (\<lambda>m. sender_encrypt P m aad) ms s1 = (map Inr cts, s')"
      "length cts = length ms" "in_step s' r'"
      "run_all (sender_receive P aad) (zip cts (map (\<lambda>i. snd_message_index s1 + word_of_nat i) [0..<length ms])) r1 =
        (map Inr ms, r')"
    using Cons.IH [of s1 r1] Cons.prems idx r1(2) by auto
  moreover have "map (\<lambda>i. snd_message_index s + word_of_nat i) [0..<length (m # ms)] =
      snd_message_index s # map (\<lambda>i. snd_message_index s1 + word_of_nat i) [0..<length ms]"
    by (simp add: w map_upt_Suc add.assoc del: upt_Suc)
  ultimately show ?case
    using step(3) r1(1) by (intro exI [of _ "ct # cts"] exI [of _ s'] exI [of _ r']) (simp del: upt_Suc)
qed

section \<open>Properties\<close>

text \<open>
  Group messages: a sender encrypts a sequence of messages under its key chain, and
  a reader that starts in step with it decrypts each of them in order under the indices
  the sender used, to the texts that were sent; sender and reader end in step again.
\<close>

theorem sender_keys_in_step:
  assumes "hmac_law P" "aead_law P" "aead_total P" "in_step s r"
    and "unat (snd_message_index s) + length ms < 2 ^ 64" "\<forall>m\<in>set ms. length m < 2 ^ 32"
  shows "\<exists>cts s' r'. run_all (\<lambda>m. sender_encrypt P m aad) ms s = (map Inr cts, s') \<and>
    run_all (sender_receive P aad) (zip cts (map (\<lambda>i. snd_message_index s + word_of_nat i) [0..<length ms])) r =
      (map Inr ms, r') \<and> in_step s' r'"
  using sender_stream [OF assms(1-3,5,6,4), of aad] by blast

theorem sender_keys_in_step_witness:
  "\<exists>s r cts s' r'. sender_keys_new (replicate 32 3) [1] \<lparr>idk_public = [9]\<rparr> = Inr s \<and> in_step s r \<and>
    run_all (\<lambda>m. sender_encrypt sample_prims m [1]) [[10], [11]] s = (map Inr cts, s') \<and>
    run_all (sender_receive sample_prims [1]) (zip cts [0, 1]) r = ([Inr [10], Inr [11]], r') \<and> in_step s' r'"
proof -
  obtain s where s: "sender_keys_new (replicate 32 3) [1] \<lparr>idk_public = [9]\<rparr> = Inr s"
    by (simp add: sender_keys_new_def)
  then have "snd_message_index s = 0" by (auto simp: sender_keys_new_def)
  moreover have "in_step s s" by (simp add: in_step_def)
  moreover have "[0..<length [[10 :: byte], [11]]] = [0, 1]" by (simp add: upt_rec)
  ultimately show ?thesis
    using sender_keys_in_step [OF sample_hmac sample_aead, of s s "[[10], [11]]" "[1]"] s by auto
qed

text \<open>
  Sealed boxes: whatever is sealed to a public key, with whatever ephemeral secret and
  nonce were drawn, is opened by the holder of the secret key, through the JSON encoding.
\<close>

theorem crypto_box_roundtrip:
  assumes "box_laws P J" "length eph = 32" "length nonce = 12" "length m < 2 ^ 32"
  shows "\<exists>sealed. crypto_box_seal P J eph nonce (x25519_base P sk) m = Inr sealed \<and>
    crypto_box_open P J sk sealed = Inr m"
  using sealed_box.roundtrip assms by blast

theorem crypto_box_roundtrip_witness:
  "\<exists>sealed. crypto_box_seal sample_prims sample_json (replicate 32 1) (replicate 12 2)
      (x25519_base sample_prims (replicate 32 3)) [7, 8] = Inr sealed \<and>
    crypto_box_open sample_prims sample_json (replicate 32 3) sealed = Inr [7, 8]"
  by (rule crypto_box_roundtrip) (simp_all add: box_laws_def sample_laws sample_json_law)

text \<open>
  C37. Media: every chunk of a file encrypts at its index and decrypts at that index and at no
  other: a file whose chunks are swapped, repeated or left out in the middle does not decrypt. This rests on
  each index having a nonce of its own, and on the cipher refusing what was sealed under another nonce.
\<close>

theorem media_file_roundtrip:
  assumes "aead_law P" "aead_total P" "aead_nonce_bound P" "length (mdk_key k) = MEDIA_KEY_SIZE" "\<forall>c\<in>set chunks. length c < 2 ^ 32"
    and "length chunks \<le> 2 ^ 64"
  shows "\<exists>cts. length cts = length chunks \<and>
    (\<forall>i<length chunks. encrypt_chunk P k (chunks ! i) (word_of_nat i) = Inr (cts ! i) \<and>
      (\<forall>j<2 ^ 64. decrypt_chunk P k (cts ! i) (word_of_nat j) = (if j = i then Inr (chunks ! i) else Inl DecryptionFailed)))"
proof -
  have "\<exists>ct. encrypt_chunk P k (chunks ! i) (word_of_nat i) = Inr ct \<and>
      decrypt_chunk P k ct (word_of_nat i) = Inr (chunks ! i)" if "i < length chunks" for i
    using assms that by (intro media.roundtrip) simp
  then obtain f where f: "\<And>i. i < length chunks \<Longrightarrow> encrypt_chunk P k (chunks ! i) (word_of_nat i) = Inr (f i) \<and>
      decrypt_chunk P k (f i) (word_of_nat i) = Inr (chunks ! i)" by metis
  have "decrypt_chunk P k (f i) (word_of_nat j) = Inl DecryptionFailed" if i: "i < length chunks" and j: "j < 2 ^ 64" "j \<noteq> i" for i j
  proof -
    have "counter_nonce_be (word_of_nat j) \<noteq> counter_nonce_be (word_of_nat i)"
      using assms(6) i j by (simp add: word_of_nat_eq_u64)
    moreover have "chacha_seal P (mdk_key k) (counter_nonce_be (word_of_nat i)) (bstr ''presidium-media'') (chunks ! i) = Some (f i)"
      using f [OF i] by (auto simp: encrypt_chunk_def result_simps)
    ultimately have "chacha_open P (mdk_key k) (counter_nonce_be (word_of_nat j)) (bstr ''presidium-media'') (f i) = None"
      by (intro aead_nonce_boundD [OF assms(3)]) simp_all
    then show ?thesis by (simp add: decrypt_chunk_def)
  qed
  with f show ?thesis by (intro exI [of _ "map f [0..<length chunks]"]) auto
qed

theorem media_file_roundtrip_witness:
  "\<exists>cts. encrypt_chunk sample_prims \<lparr>mdk_key = replicate 32 4, mdk_kind = 1\<rparr> [5, 6] 1 = Inr (cts ! 1) \<and>
    decrypt_chunk sample_prims \<lparr>mdk_key = replicate 32 4, mdk_kind = 1\<rparr> (cts ! 1) 1 = Inr [5, 6] \<and>
    decrypt_chunk sample_prims \<lparr>mdk_key = replicate 32 4, mdk_kind = 1\<rparr> (cts ! 1) 0 = Inl DecryptionFailed"
proof -
  have c: "\<forall>c\<in>set [[1], [5, 6 :: byte]]. length c < 2 ^ 32" "length [[1], [5, 6 :: byte]] \<le> 2 ^ 64"
    "length (mdk_key \<lparr>mdk_key = replicate 32 4, mdk_kind = 1\<rparr>) = MEDIA_KEY_SIZE" by simp_all
  obtain cts where "\<forall>i<length [[1], [5, 6 :: byte]].
      encrypt_chunk sample_prims \<lparr>mdk_key = replicate 32 4, mdk_kind = 1\<rparr> ([[1], [5, 6]] ! i) (word_of_nat i) = Inr (cts ! i) \<and>
      (\<forall>j<2 ^ 64. decrypt_chunk sample_prims \<lparr>mdk_key = replicate 32 4, mdk_kind = 1\<rparr> (cts ! i) (word_of_nat j) =
        (if j = i then Inr ([[1], [5, 6]] ! i) else Inl DecryptionFailed))"
    using media_file_roundtrip [OF sample_aead sample_nonce_bound c(3,1,2)] by blast
  from this [THEN spec, of 1] have
    "encrypt_chunk sample_prims \<lparr>mdk_key = replicate 32 4, mdk_kind = 1\<rparr> [5, 6] 1 = Inr (cts ! 1)"
    "\<forall>j<2 ^ 64. decrypt_chunk sample_prims \<lparr>mdk_key = replicate 32 4, mdk_kind = 1\<rparr> (cts ! 1) (word_of_nat j) =
        (if j = 1 then Inr [5, 6] else Inl DecryptionFailed)"
    by simp_all
  from this(1) this(2) [THEN spec, of 0] this(2) [THEN spec, of 1] show ?thesis by (intro exI [of _ cts]) simp
qed

lemma increment_count_unat:
  "sk_message_count k = 0 \<Longrightarrow> unat (sk_message_count ((increment_count ^^ n) k)) = min n (2 ^ 64 - 1)"
  by (induction n) (auto simp: increment_count_def unat_saturating_add1)

text \<open>
  Rotation: a session's counter saturates, and after any number of increments from a
  new session rotation is due exactly from \<open>KEY_ROTATION_MESSAGE_COUNT\<close> messages on.
\<close>

theorem session_rotation:
  assumes "session_keys_new P is_initiator secret peer = Inr k"
  shows "needs_rotation ((increment_count ^^ n) k) \<longleftrightarrow> 1000 \<le> n"
proof -
  have "sk_message_count k = 0" using assms by (auto simp: session_keys_new_def result_simps)
  then have "unat (sk_message_count ((increment_count ^^ n) k)) = min n (2 ^ 64 - 1)"
    by (rule increment_count_unat)
  moreover have "unat KEY_ROTATION_MESSAGE_COUNT = 1000" by (simp add: KEY_ROTATION_MESSAGE_COUNT_def)
  ultimately show ?thesis by (simp add: needs_rotation_def word_le_nat_alt)
qed

lemma session_keys_new_ok:
  assumes "hkdf_law P"
  shows "\<exists>k. session_keys_new P is_initiator secret peer = Inr k \<and> length (sk_root_key k) = 32 \<and>
    length (sk_sending_chain k) = 32 \<and> length (sk_receiving_chain k) = 32"
proof -
  obtain a where "expand P None secret ''ROOT_KEY'' 32 ''Root key derivation failed'' = Inr a" "length a = 32"
    using expand_ok [OF assms, of 32] by fastforce
  moreover obtain b where "expand P None secret ''SENDING_CHAIN'' 32 ''Sending chain derivation failed'' = Inr b"
      "length b = 32"
    using expand_ok [OF assms, of 32] by fastforce
  moreover obtain c where "expand P None secret ''RECEIVING_CHAIN'' 32 ''Receiving chain derivation failed'' = Inr c"
      "length c = 32"
    using expand_ok [OF assms, of 32] by fastforce
  ultimately show ?thesis by (simp add: session_keys_new_def)
qed

theorem session_rotation_witness:
  "\<exists>k. session_keys_new sample_prims True (replicate 32 5) (identity_public sample_prims (sample_identity 2)) = Inr k \<and>
    \<not> needs_rotation ((increment_count ^^ 999) k) \<and> needs_rotation ((increment_count ^^ 1000) k)"
proof -
  obtain k where k: "session_keys_new sample_prims True (replicate 32 5)
      (identity_public sample_prims (sample_identity 2)) = Inr k"
    using session_keys_new_ok [OF sample_hkdf] by blast
  have "\<not> needs_rotation ((increment_count ^^ 999) k)" "needs_rotation ((increment_count ^^ 1000) k)"
    unfolding session_rotation [OF k] by simp_all
  with k show ?thesis by blast
qed

text \<open>Both roles derive the same key material, and so a ratchet over the same root key.\<close>

lemma session_keys_same_secret:
  assumes "session_keys_new P i secret p = Inr k" "session_keys_new P i' secret p' = Inr k'"
  shows "sk_root_key k = sk_root_key k'" "sk_is_initiator k = i" "sk_peer_identity k = p"
  using assms by (auto simp: session_keys_new_def result_simps)

end
