(* ===== verification/Sqleet.thy ===== *)
theory Sqleet
  imports Prelude
begin

text \<open>
  The wrapper over the SQLite C interface, \<open>presidium-sqleet/src/lib.rs\<close>: result codes,
  bound parameters and column readers, statements, connections and transactions.

  The engine behind the C interface is not part of the repository (only its header is).
  What it answers is an argument: the result of a call is a code with the engine's
  message, the rows of a statement are the outcomes of its steps, and the readings of a
  column as a type it was not stored with are the fields of \<open>column_engine\<close>. A
  connection carries the tables it sees, the tables to return to if a transaction is
  open, and the failures that the engine's next calls will report. A failure either leaves an open
  transaction open, as a refused lock does, or makes the engine roll it back on its own, as a full disk may.

  Lengths of bound values are passed to the engine as C ints. Values are taken to be shorter than
  \<open>2^31\<close> bytes, the engine's own limit, so that this cast keeps them.
\<close>

section \<open>Result codes\<close>

definition SQLITE_OK :: int where [simp]: "SQLITE_OK = 0"
definition SQLITE_CONSTRAINT :: int where [simp]: "SQLITE_CONSTRAINT = 19"

record sql_error =
  se_code :: int
  se_message :: string

type_synonym 'a sql_result = "sql_error + 'a"

definition sql_error_display :: "sql_error \<Rightarrow> string" where
  "sql_error_display e = ''sqleet error '' @ decimal (se_code e) @ '': '' @ se_message e"

text \<open>\<open>check\<close>: a code and the engine's message, \<^term>\<open>None\<close> for a null pointer.\<close>

definition check :: "int \<Rightarrow> string option \<Rightarrow> unit sql_result" where
  "check code msg =
     (if code = SQLITE_OK then Inr ()
      else Inl \<lparr>se_code = code, se_message = (case msg of None \<Rightarrow> ''unknown error'' | Some m \<Rightarrow> m)\<rparr>)"

section \<open>Parameters\<close>

datatype param = PNull | PI64 int | PText string | PBlob bytes

type_synonym row = "param list"

definition param_bool :: "bool \<Rightarrow> param" where
  "param_bool v = PI64 (if v then 1 else 0)"

definition param_opt_i64 :: "int option \<Rightarrow> param" where
  "param_opt_i64 v = (case v of None \<Rightarrow> PNull | Some i \<Rightarrow> PI64 i)"

definition param_opt_text :: "string option \<Rightarrow> param" where
  "param_opt_text v = (case v of None \<Rightarrow> PNull | Some s \<Rightarrow> PText s)"

definition NUL :: char where
  "NUL = CHR 0x00"

text \<open>\<open>bind_all\<close>: a text with a NUL byte cannot become a C string.\<close>

fun bind_all :: "param list \<Rightarrow> unit sql_result" where
  "bind_all [] = Inr ()"
| "bind_all (PText s # ps) =
     (if NUL \<in> set s then Inl \<lparr>se_code = SQLITE_OK, se_message = ''text param contains a NUL byte''\<rparr>
      else bind_all ps)"
| "bind_all (_ # ps) = bind_all ps"

section \<open>Reading columns\<close>

text \<open>How the engine reads a value as an integer or as bytes, and how bytes that are not
  UTF-8 become a string.\<close>

record column_engine =
  ce_int64 :: "param \<Rightarrow> int"
  ce_bytes :: "param \<Rightarrow> bytes"
  ce_lossy :: "bytes \<Rightarrow> string"

definition column :: "row \<Rightarrow> nat \<Rightarrow> param" where
  "column row idx = (if idx < length row then row ! idx else PNull)"

definition column_i64 :: "column_engine \<Rightarrow> row \<Rightarrow> nat \<Rightarrow> int" where
  "column_i64 E row idx = (case column row idx of PI64 i \<Rightarrow> i | v \<Rightarrow> ce_int64 E v)"

definition column_bytes_owned :: "column_engine \<Rightarrow> row \<Rightarrow> nat \<Rightarrow> bytes sql_result" where
  "column_bytes_owned E row idx =
    (case column row idx of
       PNull \<Rightarrow> Inl \<lparr>se_code = SQLITE_OK, se_message = ''attempted to read a NULL column as a value''\<rparr>
     | PBlob b \<Rightarrow> Inr b
     | v \<Rightarrow> Inr (ce_bytes E v))"

definition get_i64 :: "column_engine \<Rightarrow> row \<Rightarrow> nat \<Rightarrow> int sql_result" where
  "get_i64 E row idx = Inr (column_i64 E row idx)"

definition get_bool :: "column_engine \<Rightarrow> row \<Rightarrow> nat \<Rightarrow> bool sql_result" where
  "get_bool E row idx = Inr (column_i64 E row idx \<noteq> 0)"

definition get_bytes :: "column_engine \<Rightarrow> row \<Rightarrow> nat \<Rightarrow> bytes sql_result" where
  "get_bytes E row idx = column_bytes_owned E row idx"

text \<open>A text column is UTF-8, so reading it back as a string is lossless.\<close>

definition get_string :: "column_engine \<Rightarrow> row \<Rightarrow> nat \<Rightarrow> string sql_result" where
  "get_string E row idx =
    (case column row idx of
       PText s \<Rightarrow> Inr s
     | _ \<Rightarrow> and_then (column_bytes_owned E row idx) (\<lambda>b. Inr (ce_lossy E b)))"

definition get_opt_i64 :: "column_engine \<Rightarrow> row \<Rightarrow> nat \<Rightarrow> int option sql_result" where
  "get_opt_i64 E row idx =
     (if column row idx = PNull then Inr None else Inr (Some (column_i64 E row idx)))"

definition get_opt_string :: "column_engine \<Rightarrow> row \<Rightarrow> nat \<Rightarrow> string option sql_result" where
  "get_opt_string E row idx =
     (if column row idx = PNull then Inr None
      else and_then (get_string E row idx) (\<lambda>s. Inr (Some s)))"

definition get_opt_bytes :: "column_engine \<Rightarrow> row \<Rightarrow> nat \<Rightarrow> bytes option sql_result" where
  "get_opt_bytes E row idx =
     (if column row idx = PNull then Inr None
      else and_then (get_bytes E row idx) (\<lambda>b. Inr (Some b)))"

named_theorems column_simps \<open>reading a column back as the type it was stored with\<close>

lemma column_nth [column_simps]:
  "column (v # row) 0 = v" "column (v # row) (Suc n) = column row n"
  "column (v # row) (numeral k) = column row (pred_numeral k)"
  by (simp_all add: column_def numeral_eq_Suc)

lemma get_i64_stored [column_simps]: "column row n = PI64 i \<Longrightarrow> get_i64 E row n = Inr i"
  by (simp add: get_i64_def column_i64_def)

lemma get_bool_stored [column_simps]: "column row n = param_bool b \<Longrightarrow> get_bool E row n = Inr b"
  by (simp add: get_bool_def column_i64_def param_bool_def)

lemma get_bytes_stored [column_simps]: "column row n = PBlob b \<Longrightarrow> get_bytes E row n = Inr b"
  by (simp add: get_bytes_def column_bytes_owned_def)

lemma get_string_stored [column_simps]: "column row n = PText s \<Longrightarrow> get_string E row n = Inr s"
  by (simp add: get_string_def)

lemma get_opt_i64_stored [column_simps]: "column row n = param_opt_i64 v \<Longrightarrow> get_opt_i64 E row n = Inr v"
  by (cases v) (simp_all add: get_opt_i64_def param_opt_i64_def column_i64_def)

lemma get_opt_string_stored [column_simps]:
  "column row n = param_opt_text v \<Longrightarrow> get_opt_string E row n = Inr v"
  by (cases v) (simp_all add: get_opt_string_def param_opt_text_def get_string_def)

section \<open>Statements\<close>

text \<open>What \<open>sqlite3_step\<close> reports: a row, or an error; no outcome left means \<open>SQLITE_DONE\<close>.\<close>

datatype outcome = Row row | Fail sql_error

fun step :: "outcome list \<Rightarrow> row option sql_result" where
  "step [] = Inr None"
| "step (Row r # os) = Inr (Some r)"
| "step (Fail e # os) = Inl e"

fun consume :: "outcome list \<Rightarrow> unit sql_result" where
  "consume [] = Inr ()"
| "consume (Row r # os) = consume os"
| "consume (Fail e # os) = Inl e"

fun collect_rows :: "(row \<Rightarrow> 'a sql_result) \<Rightarrow> outcome list \<Rightarrow> 'a list sql_result" where
  "collect_rows f [] = Inr []"
| "collect_rows f (Row r # os) =
     and_then (f r) (\<lambda>x. and_then (collect_rows f os) (\<lambda>xs. Inr (x # xs)))"
| "collect_rows f (Fail e # os) = Inl e"

lemma collect_rows_map:
  "(\<And>x. x \<in> set xs \<Longrightarrow> f (g x) = Inr x) \<Longrightarrow> collect_rows f (map (\<lambda>x. Row (g x)) xs) = Inr xs"
  by (induction xs) auto

section \<open>Connections\<close>

text \<open>A failure of the engine: an open transaction stays open, or the engine rolls it back.\<close>

datatype fault = Refuses sql_error | RollsBack sql_error

record 't connection =
  cn_tables :: 't
  cn_saved :: "'t option"
  cn_faults :: "fault option list"

text \<open>A statement: from its parameters and the tables, the steps, the changed rows, the new tables.\<close>

type_synonym 't statement = "param list \<Rightarrow> 't \<Rightarrow> outcome list \<times> nat \<times> 't"

text \<open>One call of the engine, which may report a failure of its own (busy, full, I/O).\<close>

definition engine_rollback :: "'t connection \<Rightarrow> 't connection" where
  "engine_rollback c = (case cn_saved c of None \<Rightarrow> c | Some t \<Rightarrow> c\<lparr>cn_tables := t, cn_saved := None\<rparr>)"

definition engine_call :: "'t connection \<Rightarrow> unit sql_result \<times> 't connection" where
  "engine_call c =
    (case cn_faults c of
       [] \<Rightarrow> (Inr (), c)
     | None # fs \<Rightarrow> (Inr (), c\<lparr>cn_faults := fs\<rparr>)
     | Some (Refuses e) # fs \<Rightarrow> (Inl e, c\<lparr>cn_faults := fs\<rparr>)
     | Some (RollsBack e) # fs \<Rightarrow> (Inl e, engine_rollback (c\<lparr>cn_faults := fs\<rparr>)))"

text \<open>Prepare, bind, and run: a statement that fails leaves the tables as they were.\<close>

definition run_statement ::
    "'t statement \<Rightarrow> param list \<Rightarrow> 't connection \<Rightarrow> (outcome list \<times> nat) sql_result \<times> 't connection"
where
  "run_statement stmt params c =
     then_st (engine_call c) (\<lambda>_ c1.
     try_st (bind_all params) c1 (\<lambda>_.
     then_st (engine_call c1) (\<lambda>_ c2.
     case stmt params (cn_tables c2) of (os, n, t) \<Rightarrow>
       (Inr (os, n), if is_ok (consume os) then c2\<lparr>cn_tables := t\<rparr> else c2))))"

definition execute :: "'t statement \<Rightarrow> param list \<Rightarrow> 't connection \<Rightarrow> nat sql_result \<times> 't connection" where
  "execute stmt params c =
     then_st (run_statement stmt params c) (\<lambda>(os, n) c1.
     try_st (consume os) c1 (\<lambda>_. (Inr n, c1)))"

text \<open>\<open>execute_batch\<close>: the statements of the text one after the other, up to the first that fails.\<close>

fun execute_batch :: "'t statement list \<Rightarrow> 't connection \<Rightarrow> unit sql_result \<times> 't connection" where
  "execute_batch [] c = (Inr (), c)"
| "execute_batch (stmt # stmts) c = then_st (execute stmt [] c) (\<lambda>_ c1. execute_batch stmts c1)"

definition query_row ::
    "'t statement \<Rightarrow> param list \<Rightarrow> (row \<Rightarrow> 'a sql_result) \<Rightarrow> 't connection \<Rightarrow>
      'a option sql_result \<times> 't connection"
where
  "query_row stmt params f c =
     then_st (run_statement stmt params c) (\<lambda>(os, n) c1.
     try_st (step os) c1 (\<lambda>r. case r of
       None \<Rightarrow> (Inr None, c1)
     | Some row \<Rightarrow> try_st (f row) c1 (\<lambda>x. (Inr (Some x), c1))))"

definition query_rows ::
    "'t statement \<Rightarrow> param list \<Rightarrow> (row \<Rightarrow> 'a sql_result) \<Rightarrow> 't connection \<Rightarrow>
      'a list sql_result \<times> 't connection"
where
  "query_rows stmt params f c =
     then_st (run_statement stmt params c) (\<lambda>(os, n) c1. (collect_rows f os, c1))"

text \<open>\<open>pragma_i64\<close>: a query without parameters whose missing row is 0.\<close>

definition pragma_i64 :: "column_engine \<Rightarrow> 't statement \<Rightarrow> 't connection \<Rightarrow> int sql_result \<times> 't connection" where
  "pragma_i64 E stmt c =
     then_st (query_row stmt [] (\<lambda>row. get_i64 E row 0) c) (\<lambda>r c1.
     (Inr (case r of None \<Rightarrow> 0 | Some i \<Rightarrow> i), c1))"

text \<open>The text of \<open>pragma_set_string\<close>: quotes in the value are doubled.\<close>

primrec escape_quotes :: "string \<Rightarrow> string" where
  "escape_quotes [] = []"
| "escape_quotes (ch # s) = (if ch = CHR 0x27 then [CHR 0x27, CHR 0x27] else [ch]) @ escape_quotes s"

definition pragma_set_sql :: "string \<Rightarrow> string \<Rightarrow> string" where
  "pragma_set_sql name value = ''PRAGMA '' @ name @ '' = '' @ [CHR 0x27] @ escape_quotes value @ [CHR 0x27]"

text \<open>Busy timeout in milliseconds, as a C int.\<close>

definition busy_timeout_ms :: "nat \<Rightarrow> nat" where
  "busy_timeout_ms ms = min ms (2 ^ 31 - 1)"

section \<open>Transactions\<close>

definition begin_tx :: "'t connection \<Rightarrow> unit sql_result \<times> 't connection" where
  "begin_tx c =
     then_st (engine_call c) (\<lambda>_ c1.
     case cn_saved c1 of
       Some _ \<Rightarrow> (Inl \<lparr>se_code = 1, se_message = ''cannot start a transaction within a transaction''\<rparr>, c1)
     | None \<Rightarrow> (Inr (), c1\<lparr>cn_saved := Some (cn_tables c1)\<rparr>))"

definition commit_tx :: "'t connection \<Rightarrow> unit sql_result \<times> 't connection" where
  "commit_tx c =
     then_st (engine_call c) (\<lambda>_ c1.
     case cn_saved c1 of
       None \<Rightarrow> (Inl \<lparr>se_code = 1, se_message = ''cannot commit - no transaction is active''\<rparr>, c1)
     | Some _ \<Rightarrow> (Inr (), c1\<lparr>cn_saved := None\<rparr>))"

definition rollback_tx :: "'t connection \<Rightarrow> unit sql_result \<times> 't connection" where
  "rollback_tx c =
     then_st (engine_call c) (\<lambda>_ c1.
     case cn_saved c1 of
       None \<Rightarrow> (Inl \<lparr>se_code = 1, se_message = ''cannot rollback - no transaction is active''\<rparr>, c1)
     | Some t \<Rightarrow> (Inr (), c1\<lparr>cn_tables := t, cn_saved := None\<rparr>))"

text \<open>
  The life of a \<open>Transaction\<close> value: opened, used, and either committed, which sets
  \<open>done\<close> before the engine is asked, or dropped by an early return, which rolls back and
  ignores the outcome.
\<close>

definition with_transaction ::
    "(sql_error \<Rightarrow> 'e) \<Rightarrow> ('t connection \<Rightarrow> ('e + 'a) \<times> 't connection) \<Rightarrow> 't connection \<Rightarrow> ('e + 'a) \<times> 't connection"
where
  "with_transaction wrap body c =
    (case begin_tx c of
       (Inl e, c1) \<Rightarrow> (Inl (wrap e), c1)
     | (Inr _, c1) \<Rightarrow>
        (case body c1 of
           (Inl e, c2) \<Rightarrow> (Inl e, snd (rollback_tx c2))
         | (Inr x, c2) \<Rightarrow>
            (case commit_tx c2 of
               (Inl e, c3) \<Rightarrow> (Inl (wrap e), c3)
             | (Inr _, c3) \<Rightarrow> (Inr x, c3))))"

section \<open>Opening and closing\<close>

text \<open>
  \<open>open\<close>: the path as UTF-8, if it is, and the engine's answer (whether it left the
  handle null, the code, the message).
\<close>

definition connection_open ::
    "(string \<Rightarrow> bool \<times> int \<times> string option) \<Rightarrow> string option \<Rightarrow> unit sql_result"
where
  "connection_open engine path =
     and_then (ok_or \<lparr>se_code = SQLITE_OK, se_message = ''database path is not valid UTF-8''\<rparr> path) (\<lambda>p.
     if NUL \<in> set p then Inl \<lparr>se_code = SQLITE_OK, se_message = ''database path contains a NUL byte''\<rparr>
     else case engine p of (null, code, msg) \<Rightarrow>
       if null then Inl \<lparr>se_code = code, se_message = ''failed to allocate connection''\<rparr>
       else check code msg)"

definition connection_open_in_memory ::
    "(string \<Rightarrow> bool \<times> int \<times> string option) \<Rightarrow> unit sql_result"
where
  "connection_open_in_memory engine =
     (case engine '':memory:'' of (null, code, msg) \<Rightarrow>
        if null then Inl \<lparr>se_code = code, se_message = ''failed to allocate connection''\<rparr>
        else check code msg)"

text \<open>
  A handle is live until it is closed. \<open>close\<close> takes the connection by value: after its own
  call of \<open>sqlite3_close_v2\<close> the value is dropped, and \<open>drop\<close> calls it again.
\<close>

datatype handle = Live | Freed
datatype 'a memory = Fine 'a | UseAfterFree

fun close_v2 :: "handle \<Rightarrow> handle memory" where
  "close_v2 Live = Fine Freed"
| "close_v2 Freed = UseAfterFree"

definition connection_drop :: "handle \<Rightarrow> handle memory" where
  "connection_drop h = close_v2 h"

definition connection_close :: "int \<Rightarrow> string option \<Rightarrow> handle \<Rightarrow> unit sql_result memory" where
  "connection_close code msg h =
    (case close_v2 h of
       UseAfterFree \<Rightarrow> UseAfterFree
     | Fine h1 \<Rightarrow> (let result = check code msg in
         case connection_drop h1 of UseAfterFree \<Rightarrow> UseAfterFree | Fine _ \<Rightarrow> Fine result))"

section \<open>Interface: the body of a transaction\<close>

text \<open>What survives a crash or a rollback: the tables before the open transaction, if any.\<close>

definition durable :: "'t connection \<Rightarrow> 't" where
  "durable c = (case cn_saved c of None \<Rightarrow> cn_tables c | Some t \<Rightarrow> t)"

text \<open>A step that kept the transaction as it was, or failed with the engine rolling it back.\<close>

definition tx_kept :: "'e + 'a \<Rightarrow> 't connection \<Rightarrow> 't connection \<Rightarrow> bool" where
  "tx_kept r c c' \<longleftrightarrow> cn_saved c' = cn_saved c \<or> (\<not> is_ok r \<and> cn_saved c' = None \<and> cn_saved c = Some (cn_tables c'))"

lemma tx_kept_simps [simp]: "tx_kept (Inr x) c c' \<longleftrightarrow> cn_saved c' = cn_saved c" "tx_kept r c c"
  by (simp_all add: tx_kept_def)

lemma tx_kept_closed: "tx_kept r c c' \<Longrightarrow> cn_saved c = None \<Longrightarrow> cn_saved c' = None"
  by (auto simp: tx_kept_def)

lemma tx_kept_then:
  assumes "tx_kept (fst p) c (snd p)" "\<And>x c1. p = (Inr x, c1) \<Longrightarrow> tx_kept (fst (f x c1)) c1 (snd (f x c1))"
  shows "tx_kept (fst (then_st p f)) c (snd (then_st p f))"
  using assms by (cases p; cases "fst p") (auto simp: tx_kept_def)

text \<open>A failed call changes the tables only by the rollback, and never what is durable.\<close>

lemma engine_call_frame:
  assumes "engine_call c = (r, c')"
  shows "(cn_saved c' = cn_saved c \<and> cn_tables c' = cn_tables c) \<or>
    (\<not> is_ok r \<and> cn_saved c' = None \<and> cn_saved c = Some (cn_tables c'))"
  using assms by (auto simp: engine_call_def engine_rollback_def split: list.splits option.splits fault.splits)

lemma engine_call_ok: "engine_call c = (Inr u, c') \<Longrightarrow> cn_saved c' = cn_saved c \<and> cn_tables c' = cn_tables c"
  using engine_call_frame by fastforce

lemma engine_call_closed:
  "engine_call c = (r, c') \<Longrightarrow> cn_saved c = None \<Longrightarrow> cn_saved c' = None \<and> cn_tables c' = cn_tables c"
  using engine_call_frame by fastforce

lemma engine_call_durable: "engine_call c = (r, c') \<Longrightarrow> durable c' = durable c"
  using engine_call_frame [of c r c'] by (auto simp: durable_def split: option.split)

lemma engine_call_kept: "tx_kept (fst (engine_call c)) c (snd (engine_call c))"
  using engine_call_frame [of c] by (cases "engine_call c") (auto simp: tx_kept_def)

lemma engine_call_quiet [simp]: "cn_faults c = [] \<Longrightarrow> engine_call c = (Inr (), c)"
  by (simp add: engine_call_def)

lemma tx_kept_try: "(\<And>x. r = Inr x \<Longrightarrow> tx_kept (fst (f x)) c (snd (f x))) \<Longrightarrow> tx_kept (fst (try_st r c f)) c (snd (try_st r c f))"
  by (cases r) simp_all

lemma run_statement_kept: "tx_kept (fst (run_statement stmt ps c)) c (snd (run_statement stmt ps c))"
  unfolding run_statement_def
  by (intro tx_kept_then tx_kept_try engine_call_kept) (simp split: prod.split)

lemma execute_kept: "tx_kept (fst (execute stmt ps c)) c (snd (execute stmt ps c))"
  unfolding execute_def by (rule tx_kept_then [OF run_statement_kept]) (auto intro!: tx_kept_try)

lemma query_row_kept: "tx_kept (fst (query_row stmt ps f c)) c (snd (query_row stmt ps f c))"
  unfolding query_row_def
  by (rule tx_kept_then [OF run_statement_kept]) (auto intro!: tx_kept_try split: option.split)

lemma execute_batch_kept: "tx_kept (fst (execute_batch ss c)) c (snd (execute_batch ss c))"
proof (induction ss arbitrary: c)
  case (Cons s ss)
  show ?case unfolding execute_batch.simps by (rule tx_kept_then [OF execute_kept Cons.IH])
qed simp

lemmas saved_closed = tx_kept_closed [OF run_statement_kept] tx_kept_closed [OF execute_kept] tx_kept_closed [OF query_row_kept]
  tx_kept_closed [OF execute_batch_kept]

lemma rollback_durable: "durable (snd (rollback_tx c)) = durable c"
proof -
  obtain r c1 where e: "engine_call c = (r, c1)" by (cases "engine_call c")
  with engine_call_durable [OF e] engine_call_ok [of c _ c1] show ?thesis
    by (cases r) (auto simp: rollback_tx_def durable_def split: option.split)
qed

locale transactional =
  fixes body :: "'t connection \<Rightarrow> ('e + 'a) \<times> 't connection"
  assumes body_kept: "tx_kept (fst (body c)) c (snd (body c))"
begin

text \<open>
  A transaction is atomic: it returns an error and nothing durable has changed, or it
  returns the body's result and exactly the body's changes are durable.
\<close>

lemma atomic:
  assumes "cn_saved c = None" "with_transaction wrap body c = (r, c')"
  shows "(\<exists>e. r = Inl e \<and> durable c' = durable c) \<or>
    (\<exists>x c1 c2. r = Inr x \<and> begin_tx c = (Inr (), c1) \<and> body c1 = (Inr x, c2) \<and>
      cn_saved c' = None \<and> cn_tables c' = cn_tables c2)"
proof -
  obtain b c1 where b: "begin_tx c = (b, c1)" by (cases "begin_tx c")
  obtain y c2 where y: "body c1 = (y, c2)" by (cases "body c1")
  have kept: "tx_kept y c1 c2" using body_kept [of c1] y by simp
  have c1: "cn_tables c1 = cn_tables c" "case b of Inl _ \<Rightarrow> cn_saved c1 = None | Inr _ \<Rightarrow> cn_saved c1 = Some (cn_tables c)"
    using b assms(1) by (auto simp: begin_tx_def split: st_splits_asm option.splits dest!: engine_call_closed)
  show ?thesis
  proof (cases "(\<exists>e. b = Inl e) \<or> (\<exists>e. y = Inl e)")
    case True
    then show ?thesis
      using assms b y c1 kept
      by (auto simp: with_transaction_def rollback_durable tx_kept_def split: sum.splits) (auto simp: durable_def)
  next
    case False
    then obtain u x where "b = Inr u" "y = Inr x" by (cases b; cases y) auto
    moreover obtain d c3 where d: "commit_tx c2 = (d, c3)" by (cases "commit_tx c2")
    moreover have "case d of Inl _ \<Rightarrow> durable c3 = durable c2 | Inr _ \<Rightarrow> cn_tables c3 = cn_tables c2 \<and> cn_saved c3 = None"
      using d by (auto simp: commit_tx_def durable_def split: st_splits_asm option.splits dest!: engine_call_frame)
    ultimately show ?thesis
      using assms b y c1 kept by (auto simp: with_transaction_def durable_def split: sum.splits)
  qed
qed

end

section \<open>A commit that fails\<close>









text \<open>
  Closing a connection explicitly hands the handle to \<open>sqlite3_close_v2\<close> twice, whatever the
  engine answers, while dropping it does so once.
\<close>

theorem close_frees_twice:
  "connection_close code msg Live = UseAfterFree \<and> connection_drop Live = Fine Freed"
  by (simp add: connection_close_def connection_drop_def)

section \<open>Quoting\<close>

text \<open>How SQL reads a string literal after its opening quote: the value and what follows.\<close>

fun sql_literal :: "string \<Rightarrow> (string \<times> string) option" where
  "sql_literal [] = None"
| "sql_literal (ch # s) =
    (if ch \<noteq> CHR 0x27 then map_option (apfst (Cons ch)) (sql_literal s)
     else case s of
       [] \<Rightarrow> Some ([], [])
     | d # s' \<Rightarrow> if d = CHR 0x27 then map_option (apfst (Cons ch)) (sql_literal s') else Some ([], s))"

text \<open>
  The value of a PRAGMA cannot leave its literal: the text that \<open>pragma_set_string\<close>
  executes is one assignment whose literal reads back as the value, whatever the value is.
\<close>

theorem pragma_value_quoted:
  "\<exists>body. pragma_set_sql name v = ''PRAGMA '' @ name @ '' = '' @ CHR 0x27 # body \<and>
    sql_literal body = Some (v, [])"
proof -
  have "sql_literal (escape_quotes v @ [CHR 0x27]) = Some (v, [])"
    by (induction v) (auto split: list.split)
  then show ?thesis by (auto simp: pragma_set_sql_def)
qed

end
