(* ===== verification/Session_State.thy ===== *)
theory Session_State
  imports Keys Sqleet
begin

text \<open>
  Persisted sessions, \<open>presidium-storage/src/session_state.rs\<close>: flat snapshots of a Double
  Ratchet, taken from a live one and turned back into one, and their JSON form in which
  they are stored; with the error type of the storage crate, \<open>error.rs\<close>.
\<close>

section \<open>Errors of the storage layer\<close>

datatype storage_error =
    Database sql_error
  | KeyDerivation string
  | Serialization string
  | Crdt string
  | InvalidData string
  | Migration string

type_synonym 'a storage_result = "storage_error + 'a"

section \<open>Snapshots\<close>

record chain_snapshot =
  cs_our_ratchet_key :: "bytes option"
  cs_their_ratchet_public :: "bytes option"
  cs_chain_key :: "bytes option"
  cs_chain_index :: u64
  cs_skipped_message_keys :: "(u64 \<times> bytes) list"

record ratchet_snapshot =
  rs_root_key :: bytes
  rs_sending_chain :: chain_snapshot
  rs_receiving_chain :: chain_snapshot

record session_state =
  ss_is_initiator :: bool
  ss_session_keys :: session_keys
  ss_ratchet :: "ratchet_snapshot option"
  ss_last_used :: int

definition chain_from :: "ratchet_chain \<Rightarrow> chain_snapshot" where
  "chain_from c =
     \<lparr>cs_our_ratchet_key = rc_our_ratchet_key c,
      cs_their_ratchet_public = rc_their_ratchet_public c,
      cs_chain_key = map_option ck_key (rc_chain_key c),
      cs_chain_index = (case rc_chain_key c of None \<Rightarrow> 0 | Some ck \<Rightarrow> ck_index ck),
      cs_skipped_message_keys = rc_skipped_message_keys c\<rparr>"

definition to_chain :: "chain_snapshot \<Rightarrow> ratchet_chain storage_result" where
  "to_chain s =
     and_then (case (cs_chain_key s, cs_chain_index s) of
         (Some key, index) \<Rightarrow> Inr (Some \<lparr>ck_key = key, ck_index = index\<rparr>)
       | (None, index) \<Rightarrow>
           if index = 0 then Inr None
           else Inl (InvalidData ''chain snapshot has an index but no chain key'')) (\<lambda>chain_key.
     Inr \<lparr>rc_our_ratchet_key = cs_our_ratchet_key s,
          rc_their_ratchet_public = cs_their_ratchet_public s,
          rc_chain_key = chain_key,
          rc_skipped_message_keys = cs_skipped_message_keys s\<rparr>)"

definition from_ratchet :: "double_ratchet \<Rightarrow> ratchet_snapshot" where
  "from_ratchet r =
     \<lparr>rs_root_key = rk_key (dr_root_key r),
      rs_sending_chain = chain_from (dr_sending_chain r),
      rs_receiving_chain = chain_from (dr_receiving_chain r)\<rparr>"

definition to_ratchet :: "ratchet_snapshot \<Rightarrow> string \<Rightarrow> bytes \<Rightarrow> double_ratchet storage_result" where
  "to_ratchet s session_id associated_data =
     and_then (to_chain (rs_sending_chain s)) (\<lambda>sending_chain.
     and_then (to_chain (rs_receiving_chain s)) (\<lambda>receiving_chain.
     Inr \<lparr>dr_root_key = \<lparr>rk_key = rs_root_key s\<rparr>,
          dr_sending_chain = sending_chain, dr_receiving_chain = receiving_chain,
          dr_session_id = session_id, dr_associated_data = associated_data\<rparr>))"

section \<open>The stored form\<close>

definition skipped_to_json :: "u64 \<times> bytes \<Rightarrow> json" where
  "skipped_to_json e = JArr [json_uint (fst e), json_bytes (snd e)]"

definition skipped_of_json :: "json \<Rightarrow> (u64 \<times> bytes) option" where
  "skipped_of_json j = (case j of
     JArr [i, k] \<Rightarrow> Option.bind (uint_of_json i) (\<lambda>index.
       Option.bind (array_of_json MESSAGE_KEY_SIZE k) (\<lambda>key. Some (index, key)))
   | _ \<Rightarrow> None)"

definition chain_snapshot_to_json :: "chain_snapshot \<Rightarrow> json" where
  "chain_snapshot_to_json s =
     JObj [(''our_ratchet_key'', json_option json_bytes (cs_our_ratchet_key s)),
           (''their_ratchet_public'', json_option json_bytes (cs_their_ratchet_public s)),
           (''chain_key'', json_option json_bytes (cs_chain_key s)),
           (''chain_index'', json_uint (cs_chain_index s)),
           (''skipped_message_keys'', json_list skipped_to_json (cs_skipped_message_keys s))]"

definition chain_snapshot_of_json :: "json \<Rightarrow> chain_snapshot option" where
  "chain_snapshot_of_json j =
    (case struct_fields [''our_ratchet_key'', ''their_ratchet_public'', ''chain_key'', ''chain_index'',
       ''skipped_message_keys''] j of
     Some [o', t, c, i, k] \<Rightarrow>
       Option.bind (optional (array_of_json X25519_PRIVATE_KEY_SIZE) o') (\<lambda>our_ratchet_key.
       Option.bind (optional (array_of_json X25519_PUBLIC_KEY_SIZE) t) (\<lambda>their_ratchet_public.
       Option.bind (optional (array_of_json CHAIN_KEY_SIZE) c) (\<lambda>chain_key.
       Option.bind (required uint_of_json i) (\<lambda>chain_index.
       Option.bind (required (list_of_json skipped_of_json) k) (\<lambda>skipped_message_keys.
       Some \<lparr>cs_our_ratchet_key = our_ratchet_key, cs_their_ratchet_public = their_ratchet_public,
             cs_chain_key = chain_key, cs_chain_index = chain_index,
             cs_skipped_message_keys = skipped_message_keys\<rparr>)))))
   | _ \<Rightarrow> None)"

definition ratchet_snapshot_to_json :: "ratchet_snapshot \<Rightarrow> json" where
  "ratchet_snapshot_to_json s =
     JObj [(''root_key'', json_bytes (rs_root_key s)),
           (''sending_chain'', chain_snapshot_to_json (rs_sending_chain s)),
           (''receiving_chain'', chain_snapshot_to_json (rs_receiving_chain s))]"

definition ratchet_snapshot_of_json :: "json \<Rightarrow> ratchet_snapshot option" where
  "ratchet_snapshot_of_json j =
    (case struct_fields [''root_key'', ''sending_chain'', ''receiving_chain''] j of
     Some [k, s, r] \<Rightarrow>
       Option.bind (required (array_of_json ROOT_KEY_SIZE) k) (\<lambda>root_key.
       Option.bind (required chain_snapshot_of_json s) (\<lambda>sending_chain.
       Option.bind (required chain_snapshot_of_json r) (\<lambda>receiving_chain.
       Some \<lparr>rs_root_key = root_key, rs_sending_chain = sending_chain,
             rs_receiving_chain = receiving_chain\<rparr>)))
   | _ \<Rightarrow> None)"

text \<open>The lengths that the array types of the source enforce.\<close>

definition len_opt :: "nat \<Rightarrow> bytes option \<Rightarrow> bool" where
  "len_opt n x \<longleftrightarrow> (case x of None \<Rightarrow> True | Some b \<Rightarrow> length b = n)"

definition cs_wf :: "chain_snapshot \<Rightarrow> bool" where
  "cs_wf s \<longleftrightarrow> len_opt 32 (cs_our_ratchet_key s) \<and> len_opt 32 (cs_their_ratchet_public s) \<and>
     len_opt 32 (cs_chain_key s) \<and> list_all (\<lambda>e. length (snd e) = 32) (cs_skipped_message_keys s)"

definition rs_wf :: "ratchet_snapshot \<Rightarrow> bool" where
  "rs_wf s \<longleftrightarrow> length (rs_root_key s) = 32 \<and> cs_wf (rs_sending_chain s) \<and> cs_wf (rs_receiving_chain s)"

lemma skipped_of_to_json [simp]: "length (snd e) = 32 \<Longrightarrow> skipped_of_json (skipped_to_json e) = Some e"
  by (cases e) (simp add: skipped_of_json_def skipped_to_json_def)

lemma skipped_to_json_wf [simp]: "json_wf (skipped_to_json e)"
  by (simp add: skipped_to_json_def)

lemma optional_array [simp]:
  "len_opt n x \<Longrightarrow> optional (array_of_json n) (Some (json_option json_bytes x)) = Some x"
  by (intro optional_json_option) (simp add: len_opt_def)

interpretation cs_json: json_type chain_snapshot_to_json chain_snapshot_of_json cs_wf
  by unfold_locales (auto simp: chain_snapshot_to_json_def chain_snapshot_of_json_def cs_wf_def
      list_of_json_list list_all_iff json_list_wf json_option_wf)

interpretation rs_json: json_type ratchet_snapshot_to_json ratchet_snapshot_of_json rs_wf
  by unfold_locales (simp_all add: ratchet_snapshot_to_json_def ratchet_snapshot_of_json_def rs_wf_def
      cs_json.of_to_json cs_json.to_json_wf)

lemma optional_array_length: "optional (array_of_json n) j = Some x \<Longrightarrow> len_opt n x"
  by (cases x) (auto simp: len_opt_def dest!: optional_decoded array_of_json_length)

lemma skipped_decoded: "skipped_of_json j = Some e \<Longrightarrow> length (snd e) = 32"
  by (auto simp: skipped_of_json_def bind_eq_Some_conv split: json.split_asm list.split_asm dest: array_of_json_length)

lemma skipped_list_decoded:
  "required (list_of_json skipped_of_json) j = Some ks \<Longrightarrow> list_all (\<lambda>e. length (snd e) = 32) ks"
  by (auto simp: list_all_iff dest!: required_decoded list_decoded dest: skipped_decoded)

interpretation cs_strict: strict_json chain_snapshot_to_json chain_snapshot_of_json cs_wf
  by unfold_locales
    (auto simp: chain_snapshot_of_json_def cs_wf_def bind_eq_Some_conv split: option.split_asm list.split_asm
      dest!: required_array_length skipped_list_decoded optional_array_length)

interpretation rs_strict: strict_json ratchet_snapshot_to_json ratchet_snapshot_of_json rs_wf
  by unfold_locales
    (auto simp: ratchet_snapshot_of_json_def rs_wf_def bind_eq_Some_conv split: option.split_asm list.split_asm
      dest!: required_array_length cs_strict.required_valid)

section \<open>Properties\<close>

lemma to_chain_from: "to_chain (chain_from c) = Inr c"
  by (cases c) (auto simp: to_chain_def chain_from_def split: option.splits)

lemma to_ratchet_from: "to_ratchet (from_ratchet r) (dr_session_id r) (dr_associated_data r) = Inr r"
  by (cases r) (simp add: to_ratchet_def from_ratchet_def to_chain_from)

lemma from_ratchet_to:
  assumes "to_ratchet s sid ad = Inr r"
  shows "from_ratchet r = s"
proof -
  have "chain_from c = t" if "to_chain t = Inr c" for t c
    using that by (cases t) (auto simp: to_chain_def chain_from_def result_simps split: option.splits if_splits)
  with assms show ?thesis
    by (cases s) (auto simp: to_ratchet_def from_ratchet_def result_simps)
qed

text \<open>The array lengths of a live ratchet.\<close>

definition rc_wf :: "ratchet_chain \<Rightarrow> bool" where
  "rc_wf c \<longleftrightarrow> cs_wf (chain_from c)"

definition dr_wf :: "double_ratchet \<Rightarrow> bool" where
  "dr_wf r \<longleftrightarrow> length (rk_key (dr_root_key r)) = 32 \<and> rc_wf (dr_sending_chain r) \<and> rc_wf (dr_receiving_chain r)"

lemma from_ratchet_wf: "dr_wf r \<Longrightarrow> rs_wf (from_ratchet r)"
  by (simp add: dr_wf_def rs_wf_def from_ratchet_def rc_wf_def)

text \<open>
  A snapshot loses nothing: a ratchet restored from its snapshot, also after the JSON
  round trip in which it is stored, is the ratchet it was taken from, and so encrypts and
  decrypts exactly as that one.
\<close>

theorem snapshot_roundtrip:
  assumes "json_law J" "dr_wf r"
  shows "\<exists>bs s. to_vec J ratchet_snapshot_to_json (from_ratchet r) = Inr bs \<and>
    from_slice J ratchet_snapshot_of_json bs = Inr s \<and>
    to_ratchet s (dr_session_id r) (dr_associated_data r) = Inr r"
  using rs_json.wire_roundtrip [OF assms(1) from_ratchet_wf [OF assms(2)]] to_ratchet_from by blast

lemma sample_receiver_wf: "dr_wf (sample_receiver (1, [0]))"
  by (simp add: dr_wf_def rc_wf_def cs_wf_def chain_from_def len_opt_def sample_receiver_def entry_def
      length_link_key [OF sample_receiver_tracks(2)])
    (simp add: nth_link_def chain_next_def hmac_sha256_def sample_prims_def)

theorem snapshot_roundtrip_witness:
  "\<exists>bs s. to_vec sample_json ratchet_snapshot_to_json (from_ratchet (sample_receiver (1, [0]))) = Inr bs \<and>
    from_slice sample_json ratchet_snapshot_of_json bs = Inr s \<and>
    to_ratchet s ''s'' [] = Inr (sample_receiver (1, [0]))"
  using snapshot_roundtrip [OF sample_json_law sample_receiver_wf] by (simp add: sample_receiver_def)

text \<open>
  Which snapshots can be restored: exactly those in which a chain without a key has
  index zero; any other is refused as invalid data, and a restored ratchet has the very
  snapshot it came from.
\<close>

theorem snapshot_restorable:
  "(\<exists>r. to_ratchet s sid ad = Inr r \<and> from_ratchet r = s) \<or>
   (to_ratchet s sid ad = Inl (InvalidData ''chain snapshot has an index but no chain key'') \<and>
     (\<exists>t\<in>{rs_sending_chain s, rs_receiving_chain s}. cs_chain_key t = None \<and> cs_chain_index t \<noteq> 0))"
proof (cases "to_ratchet s sid ad")
  case (Inl e)
  then show ?thesis
    by (auto simp: to_ratchet_def to_chain_def result_simps split: option.splits if_splits)
next
  case (Inr r)
  then show ?thesis using from_ratchet_to by blast
qed

end
