(* ===== verification/Models.thy ===== *)
theory Models
  imports Session_State
begin

text \<open>
  The typed records of \<open>presidium-storage/src/models.rs\<close>, and how \<open>store.rs\<close> moves them in
  and out of rows: the parameters of each INSERT in the order of its columns, and the
  functions that read a record from a row. An \<open>i64\<close> is an integer; an enum is stored as
  its discriminant.
\<close>

section \<open>Enumerations\<close>

datatype pre_key_kind = Signed | OneTime
datatype message_direction = Incoming | Outgoing
datatype message_status = Pending | Sent | Delivered | Read | Failed
datatype media_kind = Image | Audio | Video | File

fun pre_key_kind_as_i64 :: "pre_key_kind \<Rightarrow> int" where
  "pre_key_kind_as_i64 Signed = 0"
| "pre_key_kind_as_i64 OneTime = 1"

fun direction_as_i64 :: "message_direction \<Rightarrow> int" where
  "direction_as_i64 Incoming = 0"
| "direction_as_i64 Outgoing = 1"

fun status_as_i64 :: "message_status \<Rightarrow> int" where
  "status_as_i64 Pending = 0"
| "status_as_i64 Sent = 1"
| "status_as_i64 Delivered = 2"
| "status_as_i64 Read = 3"
| "status_as_i64 Failed = 4"

fun media_kind_as_i64 :: "media_kind \<Rightarrow> int" where
  "media_kind_as_i64 Image = 0"
| "media_kind_as_i64 Audio = 1"
| "media_kind_as_i64 Video = 2"
| "media_kind_as_i64 File = 3"

definition pre_key_kind_from_i64 :: "int \<Rightarrow> pre_key_kind" where
  "pre_key_kind_from_i64 i = (if i = 0 then Signed else OneTime)"

definition direction_from_i64 :: "int \<Rightarrow> message_direction" where
  "direction_from_i64 i = (if i = 0 then Incoming else Outgoing)"

definition status_from_i64 :: "int \<Rightarrow> message_status" where
  "status_from_i64 i =
     (if i = 0 then Pending else if i = 1 then Sent else if i = 2 then Delivered
      else if i = 3 then Read else Failed)"

definition media_kind_from_i64 :: "int \<Rightarrow> media_kind" where
  "media_kind_from_i64 i = (if i = 0 then Image else if i = 1 then Audio else if i = 2 then Video else File)"

lemma enum_roundtrip [simp]:
  "pre_key_kind_from_i64 (pre_key_kind_as_i64 k) = k" "direction_from_i64 (direction_as_i64 d) = d"
  "status_from_i64 (status_as_i64 s) = s" "media_kind_from_i64 (media_kind_as_i64 m) = m"
  by (cases k; cases d; cases s; cases m;
      simp add: pre_key_kind_from_i64_def direction_from_i64_def status_from_i64_def media_kind_from_i64_def)+

lemma pre_key_kind_as_i64_inject [simp]: "pre_key_kind_as_i64 a = pre_key_kind_as_i64 b \<longleftrightarrow> a = b"
  by (cases a; cases b) simp_all

section \<open>Records\<close>

record identity_record =
  ir_device_id :: string
  ir_classical_seed :: bytes
  ir_pq_seed :: bytes
  ir_created_at :: int

record pre_key_record =
  pk_key_id :: int
  pk_kind :: pre_key_kind
  pk_classical :: bytes
  pk_pq :: bytes
  pk_public_classical :: bytes
  pk_public_pq :: bytes
  pk_signature :: bytes
  pk_created_at :: int

record conversation_record =
  cv_id :: string
  cv_peer_classical :: bytes
  cv_peer_pq :: bytes
  cv_is_group :: bool
  cv_created_at :: int

record message_record =
  mr_id :: int
  mr_conversation_id :: string
  mr_message_id :: bytes
  mr_sender_classical :: bytes
  mr_ciphertext :: bytes
  mr_header :: string
  mr_content_type :: int
  mr_direction :: message_direction
  mr_status :: message_status
  mr_created_at :: int

record sender_key_record =
  skr_group_id :: string
  skr_sender_classical :: bytes
  skr_chain_key :: bytes
  skr_message_index :: int
  skr_key_id :: int
  skr_updated_at :: int

record media_record =
  md_id :: string
  md_message_id :: "int option"
  md_kind :: media_kind
  md_encryption_key :: bytes
  md_size :: int
  md_relative_path :: string
  md_created_at :: int

record device_record =
  dv_device_id :: string
  dv_classical :: bytes
  dv_pq :: bytes
  dv_last_seen :: "int option"

section \<open>Parameters of the INSERTs\<close>

definition identity_params :: "identity_record \<Rightarrow> param list" where
  "identity_params r =
     [PText (ir_device_id r), PBlob (ir_classical_seed r), PBlob (ir_pq_seed r), PI64 (ir_created_at r)]"

definition prekey_params :: "pre_key_record \<Rightarrow> param list" where
  "prekey_params r =
     [PI64 (pk_key_id r), PI64 (pre_key_kind_as_i64 (pk_kind r)), PBlob (pk_classical r), PBlob (pk_pq r),
      PBlob (pk_public_classical r), PBlob (pk_public_pq r), PBlob (pk_signature r), PI64 (pk_created_at r)]"

definition conversation_params :: "conversation_record \<Rightarrow> param list" where
  "conversation_params r =
     [PText (cv_id r), PBlob (cv_peer_classical r), PBlob (cv_peer_pq r), param_bool (cv_is_group r),
      PI64 (cv_created_at r)]"

text \<open>The id of a message is assigned by the engine and not a parameter.\<close>

definition message_params :: "message_record \<Rightarrow> param list" where
  "message_params r =
     [PText (mr_conversation_id r), PBlob (mr_message_id r), PBlob (mr_sender_classical r),
      PBlob (mr_ciphertext r), PText (mr_header r), PI64 (mr_content_type r),
      PI64 (direction_as_i64 (mr_direction r)), PI64 (status_as_i64 (mr_status r)), PI64 (mr_created_at r)]"

definition sender_key_params :: "sender_key_record \<Rightarrow> param list" where
  "sender_key_params r =
     [PText (skr_group_id r), PBlob (skr_sender_classical r), PBlob (skr_chain_key r),
      PI64 (skr_message_index r), PI64 (skr_key_id r), PI64 (skr_updated_at r)]"

definition media_params :: "media_record \<Rightarrow> param list" where
  "media_params r =
     [PText (md_id r), param_opt_i64 (md_message_id r), PI64 (media_kind_as_i64 (md_kind r)),
      PBlob (md_encryption_key r), PI64 (md_size r), PText (md_relative_path r), PI64 (md_created_at r)]"

definition device_params :: "device_record \<Rightarrow> param list" where
  "device_params r =
     [PText (dv_device_id r), PBlob (dv_classical r), PBlob (dv_pq r), param_opt_i64 (dv_last_seen r)]"

section \<open>Records from rows\<close>

definition identity_from_row :: "column_engine \<Rightarrow> row \<Rightarrow> identity_record sql_result" where
  "identity_from_row E row =
     and_then (get_string E row 0) (\<lambda>device_id.
     and_then (get_bytes E row 1) (\<lambda>classical_seed.
     and_then (get_bytes E row 2) (\<lambda>pq_seed.
     and_then (get_i64 E row 3) (\<lambda>created_at.
     Inr \<lparr>ir_device_id = device_id, ir_classical_seed = classical_seed, ir_pq_seed = pq_seed,
          ir_created_at = created_at\<rparr>))))"

definition prekey_from_row :: "column_engine \<Rightarrow> row \<Rightarrow> pre_key_record sql_result" where
  "prekey_from_row E row =
     and_then (get_i64 E row 0) (\<lambda>key_id.
     and_then (get_i64 E row 1) (\<lambda>kind.
     and_then (get_bytes E row 2) (\<lambda>classical.
     and_then (get_bytes E row 3) (\<lambda>pq.
     and_then (get_bytes E row 4) (\<lambda>public_classical.
     and_then (get_bytes E row 5) (\<lambda>public_pq.
     and_then (get_bytes E row 6) (\<lambda>signature.
     and_then (get_i64 E row 7) (\<lambda>created_at.
     Inr \<lparr>pk_key_id = key_id, pk_kind = pre_key_kind_from_i64 kind, pk_classical = classical, pk_pq = pq,
          pk_public_classical = public_classical, pk_public_pq = public_pq, pk_signature = signature,
          pk_created_at = created_at\<rparr>))))))))"

definition conversation_from_row :: "column_engine \<Rightarrow> row \<Rightarrow> conversation_record sql_result" where
  "conversation_from_row E row =
     and_then (get_string E row 0) (\<lambda>cid.
     and_then (get_bytes E row 1) (\<lambda>peer_classical.
     and_then (get_bytes E row 2) (\<lambda>peer_pq.
     and_then (get_bool E row 3) (\<lambda>is_group.
     and_then (get_i64 E row 4) (\<lambda>created_at.
     Inr \<lparr>cv_id = cid, cv_peer_classical = peer_classical, cv_peer_pq = peer_pq, cv_is_group = is_group,
          cv_created_at = created_at\<rparr>)))))"

definition message_from_row :: "column_engine \<Rightarrow> row \<Rightarrow> message_record sql_result" where
  "message_from_row E row =
     and_then (get_i64 E row 0) (\<lambda>mid.
     and_then (get_string E row 1) (\<lambda>conversation_id.
     and_then (get_bytes E row 2) (\<lambda>message_id.
     and_then (get_bytes E row 3) (\<lambda>sender_classical.
     and_then (get_bytes E row 4) (\<lambda>ciphertext.
     and_then (get_string E row 5) (\<lambda>header.
     and_then (get_i64 E row 6) (\<lambda>content_type.
     and_then (get_i64 E row 7) (\<lambda>direction.
     and_then (get_i64 E row 8) (\<lambda>status.
     and_then (get_i64 E row 9) (\<lambda>created_at.
     Inr \<lparr>mr_id = mid, mr_conversation_id = conversation_id, mr_message_id = message_id,
          mr_sender_classical = sender_classical, mr_ciphertext = ciphertext, mr_header = header,
          mr_content_type = content_type, mr_direction = direction_from_i64 direction,
          mr_status = status_from_i64 status, mr_created_at = created_at\<rparr>))))))))))"

definition sender_key_from_row :: "column_engine \<Rightarrow> row \<Rightarrow> sender_key_record sql_result" where
  "sender_key_from_row E row =
     and_then (get_string E row 0) (\<lambda>group_id.
     and_then (get_bytes E row 1) (\<lambda>sender_classical.
     and_then (get_bytes E row 2) (\<lambda>chain_key.
     and_then (get_i64 E row 3) (\<lambda>message_index.
     and_then (get_i64 E row 4) (\<lambda>key_id.
     and_then (get_i64 E row 5) (\<lambda>updated_at.
     Inr \<lparr>skr_group_id = group_id, skr_sender_classical = sender_classical, skr_chain_key = chain_key,
          skr_message_index = message_index, skr_key_id = key_id, skr_updated_at = updated_at\<rparr>))))))"

definition media_from_row :: "column_engine \<Rightarrow> row \<Rightarrow> media_record sql_result" where
  "media_from_row E row =
     and_then (get_string E row 0) (\<lambda>mid.
     and_then (get_opt_i64 E row 1) (\<lambda>message_id.
     and_then (get_i64 E row 2) (\<lambda>kind.
     and_then (get_bytes E row 3) (\<lambda>encryption_key.
     and_then (get_i64 E row 4) (\<lambda>size'.
     and_then (get_string E row 5) (\<lambda>relative_path.
     and_then (get_i64 E row 6) (\<lambda>created_at.
     Inr \<lparr>md_id = mid, md_message_id = message_id, md_kind = media_kind_from_i64 kind,
          md_encryption_key = encryption_key, md_size = size', md_relative_path = relative_path,
          md_created_at = created_at\<rparr>)))))))"

definition device_from_row :: "column_engine \<Rightarrow> row \<Rightarrow> device_record sql_result" where
  "device_from_row E row =
     and_then (get_string E row 0) (\<lambda>device_id.
     and_then (get_bytes E row 1) (\<lambda>classical.
     and_then (get_bytes E row 2) (\<lambda>pq.
     and_then (get_opt_i64 E row 3) (\<lambda>last_seen.
     Inr \<lparr>dv_device_id = device_id, dv_classical = classical, dv_pq = pq, dv_last_seen = last_seen\<rparr>))))"

section \<open>Interface: a record type stored in rows\<close>

text \<open>What is read from the row that a record was written to is the record.\<close>

locale row_type =
  fixes to_row :: "'a \<Rightarrow> row"
    and from_row :: "column_engine \<Rightarrow> row \<Rightarrow> 'a sql_result"
  assumes from_to_row: "from_row E (to_row x) = Inr x"
begin

lemma to_row_injective: "to_row x = to_row y \<Longrightarrow> x = y"
  by (metis from_to_row sum.inject(2))

lemma read_all: "collect_rows (from_row E) (map (\<lambda>x. Row (to_row x)) xs) = Inr xs"
  by (rule collect_rows_map) (rule from_to_row)

end

interpretation identity_row: row_type identity_params identity_from_row
  by unfold_locales (simp add: identity_params_def identity_from_row_def column_simps)

interpretation prekey_row: row_type prekey_params prekey_from_row
  by unfold_locales (simp add: prekey_params_def prekey_from_row_def column_simps)

interpretation conversation_row: row_type conversation_params conversation_from_row
  by unfold_locales (simp add: conversation_params_def conversation_from_row_def column_simps)

interpretation message_row: row_type "\<lambda>r. PI64 (mr_id r) # message_params r" message_from_row
  by unfold_locales (simp add: message_params_def message_from_row_def column_simps)

interpretation sender_key_row: row_type sender_key_params sender_key_from_row
  by unfold_locales (simp add: sender_key_params_def sender_key_from_row_def column_simps)

interpretation media_row: row_type media_params media_from_row
  by unfold_locales (simp add: media_params_def media_from_row_def column_simps)

interpretation device_row: row_type device_params device_from_row
  by unfold_locales (simp add: device_params_def device_from_row_def column_simps)

end
