(* ===== verification/Store.thy ===== *)
theory Store
  imports Models "HOL-Library.List_Lexorder" "HOL-Library.Char_ord"
begin

text \<open>
  The database of \<open>presidium-storage\<close>: the schema of \<open>migrations/0001_init.sql\<close> as a record
  of tables, the SQL statements of \<open>store.rs\<close> as functions on it, and the typed operations
  over a connection. A table is the list of its rows in insertion order, each with its
  primary key; rows hold the columns in the order of the schema.

  The statements translate the SQL of the source: conflict clauses, the UNIQUE, CHECK and
  FOREIGN KEY constraints, AUTOINCREMENT, ORDER BY and LIMIT. Rows with equal sort keys
  keep their insertion order. A violated constraint is the failure of the step.

  The typed operations work on a \<open>Database\<close>, and its constructor returns one only after
  \<open>PRAGMA foreign_keys = ON\<close> was executed and the migrations have created every table
  (\<open>database_finish\<close> in \<open>Storage\<close>). The statements are therefore given for a connection with all tables,
  on which foreign keys are enforced.
\<close>

section \<open>Schema\<close>

record tables =
  t_user_version :: int
  t_schema :: "string list"
  t_identity :: "row option"
  t_prekeys :: "(int \<times> row) list"
  t_conversations :: "(string \<times> row) list"
  t_sessions :: "(string \<times> row) list"
  t_messages :: "(int \<times> row) list"
  t_message_seq :: int
  t_sender_keys :: "((string \<times> bytes) \<times> row) list"
  t_media :: "(string \<times> row) list"
  t_docs :: "(string \<times> row) list"
  t_devices :: "(string \<times> row) list"
  t_last_rowid :: int

type_synonym db = "tables connection"

definition empty_tables :: tables where
  "empty_tables =
     \<lparr>t_user_version = 0, t_schema = [], t_identity = None, t_prekeys = [], t_conversations = [],
      t_sessions = [], t_messages = [], t_message_seq = 0, t_sender_keys = [], t_media = [], t_docs = [],
      t_devices = [], t_last_rowid = 0\<rparr>"

section \<open>Statements in general\<close>

definition constraint :: "string \<Rightarrow> outcome" where
  "constraint msg = Fail \<lparr>se_code = SQLITE_CONSTRAINT, se_message = msg\<rparr>"

definition mismatch :: outcome where
  "mismatch = Fail \<lparr>se_code = 20, se_message = ''datatype mismatch''\<rparr>"

definition tbl_delete :: "'k \<Rightarrow> ('k \<times> row) list \<Rightarrow> ('k \<times> row) list" where
  "tbl_delete k t = filter (\<lambda>e. fst e \<noteq> k) t"

text \<open>INSERT OR REPLACE, and INSERT ... ON CONFLICT DO UPDATE with what becomes of the old row.\<close>

definition tbl_replace :: "'k \<Rightarrow> row \<Rightarrow> ('k \<times> row) list \<Rightarrow> ('k \<times> row) list" where
  "tbl_replace k r t = tbl_delete k t @ [(k, r)]"

definition tbl_upsert :: "'k \<Rightarrow> row \<Rightarrow> (row \<Rightarrow> row) \<Rightarrow> ('k \<times> row) list \<Rightarrow> ('k \<times> row) list" where
  "tbl_upsert k r upd t =
     (if k \<in> fst ` set t then map (\<lambda>e. if fst e = k then (k, upd (snd e)) else e) t else t @ [(k, r)])"

text \<open>LIMIT: a negative limit is no limit.\<close>

definition sql_limit :: "int \<Rightarrow> 'a list \<Rightarrow> 'a list" where
  "sql_limit n xs = (if n < 0 then xs else take (nat n) xs)"

definition lookup_rows :: "'k \<Rightarrow> ('k \<times> row) list \<Rightarrow> outcome list" where
  "lookup_rows k t = (case map_of t k of None \<Rightarrow> [] | Some r \<Rightarrow> [Row r])"

definition lift_db :: "'a sql_result \<times> 'c \<Rightarrow> 'a storage_result \<times> 'c" where
  "lift_db p = (map_err Database (fst p), snd p)"

definition run_db :: "tables statement \<Rightarrow> param list \<Rightarrow> db \<Rightarrow> unit storage_result \<times> db" where
  "run_db stmt params c = then_st (lift_db (execute stmt params c)) (\<lambda>_ c1. (Inr (), c1))"

section \<open>Identity\<close>

fun stmt_save_identity :: "tables statement" where
  "stmt_save_identity [d, c, p, a] t =
     ([], 1, t\<lparr>t_identity := Some (case t_identity t of
        None \<Rightarrow> [d, c, p, a] | Some old \<Rightarrow> [d, c, p] @ drop 3 old)\<rparr>)"
| "stmt_save_identity _ t = ([mismatch], 0, t)"

fun stmt_load_identity :: "tables statement" where
  "stmt_load_identity _ t = (case t_identity t of None \<Rightarrow> [] | Some r \<Rightarrow> [Row r], 0, t)"

definition save_identity :: "identity_record \<Rightarrow> db \<Rightarrow> unit storage_result \<times> db" where
  "save_identity r c = run_db stmt_save_identity (identity_params r) c"

definition load_identity :: "column_engine \<Rightarrow> db \<Rightarrow> identity_record option storage_result \<times> db" where
  "load_identity E c = lift_db (query_row stmt_load_identity [] (identity_from_row E) c)"

section \<open>Prekeys\<close>

fun stmt_save_prekey :: "tables statement" where
  "stmt_save_prekey (PI64 key_id # cols) t =
     ([], 1, t\<lparr>t_prekeys := tbl_replace key_id (PI64 key_id # cols) (t_prekeys t)\<rparr>)"
| "stmt_save_prekey _ t = ([mismatch], 0, t)"

definition prekeys_of_kind :: "param \<Rightarrow> tables \<Rightarrow> row list" where
  "prekeys_of_kind kind t =
     map snd (sort_key fst (filter (\<lambda>e. column (snd e) 1 = kind) (t_prekeys t)))"

fun stmt_list_prekeys :: "tables statement" where
  "stmt_list_prekeys [kind, PI64 limit] t = (map Row (sql_limit limit (prekeys_of_kind kind t)), 0, t)"
| "stmt_list_prekeys _ t = ([mismatch], 0, t)"

fun stmt_count_prekeys :: "tables statement" where
  "stmt_count_prekeys [kind] t = ([Row [PI64 (int (length (prekeys_of_kind kind t)))]], 0, t)"
| "stmt_count_prekeys _ t = ([mismatch], 0, t)"

fun stmt_first_prekey :: "tables statement" where
  "stmt_first_prekey [kind] t = (map Row (sql_limit 1 (prekeys_of_kind kind t)), 0, t)"
| "stmt_first_prekey _ t = ([mismatch], 0, t)"

fun stmt_delete_prekey :: "tables statement" where
  "stmt_delete_prekey [PI64 key_id] t =
     ([], length (t_prekeys t) - length (tbl_delete key_id (t_prekeys t)),
      t\<lparr>t_prekeys := tbl_delete key_id (t_prekeys t)\<rparr>)"
| "stmt_delete_prekey _ t = ([mismatch], 0, t)"

definition save_prekey :: "pre_key_record \<Rightarrow> db \<Rightarrow> unit storage_result \<times> db" where
  "save_prekey r c = run_db stmt_save_prekey (prekey_params r) c"

definition list_prekeys ::
    "column_engine \<Rightarrow> pre_key_kind \<Rightarrow> int \<Rightarrow> db \<Rightarrow> pre_key_record list storage_result \<times> db"
where
  "list_prekeys E kind limit c =
     lift_db (query_rows stmt_list_prekeys [PI64 (pre_key_kind_as_i64 kind), PI64 limit] (prekey_from_row E) c)"

definition count_prekeys :: "column_engine \<Rightarrow> pre_key_kind \<Rightarrow> db \<Rightarrow> int storage_result \<times> db" where
  "count_prekeys E kind c =
     then_st (lift_db (query_row stmt_count_prekeys [PI64 (pre_key_kind_as_i64 kind)] (\<lambda>row. get_i64 E row 0) c))
       (\<lambda>n c1. (Inr (case n of None \<Rightarrow> 0 | Some i \<Rightarrow> i), c1))"

text \<open>The statements between BEGIN and COMMIT of \<open>take_one_time_prekey\<close>.\<close>

definition take_prekey_body :: "column_engine \<Rightarrow> db \<Rightarrow> pre_key_record option storage_result \<times> db" where
  "take_prekey_body E c =
     then_st (lift_db (query_row stmt_first_prekey [PI64 (pre_key_kind_as_i64 OneTime)] (prekey_from_row E) c))
       (\<lambda>record c1. case record of
          None \<Rightarrow> (Inr None, c1)
        | Some r \<Rightarrow> then_st (lift_db (execute stmt_delete_prekey [PI64 (pk_key_id r)] c1))
            (\<lambda>_ c2. (Inr (Some r), c2)))"

definition take_one_time_prekey :: "column_engine \<Rightarrow> db \<Rightarrow> pre_key_record option storage_result \<times> db" where
  "take_one_time_prekey E c = with_transaction Database (take_prekey_body E) c"

definition delete_prekey :: "int \<Rightarrow> db \<Rightarrow> unit storage_result \<times> db" where
  "delete_prekey key_id c = run_db stmt_delete_prekey [PI64 key_id] c"

section \<open>Conversations\<close>

fun stmt_upsert_conversation :: "tables statement" where
  "stmt_upsert_conversation [PText cid, pc, pp, g, a] t =
     ([], 1, t\<lparr>t_conversations := tbl_upsert cid [PText cid, pc, pp, g, a]
        (\<lambda>old. [PText cid, pc, pp, g] @ drop 4 old) (t_conversations t)\<rparr>)"
| "stmt_upsert_conversation _ t = ([mismatch], 0, t)"

fun stmt_load_conversation :: "tables statement" where
  "stmt_load_conversation [PText cid] t = (lookup_rows cid (t_conversations t), 0, t)"
| "stmt_load_conversation _ t = ([], 0, t)"

definition column_int :: "row \<Rightarrow> nat \<Rightarrow> int" where
  "column_int row n = (case column row n of PI64 i \<Rightarrow> i | _ \<Rightarrow> 0)"

fun stmt_list_conversations :: "tables statement" where
  "stmt_list_conversations _ t =
     (map Row (sort_key (\<lambda>r. - column_int r 4) (map snd (t_conversations t))), 0, t)"

definition upsert_conversation :: "conversation_record \<Rightarrow> db \<Rightarrow> unit storage_result \<times> db" where
  "upsert_conversation r c = run_db stmt_upsert_conversation (conversation_params r) c"

definition load_conversation ::
    "column_engine \<Rightarrow> string \<Rightarrow> db \<Rightarrow> conversation_record option storage_result \<times> db"
where
  "load_conversation E cid c =
     lift_db (query_row stmt_load_conversation [PText cid] (conversation_from_row E) c)"

definition list_conversations :: "column_engine \<Rightarrow> db \<Rightarrow> conversation_record list storage_result \<times> db" where
  "list_conversations E c = lift_db (query_rows stmt_list_conversations [] (conversation_from_row E) c)"

section \<open>Sessions\<close>

fun stmt_save_session :: "tables statement" where
  "stmt_save_session (PText cid # cols) t =
     (if cid \<in> fst ` set (t_sessions t) \<or> cid \<in> fst ` set (t_conversations t)
      then ([], 1, t\<lparr>t_sessions := tbl_upsert cid (PText cid # cols) (\<lambda>_. PText cid # cols) (t_sessions t)\<rparr>)
      else ([constraint ''FOREIGN KEY constraint failed''], 0, t))"
| "stmt_save_session _ t = ([mismatch], 0, t)"

fun stmt_load_session :: "tables statement" where
  "stmt_load_session [PText cid] t =
     (case map_of (t_sessions t) cid of None \<Rightarrow> [] | Some r \<Rightarrow> [Row (drop 1 r)], 0, t)"
| "stmt_load_session _ t = ([], 0, t)"

fun stmt_delete_session :: "tables statement" where
  "stmt_delete_session [PText cid] t =
     ([], length (t_sessions t) - length (tbl_delete cid (t_sessions t)),
      t\<lparr>t_sessions := tbl_delete cid (t_sessions t)\<rparr>)"
| "stmt_delete_session _ t = ([], 0, t)"

text \<open>\<open>option.map(f).transpose()?\<close>\<close>

fun transpose_opt :: "('a \<Rightarrow> 'e + 'b) \<Rightarrow> 'a option \<Rightarrow> 'e + 'b option" where
  "transpose_opt f None = Inr None"
| "transpose_opt f (Some x) = and_then (f x) (\<lambda>y. Inr (Some y))"

definition save_session :: "json_text \<Rightarrow> string \<Rightarrow> session_state \<Rightarrow> db \<Rightarrow> unit storage_result \<times> db" where
  "save_session J conversation_id state c =
     try_st (map_err Serialization (to_string J session_keys_to_json (ss_session_keys state))) c (\<lambda>session_keys.
     try_st (map_err Serialization (transpose_opt (to_string J ratchet_snapshot_to_json) (ss_ratchet state))) c
       (\<lambda>ratchet_state.
     run_db stmt_save_session
       [PText conversation_id, param_bool (ss_is_initiator state), PText session_keys,
        param_opt_text ratchet_state, PI64 (ss_last_used state)] c))"

definition session_row ::
    "column_engine \<Rightarrow> row \<Rightarrow> (bool \<times> string \<times> string option \<times> int) sql_result"
where
  "session_row E row =
     and_then (get_bool E row 0) (\<lambda>is_initiator.
     and_then (get_string E row 1) (\<lambda>session_keys.
     and_then (get_opt_string E row 2) (\<lambda>ratchet_state.
     and_then (get_i64 E row 3) (\<lambda>last_used.
     Inr (is_initiator, session_keys, ratchet_state, last_used)))))"

definition session_from_text ::
    "json_text \<Rightarrow> bool \<times> string \<times> string option \<times> int \<Rightarrow> session_state storage_result"
where
  "session_from_text J row = (case row of (is_initiator, keys, snapshot, last_used) \<Rightarrow>
     and_then (map_err Serialization (from_str J session_keys_of_json keys)) (\<lambda>session_keys.
     and_then (map_err Serialization (transpose_opt (from_str J ratchet_snapshot_of_json) snapshot)) (\<lambda>ratchet.
     Inr \<lparr>ss_is_initiator = is_initiator, ss_session_keys = session_keys, ss_ratchet = ratchet,
          ss_last_used = last_used\<rparr>)))"

definition load_session ::
    "column_engine \<Rightarrow> json_text \<Rightarrow> string \<Rightarrow> db \<Rightarrow> session_state option storage_result \<times> db"
where
  "load_session E J conversation_id c =
     then_st (lift_db (query_row stmt_load_session [PText conversation_id] (session_row E) c)) (\<lambda>row c1.
     (transpose_opt (session_from_text J) row, c1))"

definition delete_session :: "string \<Rightarrow> db \<Rightarrow> unit storage_result \<times> db" where
  "delete_session conversation_id c = run_db stmt_delete_session [PText conversation_id] c"

section \<open>Messages\<close>

definition MAX_ROWID :: int where
  "MAX_ROWID = 2 ^ 63 - 1"

fun stmt_insert_message :: "tables statement" where
  "stmt_insert_message (PText cid # mid # cols) t =
     (if t_message_seq t = MAX_ROWID
      then ([Fail \<lparr>se_code = 13, se_message = ''database or disk is full''\<rparr>], 0, t)
      else if list_ex (\<lambda>e. column (snd e) 1 = PText cid \<and> column (snd e) 2 = mid) (t_messages t)
      then ([constraint ''UNIQUE constraint failed: messages.conversation_id, messages.message_id''], 0, t)
      else if cid \<notin> fst ` set (t_conversations t)
      then ([constraint ''FOREIGN KEY constraint failed''], 0, t)
      else let rid = t_message_seq t + 1 in
        ([], 1, t\<lparr>t_messages := t_messages t @ [(rid, PI64 rid # PText cid # mid # cols)],
                  t_message_seq := rid, t_last_rowid := rid\<rparr>))"
| "stmt_insert_message _ t = ([mismatch], 0, t)"

fun stmt_list_messages :: "tables statement" where
  "stmt_list_messages [cid, before, PI64 limit] t =
     (map Row (sql_limit limit (map snd (sort_key (\<lambda>e. - fst e)
        (filter (\<lambda>e. column (snd e) 1 = cid \<and> (case before of PI64 b \<Rightarrow> fst e < b | _ \<Rightarrow> before = PNull))
          (t_messages t))))), 0, t)"
| "stmt_list_messages _ t = ([mismatch], 0, t)"

fun stmt_message_by_uid :: "tables statement" where
  "stmt_message_by_uid [cid, mid] t =
     (map (\<lambda>e. Row (snd e)) (filter (\<lambda>e. column (snd e) 1 = cid \<and> column (snd e) 2 = mid) (t_messages t)), 0, t)"
| "stmt_message_by_uid _ t = ([mismatch], 0, t)"

fun stmt_update_status :: "tables statement" where
  "stmt_update_status [status, PI64 rid] t =
     ([], length (filter (\<lambda>e. fst e = rid) (t_messages t)),
      t\<lparr>t_messages := map (\<lambda>e. if fst e = rid then (rid, (snd e)[8 := status]) else e) (t_messages t)\<rparr>)"
| "stmt_update_status _ t = ([mismatch], 0, t)"

definition insert_message :: "message_record \<Rightarrow> db \<Rightarrow> int storage_result \<times> db" where
  "insert_message r c =
     then_st (run_db stmt_insert_message (message_params r) c) (\<lambda>_ c1. (Inr (t_last_rowid (cn_tables c1)), c1))"

definition list_messages ::
    "column_engine \<Rightarrow> string \<Rightarrow> int option \<Rightarrow> int \<Rightarrow> db \<Rightarrow> message_record list storage_result \<times> db"
where
  "list_messages E conversation_id before_id limit c =
     lift_db (query_rows stmt_list_messages [PText conversation_id, param_opt_i64 before_id, PI64 limit]
       (message_from_row E) c)"

definition load_message_by_uid ::
    "column_engine \<Rightarrow> string \<Rightarrow> bytes \<Rightarrow> db \<Rightarrow> message_record option storage_result \<times> db"
where
  "load_message_by_uid E conversation_id message_id c =
     lift_db (query_row stmt_message_by_uid [PText conversation_id, PBlob message_id] (message_from_row E) c)"

definition update_message_status :: "int \<Rightarrow> message_status \<Rightarrow> db \<Rightarrow> unit storage_result \<times> db" where
  "update_message_status rid status c = run_db stmt_update_status [PI64 (status_as_i64 status), PI64 rid] c"

section \<open>Sender keys\<close>

fun stmt_upsert_sender_key :: "tables statement" where
  "stmt_upsert_sender_key (PText g # PBlob s # cols) t =
     ([], 1, t\<lparr>t_sender_keys := tbl_upsert (g, s) (PText g # PBlob s # cols)
        (\<lambda>_. PText g # PBlob s # cols) (t_sender_keys t)\<rparr>)"
| "stmt_upsert_sender_key _ t = ([mismatch], 0, t)"

fun stmt_load_sender_key :: "tables statement" where
  "stmt_load_sender_key [PText g, PBlob s] t = (lookup_rows (g, s) (t_sender_keys t), 0, t)"
| "stmt_load_sender_key _ t = ([], 0, t)"

definition upsert_sender_key :: "sender_key_record \<Rightarrow> db \<Rightarrow> unit storage_result \<times> db" where
  "upsert_sender_key r c = run_db stmt_upsert_sender_key (sender_key_params r) c"

definition load_sender_key ::
    "column_engine \<Rightarrow> string \<Rightarrow> bytes \<Rightarrow> db \<Rightarrow> sender_key_record option storage_result \<times> db"
where
  "load_sender_key E group_id sender_classical c =
     lift_db (query_row stmt_load_sender_key [PText group_id, PBlob sender_classical] (sender_key_from_row E) c)"

section \<open>Media\<close>

fun stmt_insert_media :: "tables statement" where
  "stmt_insert_media (PText mid # msg # cols) t =
     (if mid \<in> fst ` set (t_media t)
      then ([constraint ''UNIQUE constraint failed: media.id''], 0, t)
      else if msg \<noteq> PNull \<and> msg \<notin> (\<lambda>e. PI64 (fst e)) ` set (t_messages t)
      then ([constraint ''FOREIGN KEY constraint failed''], 0, t)
      else ([], 1, t\<lparr>t_media := t_media t @ [(mid, PText mid # msg # cols)]\<rparr>))"
| "stmt_insert_media _ t = ([mismatch], 0, t)"

fun stmt_load_media :: "tables statement" where
  "stmt_load_media [PText mid] t = (lookup_rows mid (t_media t), 0, t)"
| "stmt_load_media _ t = ([], 0, t)"

fun stmt_list_media :: "tables statement" where
  "stmt_list_media [msg] t =
     (map Row (sort_key (\<lambda>r. column_int r 6) (filter (\<lambda>r. column r 1 = msg) (map snd (t_media t)))), 0, t)"
| "stmt_list_media _ t = ([mismatch], 0, t)"

definition insert_media :: "media_record \<Rightarrow> db \<Rightarrow> unit storage_result \<times> db" where
  "insert_media r c = run_db stmt_insert_media (media_params r) c"

definition load_media :: "column_engine \<Rightarrow> string \<Rightarrow> db \<Rightarrow> media_record option storage_result \<times> db" where
  "load_media E mid c = lift_db (query_row stmt_load_media [PText mid] (media_from_row E) c)"

definition list_media_for_message :: "column_engine \<Rightarrow> int \<Rightarrow> db \<Rightarrow> media_record list storage_result \<times> db" where
  "list_media_for_message E message_id c =
     lift_db (query_rows stmt_list_media [PI64 message_id] (media_from_row E) c)"

section \<open>CRDT documents and devices\<close>

fun stmt_save_doc :: "tables statement" where
  "stmt_save_doc (PText did # cols) t =
     ([], 1, t\<lparr>t_docs := tbl_upsert did (PText did # cols) (\<lambda>_. PText did # cols) (t_docs t)\<rparr>)"
| "stmt_save_doc _ t = ([mismatch], 0, t)"

fun stmt_load_doc :: "tables statement" where
  "stmt_load_doc [PText did] t =
     (case map_of (t_docs t) did of None \<Rightarrow> [] | Some r \<Rightarrow> [Row [column r 1]], 0, t)"
| "stmt_load_doc _ t = ([], 0, t)"

fun stmt_delete_doc :: "tables statement" where
  "stmt_delete_doc [PText did] t =
     ([], length (t_docs t) - length (tbl_delete did (t_docs t)), t\<lparr>t_docs := tbl_delete did (t_docs t)\<rparr>)"
| "stmt_delete_doc _ t = ([], 0, t)"

definition save_doc :: "int \<Rightarrow> string \<Rightarrow> bytes \<Rightarrow> db \<Rightarrow> unit storage_result \<times> db" where
  "save_doc updated_at did ydoc_bytes c =
     run_db stmt_save_doc [PText did, PBlob ydoc_bytes, PI64 updated_at] c"

definition load_doc :: "column_engine \<Rightarrow> string \<Rightarrow> db \<Rightarrow> bytes option storage_result \<times> db" where
  "load_doc E did c = lift_db (query_row stmt_load_doc [PText did] (\<lambda>row. get_bytes E row 0) c)"

definition delete_doc :: "string \<Rightarrow> db \<Rightarrow> unit storage_result \<times> db" where
  "delete_doc did c = run_db stmt_delete_doc [PText did] c"

fun stmt_upsert_device :: "tables statement" where
  "stmt_upsert_device (PText did # cols) t =
     ([], 1, t\<lparr>t_devices := tbl_upsert did (PText did # cols) (\<lambda>_. PText did # cols) (t_devices t)\<rparr>)"
| "stmt_upsert_device _ t = ([mismatch], 0, t)"

fun stmt_list_devices :: "tables statement" where
  "stmt_list_devices _ t = (map Row (map snd (sort_key fst (t_devices t))), 0, t)"

definition upsert_device :: "device_record \<Rightarrow> db \<Rightarrow> unit storage_result \<times> db" where
  "upsert_device r c = run_db stmt_upsert_device (device_params r) c"

definition list_devices :: "column_engine \<Rightarrow> db \<Rightarrow> device_record list storage_result \<times> db" where
  "list_devices E c = lift_db (query_rows stmt_list_devices [] (device_from_row E) c)"

end
