(* ===== verification/Storage.thy ===== *)
theory Storage
  imports Store
begin

text \<open>
  What the storage layer promises: the integrity of the tables under every operation,
  one-time prekeys that are handed out once and in order; and, from \<open>database.rs\<close> and
  \<open>kdf.rs\<close>, opening a database with its schema migrations and the derivation of its key.
\<close>

section \<open>Opening a database\<close>

text \<open>
  The objects of the schema: a table, or an index on a table. Creating one fails if there is
  an object of that name, or for an index if there is no such table; a new table has no rows.
\<close>

datatype schema_object = Table string | Index string string

fun object_name :: "schema_object \<Rightarrow> string" where
  "object_name (Table name) = name"
| "object_name (Index name table) = name"

definition sql_failure :: "string \<Rightarrow> outcome" where
  "sql_failure msg = Fail \<lparr>se_code = 1, se_message = msg\<rparr>"

fun create_object :: "schema_object \<Rightarrow> tables statement" where
  "create_object (Table name) _ t =
     (if name \<in> set (t_schema t) then ([sql_failure (''table '' @ name @ '' already exists'')], 0, t)
      else ([], 0, t\<lparr>t_schema := t_schema t @ [name]\<rparr>))"
| "create_object (Index name table) _ t =
     (if name \<in> set (t_schema t) then ([sql_failure (''index '' @ name @ '' already exists'')], 0, t)
      else if table \<notin> set (t_schema t) then ([sql_failure (''no such table: main.'' @ table)], 0, t)
      else ([], 0, t\<lparr>t_schema := t_schema t @ [name]\<rparr>))"

text \<open>The batch of \<open>0001_init.sql\<close>, statement by statement.\<close>

definition init_schema :: "schema_object list" where
  "init_schema = [Table ''identity'', Table ''prekeys'', Index ''idx_prekeys_kind'' ''prekeys'', Table ''conversations'',
     Table ''sessions'', Table ''messages'', Index ''idx_messages_conversation'' ''messages'', Index ''idx_messages_uid'' ''messages'',
     Table ''sender_keys'', Table ''media'', Table ''docs'', Table ''devices'']"

definition migration_0001 :: "tables statement list" where
  "migration_0001 = map create_object init_schema"

definition MIGRATIONS :: "(string \<times> tables statement list) list" where
  "MIGRATIONS = [(''0001_init.sql'', migration_0001)]"

fun stmt_user_version :: "tables statement" where
  "stmt_user_version _ t = ([Row [PI64 (t_user_version t)]], 0, t)"

definition stmt_set_user_version :: "int \<Rightarrow> tables statement" where
  "stmt_set_user_version v _ t = ([], 0, t\<lparr>t_user_version := v\<rparr>)"

text \<open>\<open>i64::try_from(index + 1).unwrap_or(i64::MAX)\<close>\<close>

definition migration_target :: "nat \<Rightarrow> int" where
  "migration_target index = (if int (index + 1) < 2 ^ 63 then int (index + 1) else 2 ^ 63 - 1)"

definition migration_body :: "tables statement list \<Rightarrow> int \<Rightarrow> db \<Rightarrow> unit storage_result \<times> db" where
  "migration_body sql target c =
     then_st (lift_db (execute_batch sql c)) (\<lambda>_ c1. lift_db (execute_batch [stmt_set_user_version target] c1))"

fun apply_migrations ::
    "int \<Rightarrow> nat \<Rightarrow> (string \<times> tables statement list) list \<Rightarrow> db \<Rightarrow> unit storage_result \<times> db"
where
  "apply_migrations current index [] c = (Inr (), c)"
| "apply_migrations current index ((name, sql) # ms) c =
    (let target = migration_target index in
     if target \<le> current then apply_migrations current (Suc index) ms c
     else then_st (with_transaction Database (migration_body sql target) c) (\<lambda>_ c1.
       apply_migrations current (Suc index) ms c1))"

definition run_migrations :: "column_engine \<Rightarrow> db \<Rightarrow> unit storage_result \<times> db" where
  "run_migrations E c =
     then_st (lift_db (pragma_i64 E stmt_user_version c)) (\<lambda>current c1.
     apply_migrations current 0 MIGRATIONS c1)"

text \<open>
  \<open>finish\<close>: set the key, whose answer of the engine is an argument, then \<open>journal_mode\<close>,
  \<open>foreign_keys\<close> and the busy time-out (which leave the tables alone), then the migrations. It returns only if all of them succeeded.
\<close>

definition database_finish ::
    "column_engine \<Rightarrow> unit sql_result \<Rightarrow> db \<Rightarrow> unit storage_result \<times> db"
where
  "database_finish E key_answer c =
     try_st (map_err (\<lambda>e. KeyDerivation (''sqleet key: '' @ sql_error_display e)) key_answer) c (\<lambda>_.
     then_st (lift_db (engine_call c)) (\<lambda>_ c1.
     then_st (lift_db (engine_call c1)) (\<lambda>_ c2.
     then_st (lift_db (engine_call c2)) (\<lambda>_ c3.
     run_migrations E c3))))"

definition database_open ::
    "column_engine \<Rightarrow> (string \<Rightarrow> bool \<times> int \<times> string option) \<Rightarrow> string option \<Rightarrow> unit sql_result \<Rightarrow> db \<Rightarrow>
      unit storage_result \<times> db"
where
  "database_open E engine path key_answer c =
     try_st (map_err Database (connection_open engine path)) c (\<lambda>_. database_finish E key_answer c)"

definition database_open_in_memory ::
    "column_engine \<Rightarrow> (string \<Rightarrow> bool \<times> int \<times> string option) \<Rightarrow> unit sql_result \<Rightarrow> db \<Rightarrow> unit storage_result \<times> db"
where
  "database_open_in_memory E engine key_answer c =
     try_st (map_err Database (connection_open_in_memory engine)) c (\<lambda>_. database_finish E key_answer c)"

fun database_close :: "int \<Rightarrow> string option \<Rightarrow> handle \<Rightarrow> unit storage_result memory" where
  "database_close code msg h =
    (case connection_close code msg h of
       UseAfterFree \<Rightarrow> UseAfterFree
     | Fine r \<Rightarrow> Fine (map_err Database r))"

text \<open>Argon2id as a parameter: whether the cost parameters are accepted, and the hash.\<close>

record argon2 =
  ar_params :: "nat \<Rightarrow> nat \<Rightarrow> nat \<Rightarrow> nat \<Rightarrow> string + unit"
  ar_hash :: "bytes \<Rightarrow> bytes \<Rightarrow> nat \<Rightarrow> string + bytes"

definition derive_db_key :: "argon2 \<Rightarrow> bytes \<Rightarrow> bytes \<Rightarrow> bytes storage_result" where
  "derive_db_key A passphrase salt =
     and_then (map_err KeyDerivation (ar_params A 65536 3 4 32)) (\<lambda>_.
     map_err KeyDerivation (ar_hash A passphrase salt 32))"

section \<open>Running statements\<close>

lemma is_ok_simps [simp]: "is_ok (Inr x)" "\<not> is_ok (Inl e)"
  by simp_all

lemma run_statement_quiet:
  "cn_faults c = [] \<Longrightarrow> bind_all ps = Inr () \<Longrightarrow> stmt ps (cn_tables c) = (os, n, t) \<Longrightarrow>
    run_statement stmt ps c = (Inr (os, n), if is_ok (consume os) then c\<lparr>cn_tables := t\<rparr> else c)"
  by (simp add: run_statement_def)

lemma run_db_quiet:
  "cn_faults c = [] \<Longrightarrow> bind_all ps = Inr () \<Longrightarrow> stmt ps (cn_tables c) = ([], n, t) \<Longrightarrow>
    run_db stmt ps c = (Inr (), c\<lparr>cn_tables := t\<rparr>)"
  by (simp add: run_db_def execute_def run_statement_quiet lift_db_def)

lemma run_db_refused:
  "cn_faults c = [] \<Longrightarrow> bind_all ps = Inr () \<Longrightarrow> stmt ps (cn_tables c) = ([Fail e], n, t) \<Longrightarrow>
    run_db stmt ps c = (Inl (Database e), c)"
  by (simp add: run_db_def execute_def run_statement_quiet lift_db_def)

lemma query_row_quiet:
  assumes "cn_faults c = []" "bind_all ps = Inr ()" "stmt ps (cn_tables c) = (map Row rows, n, cn_tables c)"
  shows "query_row stmt ps f c =
    (case rows of [] \<Rightarrow> Inr None | r # _ \<Rightarrow> and_then (f r) (\<lambda>x. Inr (Some x)), c)"
  using assms
  by (cases rows; cases "f (hd rows)") (simp_all add: query_row_def run_statement_quiet)

lemma query_rows_quiet:
  "cn_faults c = [] \<Longrightarrow> bind_all ps = Inr () \<Longrightarrow> stmt ps (cn_tables c) = (os, n, cn_tables c) \<Longrightarrow>
    query_rows stmt ps f c = (collect_rows f os, c)"
  by (simp add: query_rows_def run_statement_quiet)

text \<open>What a run leaves in the tables, failures of the engine included.\<close>

lemma run_statement_tables:
  assumes "run_statement stmt ps c = (r, c')"
  shows "cn_tables c' = cn_tables c \<or> cn_saved c = Some (cn_tables c') \<or>
    (\<exists>n t. stmt ps (cn_tables c) = (fst (projr r), n, t) \<and> cn_tables c' = t)"
proof -
  obtain x c1 where e1: "engine_call c = (x, c1)" by (cases "engine_call c")
  obtain y c2 where e2: "engine_call c1 = (y, c2)" by (cases "engine_call c1")
  from assms engine_call_frame [OF e1] engine_call_frame [OF e2] show ?thesis
    by (auto simp: run_statement_def e1 e2 split: st_splits_asm prod.splits if_splits)
qed

section \<open>Integrity\<close>

definition db_wf :: "tables \<Rightarrow> bool" where
  "db_wf t \<longleftrightarrow>
     distinct (map fst (t_prekeys t)) \<and> distinct (map fst (t_conversations t)) \<and>
     distinct (map fst (t_sessions t)) \<and> distinct (map fst (t_sender_keys t)) \<and>
     distinct (map fst (t_media t)) \<and> distinct (map fst (t_docs t)) \<and> distinct (map fst (t_devices t)) \<and>
     fst ` set (t_sessions t) \<subseteq> fst ` set (t_conversations t) \<and>
     sorted_wrt (<) (map fst (t_messages t)) \<and> (\<forall>e\<in>set (t_messages t). fst e \<le> t_message_seq t) \<and>
     (\<forall>e\<in>set (t_messages t). column (snd e) 1 \<in> PText ` fst ` set (t_conversations t)) \<and>
     distinct (map (\<lambda>e. (column (snd e) 1, column (snd e) 2)) (t_messages t)) \<and>
     (\<forall>e\<in>set (t_media t). column (snd e) 1 = PNull \<or> column (snd e) 1 \<in> (\<lambda>e. PI64 (fst e)) ` set (t_messages t))"

lemma empty_tables_wf: "db_wf empty_tables" "db_wf (empty_tables\<lparr>t_user_version := v, t_schema := b\<rparr>)"
  by (simp_all add: db_wf_def empty_tables_def)

lemma distinct_keys_delete: "distinct (map fst t) \<Longrightarrow> distinct (map fst (tbl_delete k t))"
  by (simp add: tbl_delete_def distinct_map_filter)

lemma keys_delete: "fst ` set (tbl_delete k t) = fst ` set t - {k}"
  by (auto simp: tbl_delete_def)

lemma distinct_keys_replace: "distinct (map fst t) \<Longrightarrow> distinct (map fst (tbl_replace k r t))"
  using distinct_keys_delete [of t k] by (auto simp: tbl_replace_def tbl_delete_def)

lemma keys_update: "map fst (map (\<lambda>e. if fst e = k then (k, f e) else e) t) = map fst t"
  by (induction t) auto

lemma keys_upsert_list:
  "map fst (tbl_upsert k r upd t) = (if k \<in> set (map fst t) then map fst t else map fst t @ [k])"
  by (simp add: tbl_upsert_def keys_update)

lemma keys_upsert: "fst ` set (tbl_upsert k r upd t) = insert k (fst ` set t)"
proof -
  have "set (map fst (tbl_upsert k r upd t)) = insert k (set (map fst t))"
    unfolding keys_upsert_list by auto
  then show ?thesis by simp
qed

lemma distinct_keys_upsert: "distinct (map fst t) \<Longrightarrow> distinct (map fst (tbl_upsert k r upd t))"
  unfolding keys_upsert_list by simp

text \<open>Every statement keeps the tables intact, whatever its parameters.\<close>

definition keeps_integrity :: "tables statement \<Rightarrow> bool" where
  "keeps_integrity stmt \<longleftrightarrow> (\<forall>ps t os n t'. db_wf t \<longrightarrow> stmt ps t = (os, n, t') \<longrightarrow> db_wf t')"

named_theorems integrity_intros \<open>statements that keep the tables intact\<close>

lemma keepsI [intro]: "(\<And>ps t. db_wf t \<Longrightarrow> db_wf (snd (snd (stmt ps t)))) \<Longrightarrow> keeps_integrity stmt"
  unfolding keeps_integrity_def by (metis snd_conv)

lemma stmt_save_identity_wf [integrity_intros]: "keeps_integrity stmt_save_identity"
proof
  show "db_wf (snd (snd (stmt_save_identity ps t)))" if "db_wf t" for ps t
    using that by (cases "(ps, t)" rule: stmt_save_identity.cases) (simp_all add: db_wf_def)
qed

lemma stmt_save_prekey_wf [integrity_intros]: "keeps_integrity stmt_save_prekey"
proof
  show "db_wf (snd (snd (stmt_save_prekey ps t)))" if "db_wf t" for ps t
    using that
    by (cases "(ps, t)" rule: stmt_save_prekey.cases) (simp_all add: db_wf_def distinct_keys_replace)
qed

lemma stmt_delete_prekey_wf [integrity_intros]: "keeps_integrity stmt_delete_prekey"
proof
  show "db_wf (snd (snd (stmt_delete_prekey ps t)))" if "db_wf t" for ps t
    using that
    by (cases "(ps, t)" rule: stmt_delete_prekey.cases) (simp_all add: db_wf_def distinct_keys_delete)
qed

lemma stmt_upsert_conversation_wf [integrity_intros]: "keeps_integrity stmt_upsert_conversation"
proof
  show "db_wf (snd (snd (stmt_upsert_conversation ps t)))" if "db_wf t" for ps t
    using that
    by (cases "(ps, t)" rule: stmt_upsert_conversation.cases)
      (auto simp: db_wf_def distinct_keys_upsert keys_upsert)
qed

lemma stmt_save_session_wf [integrity_intros]: "keeps_integrity stmt_save_session"
proof
  show "db_wf (snd (snd (stmt_save_session ps t)))" if "db_wf t" for ps t
    using that
    by (cases "(ps, t)" rule: stmt_save_session.cases)
      (auto simp: db_wf_def distinct_keys_upsert keys_upsert)
qed

lemma stmt_delete_session_wf [integrity_intros]: "keeps_integrity stmt_delete_session"
proof
  show "db_wf (snd (snd (stmt_delete_session ps t)))" if "db_wf t" for ps t
    using that
    by (cases "(ps, t)" rule: stmt_delete_session.cases)
      (auto simp: db_wf_def distinct_keys_delete keys_delete)
qed

lemma append_message_wf:
  assumes "db_wf t" "cid \<in> fst ` set (t_conversations t)"
    and "\<forall>e\<in>set (t_messages t). \<not> (column (snd e) 1 = PText cid \<and> column (snd e) 2 = mid)"
  shows "db_wf (t\<lparr>t_messages := t_messages t @ [(t_message_seq t + 1, PI64 (t_message_seq t + 1) # PText cid # mid # cols)],
    t_message_seq := t_message_seq t + 1, t_last_rowid := t_message_seq t + 1\<rparr>)"
proof -
  let ?e = "(t_message_seq t + 1, PI64 (t_message_seq t + 1) # PText cid # mid # cols)"
  have cols: "column (snd ?e) 1 = PText cid" "column (snd ?e) 2 = mid"
    by (simp_all add: column_simps)
  have "sorted_wrt (<) (map fst (t_messages t @ [?e]))" "\<forall>e\<in>set (t_messages t @ [?e]). fst e \<le> t_message_seq t + 1"
    using assms(1) by (force simp: db_wf_def sorted_wrt_append)+
  moreover have "\<forall>e\<in>set (t_messages t @ [?e]). column (snd e) 1 \<in> PText ` fst ` set (t_conversations t)"
    using assms(1,2) cols(1) unfolding db_wf_def by auto
  moreover have "distinct (map (\<lambda>e. (column (snd e) 1, column (snd e) 2)) (t_messages t @ [?e]))"
    using assms(1,3) cols by (auto simp: db_wf_def)
  moreover have "\<forall>e\<in>set (t_media t). column (snd e) 1 = PNull \<or>
      column (snd e) 1 \<in> (\<lambda>e. PI64 (fst e)) ` set (t_messages t @ [?e])"
    using assms(1) unfolding db_wf_def by auto
  ultimately show ?thesis using assms(1) unfolding db_wf_def by simp
qed

lemma stmt_insert_message_wf [integrity_intros]: "keeps_integrity stmt_insert_message"
proof
  show "db_wf (snd (snd (stmt_insert_message ps t)))" if wf: "db_wf t" for ps t
  proof (cases "(ps, t)" rule: stmt_insert_message.cases)
    case (1 cid mid cols t')
    then show ?thesis
      using wf append_message_wf [OF wf, of cid mid cols]
      by (auto simp: list_ex_iff Let_def simp del: One_nat_def)
  qed (use wf in simp_all)
qed

lemma column_update [simp]: "m \<noteq> n \<Longrightarrow> column (row[m := v]) n = column row n"
  by (simp add: column_def)

lemma stmt_update_status_wf [integrity_intros]: "keeps_integrity stmt_update_status"
proof
  show "db_wf (snd (snd (stmt_update_status ps t)))" if wf: "db_wf t" for ps t
  proof (cases "(ps, t)" rule: stmt_update_status.cases)
    case (1 status rid t')
    define f :: "int \<times> row \<Rightarrow> int \<times> row" where "f = (\<lambda>e. if fst e = rid then (rid, (snd e)[8 := status]) else e)"
    have f: "fst (f e) = fst e" "column (snd (f e)) 1 = column (snd e) 1" "column (snd (f e)) 2 = column (snd e) 2" for e
      by (simp_all add: f_def)
    then have "fst \<circ> f = fst" by auto
    moreover have "stmt_update_status ps t = ([], length (filter (\<lambda>e. fst e = rid) (t_messages t)),
        t\<lparr>t_messages := map f (t_messages t)\<rparr>)"
      using 1 by (simp add: f_def)
    ultimately show ?thesis
      using wf by (simp add: db_wf_def f comp_def image_image del: One_nat_def)
  qed (use wf in simp_all)
qed

lemma stmt_upsert_sender_key_wf [integrity_intros]: "keeps_integrity stmt_upsert_sender_key"
proof
  show "db_wf (snd (snd (stmt_upsert_sender_key ps t)))" if "db_wf t" for ps t
    using that
    by (cases "(ps, t)" rule: stmt_upsert_sender_key.cases) (simp_all add: db_wf_def distinct_keys_upsert)
qed

lemma stmt_insert_media_wf [integrity_intros]: "keeps_integrity stmt_insert_media"
proof
  show "db_wf (snd (snd (stmt_insert_media ps t)))" if "db_wf t" for ps t
    using that
    by (cases "(ps, t)" rule: stmt_insert_media.cases) (auto simp: db_wf_def column_simps)
qed

lemma stmt_docs_wf [integrity_intros]: "keeps_integrity stmt_save_doc" "keeps_integrity stmt_delete_doc"
proof -
  show "keeps_integrity stmt_save_doc"
  proof
    show "db_wf (snd (snd (stmt_save_doc ps t)))" if "db_wf t" for ps t
      using that
      by (cases "(ps, t)" rule: stmt_save_doc.cases) (simp_all add: db_wf_def distinct_keys_upsert)
  qed
  show "keeps_integrity stmt_delete_doc"
  proof
    show "db_wf (snd (snd (stmt_delete_doc ps t)))" if "db_wf t" for ps t
      using that
      by (cases "(ps, t)" rule: stmt_delete_doc.cases) (simp_all add: db_wf_def distinct_keys_delete)
  qed
qed

lemma stmt_upsert_device_wf [integrity_intros]: "keeps_integrity stmt_upsert_device"
proof
  show "db_wf (snd (snd (stmt_upsert_device ps t)))" if "db_wf t" for ps t
    using that
    by (cases "(ps, t)" rule: stmt_upsert_device.cases) (simp_all add: db_wf_def distinct_keys_upsert)
qed

lemma stmt_first_prekey_same: "snd (snd (stmt_first_prekey ps t)) = t"
  by (cases "(ps, t)" rule: stmt_first_prekey.cases) simp_all

lemma stmt_first_prekey_wf [integrity_intros]: "keeps_integrity stmt_first_prekey"
  by (rule keepsI) (simp add: stmt_first_prekey_same)

lemma migration_wf [integrity_intros]: "s \<in> set migration_0001 \<Longrightarrow> keeps_integrity s" "keeps_integrity (stmt_set_user_version v)"
proof -
  have "keeps_integrity (create_object ob)" for ob
    by (cases ob; rule keepsI) (auto simp: db_wf_def)
  then show "s \<in> set migration_0001 \<Longrightarrow> keeps_integrity s" by (auto simp: migration_0001_def)
  show "keeps_integrity (stmt_set_user_version v)" by (rule keepsI) (simp add: stmt_set_user_version_def db_wf_def)
qed

section \<open>Connections keep the integrity\<close>

definition conn_wf :: "db \<Rightarrow> bool" where
  "conn_wf c \<longleftrightarrow> db_wf (cn_tables c) \<and> (\<forall>t. cn_saved c = Some t \<longrightarrow> db_wf t)"

lemma run_statement_wf:
  assumes "keeps_integrity stmt" "conn_wf c" "run_statement stmt ps c = (r, c')"
  shows "conn_wf c'"
  using run_statement_tables [OF assms(3)] run_statement_kept [of stmt ps c] assms
  by (auto simp: conn_wf_def keeps_integrity_def tx_kept_def)

lemma execute_wf: "keeps_integrity stmt \<Longrightarrow> conn_wf c \<Longrightarrow> conn_wf (snd (execute stmt ps c))"
  by (auto simp: execute_def split: st_splits dest: run_statement_wf)

lemma execute_batch_wf: "\<forall>s\<in>set ss. keeps_integrity s \<Longrightarrow> conn_wf c \<Longrightarrow> conn_wf (snd (execute_batch ss c))"
proof (induction ss arbitrary: c)
  case (Cons s ss)
  have "conn_wf (snd (execute s [] c))" using Cons.prems by (intro execute_wf) simp_all
  with Cons show ?case by (cases "execute s [] c"; cases "fst (execute s [] c)") auto
qed simp

lemma query_row_wf: "keeps_integrity stmt \<Longrightarrow> conn_wf c \<Longrightarrow> conn_wf (snd (query_row stmt ps f c))"
  by (auto simp: query_row_def split: st_splits option.splits dest: run_statement_wf)

lemma lift_db_snd [simp]: "snd (lift_db p) = snd p"
  by (simp add: lift_db_def)

lemma then_st_snd:
  assumes "Q (snd p)" "\<And>x s. p = (Inr x, s) \<Longrightarrow> Q (snd (f x s))"
  shows "Q (snd (then_st p f))"
  using assms by (cases p; cases "fst p") auto

lemma run_db_wf: "keeps_integrity stmt \<Longrightarrow> conn_wf c \<Longrightarrow> conn_wf (snd (run_db stmt ps c))"
  unfolding run_db_def by (rule then_st_snd) (auto dest: execute_wf simp: lift_db_def)

lemma begin_commit_rollback_wf:
  assumes "conn_wf c"
  shows "conn_wf (snd (begin_tx c))" "conn_wf (snd (commit_tx c))" "conn_wf (snd (rollback_tx c))"
proof -
  obtain r c1 where e: "engine_call c = (r, c1)" by (cases "engine_call c")
  have "conn_wf c1" using engine_call_frame [OF e] assms by (auto simp: conn_wf_def)
  with e show "conn_wf (snd (begin_tx c))" "conn_wf (snd (commit_tx c))" "conn_wf (snd (rollback_tx c))"
    by (cases r; auto simp: begin_tx_def commit_tx_def rollback_tx_def conn_wf_def split: option.splits)+
qed

lemma with_transaction_wf:
  assumes "\<And>c. conn_wf c \<Longrightarrow> conn_wf (snd (body c))" "conn_wf c"
  shows "conn_wf (snd (with_transaction wrap body c))"
proof -
  obtain b c1 where b: "begin_tx c = (b, c1)" by (cases "begin_tx c")
  obtain y c2 where y: "body c1 = (y, c2)" by (cases "body c1")
  obtain d c3 where d: "commit_tx c2 = (d, c3)" by (cases "commit_tx c2")
  have c1: "conn_wf c1" using begin_commit_rollback_wf(1) [OF assms(2)] by (simp add: b)
  have c2: "conn_wf c2" using assms(1) [OF c1] by (simp add: y)
  have c3: "conn_wf c3" using begin_commit_rollback_wf(2) [OF c2] by (simp add: d)
  show ?thesis
    using c1 c3 begin_commit_rollback_wf(3) [OF c2]
    by (cases b; cases y; cases d) (simp_all add: with_transaction_def b y d)
qed

lemma take_prekey_body_wf: "conn_wf c \<Longrightarrow> conn_wf (snd (take_prekey_body E c))"
  unfolding take_prekey_body_def
proof (rule then_st_snd)
  assume c: "conn_wf c"
  let ?q = "lift_db (query_row stmt_first_prekey [PI64 (pre_key_kind_as_i64 OneTime)] (prekey_from_row E) c)"
  show q: "conn_wf (snd ?q)" using query_row_wf [OF stmt_first_prekey_wf c] by simp
  fix x c1
  assume "?q = (Inr x, c1)"
  with q have c1: "conn_wf c1" by (metis snd_conv)
  have e: "conn_wf (snd (execute stmt_delete_prekey ps c1))" for ps
    by (rule execute_wf [OF stmt_delete_prekey_wf c1])
  show "conn_wf (snd (case x of None \<Rightarrow> (Inr None, c1)
      | Some r \<Rightarrow> then_st (lift_db (execute stmt_delete_prekey [PI64 (pk_key_id r)] c1)) (\<lambda>_ c2. (Inr (Some r), c2))))"
  proof (cases x)
    case (Some r)
    have "conn_wf (snd (then_st (lift_db (execute stmt_delete_prekey [PI64 (pk_key_id r)] c1))
        (\<lambda>_ c2. (Inr (Some r), c2))))"
      by (rule then_st_snd) (use e [of "[PI64 (pk_key_id r)]"] in \<open>simp_all add: lift_db_def\<close>)
    then show ?thesis by (simp add: Some)
  qed (simp add: c1)
qed

lemma take_one_time_prekey_wf: "conn_wf c \<Longrightarrow> conn_wf (snd (take_one_time_prekey E c))"
  unfolding take_one_time_prekey_def by (rule with_transaction_wf [OF take_prekey_body_wf])

lemma migration_body_wf:
  assumes "\<forall>s\<in>set sql. keeps_integrity s" "conn_wf c"
  shows "conn_wf (snd (migration_body sql v c))"
  unfolding migration_body_def
proof (rule then_st_snd)
  show wf: "conn_wf (snd (lift_db (execute_batch sql c)))" using execute_batch_wf [OF assms] by simp
  show "conn_wf (snd (lift_db (execute_batch [stmt_set_user_version v] c1)))" if "lift_db (execute_batch sql c) = (Inr x, c1)" for x c1
    unfolding lift_db_snd using wf that by (intro execute_batch_wf) (simp_all add: migration_wf(2))
qed

lemma apply_migrations_wf:
  assumes "\<forall>m\<in>set ms. \<forall>s\<in>set (snd m). keeps_integrity s"
  shows "conn_wf c \<Longrightarrow> conn_wf (snd (apply_migrations current index ms c))"
  using assms
proof (induction current index ms c rule: apply_migrations.induct)
  case (2 current index name sql ms c)
  let ?tx = "with_transaction Database (migration_body sql (migration_target index)) c"
  show ?case
  proof (cases "migration_target index \<le> current")
    case True
    then show ?thesis using 2 by simp
  next
    case False
    have tx: "conn_wf (snd ?tx)"
      using 2 by (intro with_transaction_wf migration_body_wf) simp_all
    have "conn_wf (snd (then_st ?tx (\<lambda>_ c1. apply_migrations current (Suc index) ms c1)))"
    proof (rule then_st_snd [where Q = conn_wf, OF tx])
      fix x c1
      assume e: "?tx = (Inr x, c1)"
      with tx have "conn_wf c1" by (metis snd_conv)
      then show "conn_wf (snd (apply_migrations current (Suc index) ms c1))"
        using 2 False by auto
    qed
    with False show ?thesis by (simp add: Let_def)
  qed
qed simp

section \<open>The store as a machine\<close>

datatype store_op =
    OpSaveIdentity identity_record
  | OpSavePrekey pre_key_record
  | OpTakePrekey
  | OpDeletePrekey int
  | OpUpsertConversation conversation_record
  | OpSaveSession string session_state
  | OpDeleteSession string
  | OpInsertMessage message_record
  | OpUpdateStatus int message_status
  | OpUpsertSenderKey sender_key_record
  | OpInsertMedia media_record
  | OpSaveDoc int string bytes
  | OpDeleteDoc string
  | OpUpsertDevice device_record

fun store_exec :: "column_engine \<Rightarrow> json_text \<Rightarrow> store_op \<Rightarrow> db \<Rightarrow> db" where
  "store_exec E J (OpSaveIdentity r) c = snd (save_identity r c)"
| "store_exec E J (OpSavePrekey r) c = snd (save_prekey r c)"
| "store_exec E J OpTakePrekey c = snd (take_one_time_prekey E c)"
| "store_exec E J (OpDeletePrekey k) c = snd (delete_prekey k c)"
| "store_exec E J (OpUpsertConversation r) c = snd (upsert_conversation r c)"
| "store_exec E J (OpSaveSession cid st) c = snd (save_session J cid st c)"
| "store_exec E J (OpDeleteSession cid) c = snd (delete_session cid c)"
| "store_exec E J (OpInsertMessage r) c = snd (insert_message r c)"
| "store_exec E J (OpUpdateStatus rid st) c = snd (update_message_status rid st c)"
| "store_exec E J (OpUpsertSenderKey r) c = snd (upsert_sender_key r c)"
| "store_exec E J (OpInsertMedia r) c = snd (insert_media r c)"
| "store_exec E J (OpSaveDoc now did b) c = snd (save_doc now did b c)"
| "store_exec E J (OpDeleteDoc did) c = snd (delete_doc did c)"
| "store_exec E J (OpUpsertDevice r) c = snd (upsert_device r c)"

lemma save_session_wf: "conn_wf c \<Longrightarrow> conn_wf (snd (save_session J cid st c))"
  by (auto simp: save_session_def run_db_wf [OF stmt_save_session_wf] split: st_splits)

lemma insert_message_wf: "conn_wf c \<Longrightarrow> conn_wf (snd (insert_message r c))"
  unfolding insert_message_def
proof (rule then_st_snd)
  assume "conn_wf c"
  then show wf: "conn_wf (snd (run_db stmt_insert_message (message_params r) c))"
    by (rule run_db_wf [OF stmt_insert_message_wf])
  show "conn_wf (snd (Inr (t_last_rowid (cn_tables c1)), c1))"
    if "run_db stmt_insert_message (message_params r) c = (Inr x, c1)" for x c1
    using wf that by simp
qed

interpretation store_machine: machine "store_exec E J" conn_wf for E J
proof (unfold_locales, goal_cases)
  case (1 c op)
  then show ?case
    by (cases op)
      (simp_all add: save_identity_def save_prekey_def delete_prekey_def upsert_conversation_def delete_session_def
        update_message_status_def upsert_sender_key_def insert_media_def save_doc_def delete_doc_def upsert_device_def
        run_db_wf integrity_intros take_one_time_prekey_wf save_session_wf insert_message_wf)
qed

section \<open>Prekeys as records\<close>

text \<open>The table holds exactly these records, in this order.\<close>

definition prekey_table :: "tables \<Rightarrow> pre_key_record list \<Rightarrow> bool" where
  "prekey_table t rs \<longleftrightarrow> t_prekeys t = map (\<lambda>r. (pk_key_id r, prekey_params r)) rs \<and> distinct (map pk_key_id rs)"

text \<open>The one-time prekeys, oldest first.\<close>

definition one_time :: "pre_key_record list \<Rightarrow> pre_key_record list" where
  "one_time rs = sort_key pk_key_id (filter (\<lambda>r. pk_kind r = OneTime) rs)"

lemma insort_key_map: "insort_key g (f x) (map f xs) = map f (insort_key (\<lambda>x. g (f x)) x xs)"
  by (induction xs) auto

lemma sort_key_map: "sort_key g (map f xs) = map f (sort_key (\<lambda>x. g (f x)) xs)"
  by (induction xs) (auto simp: insort_key_map)

lemma prekeys_of_kind_records:
  assumes "prekey_table t rs"
  shows "prekeys_of_kind (PI64 (pre_key_kind_as_i64 k)) t =
    map prekey_params (sort_key pk_key_id (filter (\<lambda>r. pk_kind r = k) rs))"
proof -
  have "filter (\<lambda>e. column (snd e) 1 = PI64 (pre_key_kind_as_i64 k)) (t_prekeys t) =
      map (\<lambda>r. (pk_key_id r, prekey_params r)) (filter (\<lambda>r. pk_kind r = k) rs)"
    using assms
    by (simp add: prekey_table_def filter_map comp_def prekey_params_def column_simps)
  then show ?thesis by (simp add: prekeys_of_kind_def sort_key_map comp_def)
qed

lemma delete_records:
  "prekey_table t rs \<Longrightarrow>
    prekey_table (t\<lparr>t_prekeys := tbl_delete k (t_prekeys t)\<rparr>) (filter (\<lambda>r. pk_key_id r \<noteq> k) rs)"
  by (auto simp: prekey_table_def tbl_delete_def filter_map comp_def distinct_map_filter)

lemma first_prekey_records:
  assumes "prekey_table t rs"
  shows "stmt_first_prekey [PI64 (pre_key_kind_as_i64 OneTime)] t =
    (map Row (map prekey_params (take 1 (one_time rs))), 0, t)"
  using prekeys_of_kind_records [OF assms, of OneTime] by (simp add: sql_limit_def one_time_def take_map)

section \<open>Taking one-time prekeys\<close>

lemma lift_db_kept [simp]: "tx_kept (fst (lift_db p)) c c' = tx_kept (fst p) c c'"
  by (cases p; cases "fst p") (auto simp: lift_db_def tx_kept_def)

lemma take_prekey_body_kept: "tx_kept (fst (take_prekey_body E c)) c (snd (take_prekey_body E c))"
  unfolding take_prekey_body_def
proof (rule tx_kept_then)
  let ?q = "query_row stmt_first_prekey [PI64 (pre_key_kind_as_i64 OneTime)] (prekey_from_row E) c"
  show "tx_kept (fst (lift_db ?q)) c (snd (lift_db ?q))" by (simp add: query_row_kept)
  show "tx_kept (fst (case x of None \<Rightarrow> (Inr None, c1)
        | Some r \<Rightarrow> then_st (lift_db (execute stmt_delete_prekey [PI64 (pk_key_id r)] c1)) (\<lambda>_ c2. (Inr (Some r), c2)))) c1
      (snd (case x of None \<Rightarrow> (Inr None, c1)
        | Some r \<Rightarrow> then_st (lift_db (execute stmt_delete_prekey [PI64 (pk_key_id r)] c1)) (\<lambda>_ c2. (Inr (Some r), c2))))" for x c1
  proof (cases x)
    case (Some r)
    show ?thesis unfolding Some option.case by (rule tx_kept_then) (simp_all add: execute_kept)
  qed simp
qed

interpretation take_tx: transactional "take_prekey_body E" for E
  by unfold_locales (rule take_prekey_body_kept)

text \<open>Whatever the engine reports, a query or a statement that succeeds did its work.\<close>

lemma run_statement_ok:
  assumes "run_statement stmt ps c = (Inr (os, n), c1)"
  shows "\<exists>t. stmt ps (cn_tables c) = (os, n, t) \<and> cn_tables c1 = (if is_ok (consume os) then t else cn_tables c)"
  using assms by (auto simp: run_statement_def split: st_splits_asm prod.splits if_splits dest!: engine_call_ok)

lemma query_row_ok:
  assumes "query_row stmt ps f c = (Inr x, c1)" "stmt ps (cn_tables c) = (map Row rows, n, cn_tables c)"
  shows "cn_tables c1 = cn_tables c \<and>
    (case rows of [] \<Rightarrow> x = None | r # _ \<Rightarrow> \<exists>y. f r = Inr y \<and> x = Some y)"
proof -
  obtain os k where run: "run_statement stmt ps c = (Inr (os, k), c1)"
    using assms(1) by (auto simp: query_row_def split: st_splits_asm option.splits)
  from run_statement_ok [OF this] assms(2) have "os = map Row rows" "cn_tables c1 = cn_tables c"
    by (auto split: if_splits)
  with run assms(1) show ?thesis
    by (cases rows) (auto simp: query_row_def split: st_splits_asm)
qed

lemma execute_ok:
  assumes "execute stmt ps c = (Inr n, c1)" "stmt ps (cn_tables c) = ([], k, t)"
  shows "cn_tables c1 = t"
proof -
  obtain os where "run_statement stmt ps c = (Inr (os, n), c1)"
    using assms(1) by (auto simp: execute_def split: st_splits_asm)
  from run_statement_ok [OF this] assms(2) show ?thesis by auto
qed

lemma take_prekey_body_ok:
  assumes "prekey_table (cn_tables c) rs" "take_prekey_body E c = (Inr x, c2)"
  shows "case one_time rs of
      [] \<Rightarrow> x = None \<and> cn_tables c2 = cn_tables c
    | k # _ \<Rightarrow> x = Some k \<and> prekey_table (cn_tables c2) (filter (\<lambda>r. pk_key_id r \<noteq> pk_key_id k) rs)"
proof -
  let ?q = "query_row stmt_first_prekey [PI64 (pre_key_kind_as_i64 OneTime)] (prekey_from_row E) c"
  obtain y c1 where q: "?q = (Inr y, c1)"
    using assms(2) by (cases ?q; cases "fst ?q") (auto simp: take_prekey_body_def lift_db_def)
  have f: "cn_tables c1 = cn_tables c" "case map prekey_params (take 1 (one_time rs)) of
      [] \<Rightarrow> y = None | r # _ \<Rightarrow> \<exists>z. prekey_from_row E r = Inr z \<and> y = Some z"
    using query_row_ok [OF q first_prekey_records [OF assms(1)]] by blast+
  show ?thesis
  proof (cases "one_time rs")
    case Nil
    then show ?thesis using f q assms(2) by (simp add: take_prekey_body_def lift_db_def)
  next
    case (Cons k ks)
    then have y: "y = Some k" using f(2) by (simp add: prekey_row.from_to_row)
    let ?d = "execute stmt_delete_prekey [PI64 (pk_key_id k)] c1"
    obtain m where d: "?d = (Inr m, c2)" "x = Some k"
      using assms(2) q y by (cases ?d; cases "fst ?d") (auto simp: take_prekey_body_def lift_db_def)
    have "cn_tables c2 = cn_tables c\<lparr>t_prekeys := tbl_delete (pk_key_id k) (t_prekeys (cn_tables c))\<rparr>"
      using execute_ok [OF d(1)] f(1) by simp
    with d(2) Cons show ?thesis using delete_records [OF assms(1)] by simp
  qed
qed

lemma begin_tx_tables: "begin_tx c = (Inr u, c1) \<Longrightarrow> cn_tables c1 = cn_tables c"
  by (auto simp: begin_tx_def split: st_splits_asm option.splits dest!: engine_call_ok)

text \<open>
  C14. Taking a one-time prekey is atomic, whatever failures the engine reports at any of
  its calls: either an error is returned and nothing durable has changed, or the
  one-time prekey with the smallest id is returned and exactly it is gone for good (or none is left, and
  nothing changes).
\<close>

theorem take_prekey_atomic:
  assumes "prekey_table (cn_tables c) rs" "cn_saved c = None" "take_one_time_prekey E c = (r, c')"
  shows "(\<exists>e. r = Inl e \<and> durable c' = durable c) \<or>
    (\<exists>x. r = Inr x \<and> cn_saved c' = None \<and> (case one_time rs of
       [] \<Rightarrow> x = None \<and> cn_tables c' = cn_tables c
     | k # _ \<Rightarrow> x = Some k \<and> prekey_table (cn_tables c') (filter (\<lambda>r. pk_key_id r \<noteq> pk_key_id k) rs)))"
  using take_tx.atomic [OF assms(2) assms(3) [unfolded take_one_time_prekey_def]]
proof (elim disjE exE conjE)
  fix x c1 c2
  assume r: "r = Inr x" "begin_tx c = (Inr (), c1)" "take_prekey_body E c1 = (Inr x, c2)"
    "cn_saved c' = None" "cn_tables c' = cn_tables c2"
  have "prekey_table (cn_tables c1) rs" using assms(1) begin_tx_tables [OF r(2)] by simp
  from take_prekey_body_ok [OF this r(3)] begin_tx_tables [OF r(2)] r show ?thesis by (simp split: list.splits)
qed blast

definition sample_engine :: column_engine where
  "sample_engine = \<lparr>ce_int64 = (\<lambda>_. 0), ce_bytes = (\<lambda>_. []), ce_lossy = string_of_bytes\<rparr>"

definition sample_db :: "tables \<Rightarrow> fault option list \<Rightarrow> db" where
  "sample_db t faults = \<lparr>cn_tables = t, cn_saved = None, cn_faults = faults\<rparr>"

definition sample_prekey :: "int \<Rightarrow> pre_key_kind \<Rightarrow> pre_key_record" where
  "sample_prekey n k = \<lparr>pk_key_id = n, pk_kind = k, pk_classical = [1], pk_pq = [2], pk_public_classical = [3],
     pk_public_pq = [4], pk_signature = [], pk_created_at = 0\<rparr>"

definition sample_prekeys :: "pre_key_record list" where
  "sample_prekeys = [sample_prekey 9 OneTime, sample_prekey 1 Signed, sample_prekey 4 OneTime]"

definition sample_prekey_tables :: tables where
  "sample_prekey_tables = empty_tables\<lparr>t_prekeys := map (\<lambda>r. (pk_key_id r, prekey_params r)) sample_prekeys\<rparr>"

lemma sample_prekey_table: "prekey_table sample_prekey_tables sample_prekeys"
  "one_time sample_prekeys = [sample_prekey 4 OneTime, sample_prekey 9 OneTime]"
  by (simp_all add: prekey_table_def sample_prekey_tables_def sample_prekeys_def sample_prekey_def one_time_def)

lemma sample_db_simps [simp]: "cn_tables (sample_db t fs) = t" "cn_saved (sample_db t fs) = None"
  "cn_faults (sample_db t fs) = fs"
  by (simp_all add: sample_db_def)

theorem take_prekey_atomic_witness:
  "\<exists>r c'. take_one_time_prekey sample_engine (sample_db sample_prekey_tables [None, Some (RollsBack \<lparr>se_code = 10, se_message = ''disk I/O error''\<rparr>)]) = (r, c') \<and>
    ((\<exists>e. r = Inl e \<and> durable c' = sample_prekey_tables) \<or> (\<exists>x. r = Inr (Some x) \<and> pk_key_id x = 4))"
proof -
  let ?c = "sample_db sample_prekey_tables [None, Some (RollsBack \<lparr>se_code = 10, se_message = ''disk I/O error''\<rparr>)]"
  obtain r c' where run: "take_one_time_prekey sample_engine ?c = (r, c')"
    by (cases "take_one_time_prekey sample_engine ?c")
  have "prekey_table (cn_tables ?c) sample_prekeys" "cn_saved ?c = None"
    by (simp_all add: sample_prekey_table)
  from take_prekey_atomic [OF this run] have
    "(\<exists>e. r = Inl e \<and> durable c' = sample_prekey_tables) \<or> (\<exists>x. r = Inr (Some x) \<and> pk_key_id x = 4)"
    by (auto simp: sample_prekey_table durable_def sample_prekey_def)
  with run show ?thesis by blast
qed

lemma run_quiet_tx:
  assumes "cn_faults c = []" "cn_saved c = None"
    and "body (c\<lparr>cn_saved := Some (cn_tables c)\<rparr>) = (Inr x, c\<lparr>cn_saved := Some (cn_tables c), cn_tables := t\<rparr>)"
  shows "with_transaction wrap body c = (Inr x, c\<lparr>cn_tables := t\<rparr>)"
proof -
  have "begin_tx c = (Inr (), c\<lparr>cn_saved := Some (cn_tables c)\<rparr>)"
    using assms(1,2) by (simp add: begin_tx_def)
  moreover have "commit_tx (c\<lparr>cn_saved := Some (cn_tables c), cn_tables := t\<rparr>) = (Inr (), c\<lparr>cn_tables := t\<rparr>)"
    using assms(1,2) by (cases c) (simp add: commit_tx_def)
  ultimately show ?thesis using assms(3) by (simp add: with_transaction_def)
qed

lemma take_quiet:
  assumes "cn_faults c = []" "cn_saved c = None" "prekey_table (cn_tables c) rs"
  shows "take_one_time_prekey E c = (case one_time rs of
      [] \<Rightarrow> (Inr None, c)
    | k # _ \<Rightarrow> (Inr (Some k), c\<lparr>cn_tables := cn_tables c\<lparr>t_prekeys := tbl_delete (pk_key_id k) (t_prekeys (cn_tables c))\<rparr>\<rparr>))"
proof -
  let ?c = "c\<lparr>cn_saved := Some (cn_tables c)\<rparr>"
  have q: "query_row stmt_first_prekey [PI64 (pre_key_kind_as_i64 OneTime)] (prekey_from_row E) ?c =
      (case map prekey_params (take 1 (one_time rs)) of
         [] \<Rightarrow> Inr None | r # _ \<Rightarrow> and_then (prekey_from_row E r) (\<lambda>x. Inr (Some x)), ?c)"
    using assms first_prekey_records [OF assms(3)] by (intro query_row_quiet) simp_all
  show ?thesis
  proof (cases "one_time rs")
    case Nil
    then have "take_prekey_body E ?c = (Inr None, ?c\<lparr>cn_tables := cn_tables c\<rparr>)"
      using q by (simp add: take_prekey_body_def lift_db_def)
    from run_quiet_tx [where body = "take_prekey_body E", OF assms(1,2) this] Nil show ?thesis by (simp add: take_one_time_prekey_def)
  next
    case (Cons k ks)
    let ?t = "cn_tables c\<lparr>t_prekeys := tbl_delete (pk_key_id k) (t_prekeys (cn_tables c))\<rparr>"
    have "execute stmt_delete_prekey [PI64 (pk_key_id k)] ?c =
        (Inr (length (t_prekeys (cn_tables c)) - length (tbl_delete (pk_key_id k) (t_prekeys (cn_tables c)))),
         ?c\<lparr>cn_tables := ?t\<rparr>)"
      using assms(1) by (simp add: execute_def run_statement_quiet)
    then have "take_prekey_body E ?c = (Inr (Some k), ?c\<lparr>cn_tables := ?t\<rparr>)"
      using q Cons by (simp add: take_prekey_body_def lift_db_def prekey_row.from_to_row)
    from run_quiet_tx [where body = "take_prekey_body E", OF assms(1,2) this] Cons show ?thesis by (simp add: take_one_time_prekey_def)
  qed
qed

lemma one_time_rest:
  assumes "distinct (map pk_key_id rs)" "one_time rs = k # ks"
  shows "one_time (filter (\<lambda>r. pk_key_id r \<noteq> pk_key_id k) rs) = ks"
proof -
  have "distinct (map pk_key_id (one_time rs))"
    using assms(1) by (auto simp: one_time_def distinct_map inj_on_def)
  then have "filter (\<lambda>r. pk_key_id r \<noteq> pk_key_id k) (one_time rs) = ks"
    using assms(2) by (auto simp: filter_id_conv image_iff)
  moreover have "one_time (filter (\<lambda>r. pk_key_id r \<noteq> pk_key_id k) rs) =
      filter (\<lambda>r. pk_key_id r \<noteq> pk_key_id k) (one_time rs)"
    by (simp add: one_time_def filter_sort conj_commute)
  ultimately show ?thesis by simp
qed

text \<open>
  One-time prekeys are handed out once each, smallest id first: any number of calls
  returns the stored one-time prekeys in the order of their ids, and then none.
\<close>

theorem take_prekeys_in_order:
  assumes "cn_faults c = []" "cn_saved c = None" "prekey_table (cn_tables c) rs"
  shows "fst (run_all (\<lambda>_. take_one_time_prekey E) (replicate n ()) c) =
    map (\<lambda>r. Inr (Some r)) (take n (one_time rs)) @ replicate (n - length (one_time rs)) (Inr None)"
  using assms
proof (induction n arbitrary: c rs)
  case 0
  then show ?case by simp
next
  case (Suc n)
  show ?case
  proof (cases "one_time rs")
    case Nil
    then show ?thesis using Suc by (simp add: take_quiet split_beta)
  next
    case (Cons k ks)
    let ?t = "cn_tables c\<lparr>t_prekeys := tbl_delete (pk_key_id k) (t_prekeys (cn_tables c))\<rparr>"
    have "one_time (filter (\<lambda>r. pk_key_id r \<noteq> pk_key_id k) rs) = ks"
      using Suc.prems(3) Cons by (intro one_time_rest) (simp_all add: prekey_table_def)
    then have "fst (run_all (\<lambda>_. take_one_time_prekey E) (replicate n ()) (c\<lparr>cn_tables := ?t\<rparr>)) =
        map (\<lambda>r. Inr (Some r)) (take n ks) @ replicate (n - length ks) (Inr None)"
      using Suc.IH [of "c\<lparr>cn_tables := ?t\<rparr>"] Suc.prems delete_records [OF Suc.prems(3), of "pk_key_id k"] by simp
    then show ?thesis using Suc.prems Cons by (simp add: take_quiet split_beta)
  qed
qed

theorem take_prekeys_in_order_witness:
  "fst (run_all (\<lambda>_. take_one_time_prekey sample_engine) (replicate 3 ()) (sample_db sample_prekey_tables [])) =
     [Inr (Some (sample_prekey 4 OneTime)), Inr (Some (sample_prekey 9 OneTime)), Inr None]"
  using take_prekeys_in_order [of "sample_db sample_prekey_tables []" sample_prekeys sample_engine 3]
  by (simp add: sample_prekey_table del: run_all.simps)

section \<open>Integrity of the database\<close>

text \<open>
  C15. Every sequence of operations, with whatever records and whatever failures of the
  engine, leaves the tables intact: primary keys and message ids are unique, sessions and
  messages belong to stored conversations, media to stored messages, no message id is
  used twice in a conversation, and the tables an open transaction would return to are
  intact as well.
\<close>

theorem store_integrity:
  assumes "conn_wf c"
  shows "conn_wf (fold (store_exec E J) ops c)"
  by (rule store_machine.run_inv [OF assms])

theorem store_integrity_witness:
  "conn_wf (fold (store_exec sample_engine sample_json)
     [OpSavePrekey (sample_prekey 3 OneTime), OpTakePrekey, OpDeleteSession ''c''] (sample_db empty_tables []))"
  by (rule store_integrity) (simp add: conn_wf_def empty_tables_wf)

section \<open>Migrations\<close>

definition migrated_tables :: tables where
  "migrated_tables = empty_tables\<lparr>t_user_version := 1, t_schema := map object_name init_schema\<rparr>"

lemma run_db_saved: "cn_saved c = None \<Longrightarrow> cn_saved (snd (run_db stmt ps c)) = None"
proof -
  assume c: "cn_saved c = None"
  obtain x c1 where e: "execute stmt ps c = (x, c1)" by (cases "execute stmt ps c")
  with saved_closed(2) [of c stmt ps] c show ?thesis by (cases x) (simp_all add: run_db_def lift_db_def)
qed

lemma run_db_ok:
  assumes "run_db stmt ps c = (Inr u, c1)" "stmt ps (cn_tables c) = ([], k, t)"
  shows "cn_tables c1 = t"
proof -
  obtain n where "execute stmt ps c = (Inr n, c1)"
    using assms(1) by (cases "execute stmt ps c"; cases "fst (execute stmt ps c)") (auto simp: run_db_def lift_db_def)
  from execute_ok [OF this assms(2)] show ?thesis .
qed

interpretation migration_tx: transactional "migration_body sql v" for sql v
proof
  fix c
  show "tx_kept (fst (migration_body sql v c)) c (snd (migration_body sql v c))"
    unfolding migration_body_def by (rule tx_kept_then) (simp_all only: lift_db_kept lift_db_snd execute_batch_kept)
qed

text \<open>A batch that returns has created all its objects.\<close>

lemma execute_inv:
  assumes "execute stmt ps c = (Inr n, c1)" "stmt ps (cn_tables c) = (os, k, t)"
  shows "cn_tables c1 = t \<and> is_ok (consume os)"
proof -
  obtain os' where run: "run_statement stmt ps c = (Inr (os', n), c1)" and ok: "is_ok (consume os')"
    using assms(1) by (auto simp: execute_def is_ok_iff split: st_splits_asm)
  from run_statement_ok [OF run] assms(2) ok show ?thesis by auto
qed

lemma create_objects:
  "execute_batch (map create_object obs) c = (Inr u, c') \<Longrightarrow>
    cn_tables c' = cn_tables c\<lparr>t_schema := t_schema (cn_tables c) @ map object_name obs\<rparr>"
proof (induction obs arbitrary: c)
  case (Cons ob obs)
  let ?t = "cn_tables c\<lparr>t_schema := t_schema (cn_tables c) @ [object_name ob]\<rparr>"
  obtain n c1 where e: "execute (create_object ob) [] c = (Inr n, c1)" and rest: "execute_batch (map create_object obs) c1 = (Inr u, c')"
    using Cons.prems by (auto split: st_splits_asm)
  obtain os k t where s: "create_object ob [] (cn_tables c) = (os, k, t)" by (cases "create_object ob [] (cn_tables c)")
  from execute_inv [OF e s] s have "cn_tables c1 = ?t"
    by (cases ob) (auto simp: sql_failure_def split: if_splits)
  with Cons.IH [OF rest] show ?case by simp
qed simp

lemma migration_body_ok:
  assumes "migration_body (map create_object obs) v c = (Inr u, c2)"
  shows "cn_tables c2 = cn_tables c\<lparr>t_user_version := v, t_schema := t_schema (cn_tables c) @ map object_name obs\<rparr>"
proof -
  let ?b = "execute_batch (map create_object obs) c"
  obtain x c1 n where b: "?b = (Inr x, c1)" "execute (stmt_set_user_version v) [] c1 = (Inr n, c2)"
    using assms by (cases ?b; cases "fst ?b") (auto simp: migration_body_def lift_db_def split: st_splits_asm prod.splits sum.splits)
  have "stmt_set_user_version v [] (cn_tables c1) = ([], 0, cn_tables c1\<lparr>t_user_version := v\<rparr>)"
    by (simp add: stmt_set_user_version_def)
  from execute_ok [OF b(2) this] create_objects [OF b(1)] show ?thesis by simp
qed

lemma migration_body_tables:
  assumes "migration_body migration_0001 1 c = (Inr u, c2)" "cn_tables c = empty_tables"
  shows "cn_tables c2 = migrated_tables"
  using migration_body_ok [OF assms(1) [unfolded migration_0001_def]] assms(2)
  by (simp add: migrated_tables_def empty_tables_def)

lemma pragma_user_version:
  assumes "lift_db (pragma_i64 E stmt_user_version c) = (Inr v, c1)"
  shows "v = t_user_version (cn_tables c) \<and> cn_tables c1 = cn_tables c"
proof -
  let ?q = "query_row stmt_user_version [] (\<lambda>row. get_i64 E row 0) c"
  obtain x where q: "?q = (Inr x, c1)" and v: "v = (case x of None \<Rightarrow> 0 | Some i \<Rightarrow> i)"
    using assms by (cases ?q; cases "fst ?q") (auto simp: pragma_i64_def lift_db_def)
  have "stmt_user_version [] (cn_tables c) = (map Row [[PI64 (t_user_version (cn_tables c))]], 0, cn_tables c)"
    by simp
  from query_row_ok [OF q this] v show ?thesis by (simp add: get_i64_def column_i64_def column_simps)
qed

lemma pragma_kept: "tx_kept (fst (lift_db (pragma_i64 E stmt_user_version c))) c (snd (lift_db (pragma_i64 E stmt_user_version c)))"
  unfolding lift_db_kept lift_db_snd pragma_i64_def by (rule tx_kept_then [OF query_row_kept]) simp

lemma query_row_tables:
  assumes "query_row stmt ps f c = (x, c1)" "stmt ps (cn_tables c) = (os, n, cn_tables c)" "cn_saved c = None"
  shows "cn_tables c1 = cn_tables c"
proof -
  obtain r where "run_statement stmt ps c = (r, c1)"
    using assms(1) by (auto simp: query_row_def split: st_splits_asm option.splits)
  from run_statement_tables [OF this] assms(2,3) show ?thesis by auto
qed

lemma pragma_tables: "cn_saved c = None \<Longrightarrow> cn_tables (snd (lift_db (pragma_i64 E stmt_user_version c))) = cn_tables c"
proof -
  assume c: "cn_saved c = None"
  let ?q = "query_row stmt_user_version [] (\<lambda>row. get_i64 E row 0) c"
  obtain x c1 where q: "?q = (x, c1)" by (cases ?q)
  have "cn_tables c1 = cn_tables c" by (rule query_row_tables [OF q _ c]) simp
  with q show ?thesis by (cases x) (simp_all add: pragma_i64_def)
qed

text \<open>
  C38. Opening a new database is atomic and repeatable: if the migrations return, the
  schema and its version are in place together; if they fail at any call of the engine,
  the database is as empty as before and the next attempt starts over.
\<close>

theorem migrations_atomic:
  assumes "cn_saved c = None" "cn_tables c = empty_tables" "run_migrations E c = (r, c')"
  shows "(\<exists>e. r = Inl e \<and> durable c' = empty_tables) \<or>
    (r = Inr () \<and> cn_saved c' = None \<and> cn_tables c' = migrated_tables)"
proof -
  obtain x c1 where q: "lift_db (pragma_i64 E stmt_user_version c) = (x, c1)"
    by (cases "lift_db (pragma_i64 E stmt_user_version c)")
  have c1: "cn_saved c1 = None" "cn_tables c1 = empty_tables"
    using tx_kept_closed [OF pragma_kept [of E c] assms(1)] pragma_tables [of c E] assms(1,2) q by simp_all
  show ?thesis
  proof (cases x)
    case (Inl e)
    then show ?thesis using q c1 assms(3) by (auto simp: run_migrations_def durable_def)
  next
    case (Inr v)
    have v: "v = 0" using pragma_user_version [OF q [unfolded Inr]] assms(2) by (simp add: empty_tables_def)
    let ?tx = "with_transaction Database (migration_body migration_0001 1) c1"
    obtain y c2 where tx: "?tx = (y, c2)" by (cases ?tx)
    have r: "r = y" "c' = c2"
      using assms(3) q Inr v tx
      by (cases y; simp add: run_migrations_def MIGRATIONS_def migration_target_def)+
    from migration_tx.atomic [OF c1(1) tx] show ?thesis
    proof (elim disjE exE conjE)
      fix e
      assume "y = Inl e" "durable c2 = durable c1"
      then show ?thesis using r c1 by (simp add: durable_def)
    next
      fix u d1 d2
      assume d: "y = Inr u" "begin_tx c1 = (Inr (), d1)" "migration_body migration_0001 1 d1 = (Inr u, d2)"
        "cn_saved c2 = None" "cn_tables c2 = cn_tables d2"
      then show ?thesis
        using r c1 migration_body_tables [OF d(3)] begin_tx_tables [OF d(2)] by simp
    qed
  qed
qed

lemma migrations_noop:
  assumes "cn_faults c = []" "t_user_version (cn_tables c) = 1"
  shows "run_migrations E c = (Inr (), c)"
proof -
  have "query_row stmt_user_version [] (\<lambda>row. get_i64 E row 0) c =
      (case [[PI64 1]] of [] \<Rightarrow> Inr None | r # _ \<Rightarrow> and_then (get_i64 E r 0) (\<lambda>x. Inr (Some x)), c)"
    using assms by (intro query_row_quiet [where n = 0]) simp_all
  then show ?thesis
    by (simp add: run_migrations_def pragma_i64_def lift_db_def get_i64_def column_i64_def column_simps
        MIGRATIONS_def migration_target_def)
qed

theorem migrations_atomic_witness:
  "\<exists>r c'. run_migrations sample_engine (sample_db empty_tables [None, None, None, None, None, Some (RollsBack \<lparr>se_code = 13, se_message = ''full''\<rparr>)]) = (r, c') \<and>
    ((\<exists>e. r = Inl e \<and> durable c' = empty_tables) \<or> (r = Inr () \<and> cn_tables c' = migrated_tables))"
proof -
  let ?c = "sample_db empty_tables [None, None, None, None, None, Some (RollsBack \<lparr>se_code = 13, se_message = ''full''\<rparr>)]"
  obtain r c' where run: "run_migrations sample_engine ?c = (r, c')" by (cases "run_migrations sample_engine ?c")
  from migrations_atomic [OF _ _ run] run show ?thesis by auto
qed

end
