(* ===== verification/Records.thy ===== *)
theory Records
  imports Storage
begin

text \<open>
  What is stored is what is loaded: identities, conversations, sessions and messages,
  read back through the typed operations of \<open>store.rs\<close>, with the constraints that refuse a
  write, and the keyset pagination of messages.
\<close>

section \<open>Identities and conversations\<close>

lemma bind_all_append: "bind_all (xs @ ys) = and_then (bind_all xs) (\<lambda>_. bind_all ys)"
  by (induction xs rule: bind_all.induct) auto

lemma bind_blob [simp]: "bind_all (param_bool b # ps) = bind_all ps" "bind_all (param_opt_i64 i # ps) = bind_all ps"
  by (auto simp: param_bool_def param_opt_i64_def split: option.split)

text \<open>A text that can be bound as a parameter.\<close>

definition plain :: "string \<Rightarrow> bool" where
  "plain s \<longleftrightarrow> NUL \<notin> set s"

lemma save_identity_quiet:
  assumes "cn_faults c = []" "plain (ir_device_id r)"
  shows "save_identity r c = (Inr (), c\<lparr>cn_tables := cn_tables c\<lparr>t_identity := Some (
    case t_identity (cn_tables c) of
      None \<Rightarrow> identity_params r
    | Some old \<Rightarrow> take 3 (identity_params r) @ drop 3 old)\<rparr>\<rparr>)"
  unfolding save_identity_def using assms
  by (intro run_db_quiet [where n = 1]) (simp_all add: identity_params_def plain_def split: option.split)

lemma load_identity_quiet:
  assumes "cn_faults c = []" "t_identity (cn_tables c) = map_option identity_params r"
  shows "load_identity E c = (Inr r, c)"
proof -
  have "query_row stmt_load_identity [] (identity_from_row E) c =
      (case (case r of None \<Rightarrow> [] | Some r \<Rightarrow> [identity_params r]) of
         [] \<Rightarrow> Inr None | r # _ \<Rightarrow> and_then (identity_from_row E r) (\<lambda>x. Inr (Some x)), c)"
    using assms by (intro query_row_quiet [where n = 0]) (simp_all split: option.split)
  then show ?thesis by (cases r) (simp_all add: load_identity_def lift_db_def identity_row.from_to_row)
qed

text \<open>
  The identity is stored once and keeps its date: after two saves the second identity
  is loaded with the creation time of the first.
\<close>

theorem identity_keeps_created_at:
  assumes "cn_faults c = []" "t_identity (cn_tables c) = None" "plain (ir_device_id r)" "plain (ir_device_id r')"
  shows "load_identity E (snd (save_identity r' (snd (save_identity r c)))) =
    (Inr (Some (r'\<lparr>ir_created_at := ir_created_at r\<rparr>)), snd (save_identity r' (snd (save_identity r c))))"
  using assms
  by (intro load_identity_quiet) (simp_all add: save_identity_quiet identity_params_def)

definition sample_identity_record :: "string \<Rightarrow> int \<Rightarrow> identity_record" where
  "sample_identity_record d t = \<lparr>ir_device_id = d, ir_classical_seed = replicate 32 1, ir_pq_seed = replicate 32 2,
     ir_created_at = t\<rparr>"

theorem identity_keeps_created_at_witness:
  "fst (load_identity sample_engine (snd (save_identity (sample_identity_record ''b'' 20)
     (snd (save_identity (sample_identity_record ''a'' 10) (sample_db migrated_tables [])))))) =
   Inr (Some (sample_identity_record ''b'' 10))"
  using identity_keeps_created_at [of "sample_db migrated_tables []" "sample_identity_record ''a'' 10"
      "sample_identity_record ''b'' 20" sample_engine]
  by (simp add: sample_identity_record_def plain_def NUL_def migrated_tables_def empty_tables_def)

section \<open>Interface: a keyed table\<close>

text \<open>What the typed operations rely on when they write a row under its key.\<close>

locale keyed_table =
  fixes put :: "'k \<Rightarrow> row \<Rightarrow> ('k \<times> row) list \<Rightarrow> ('k \<times> row) list"
    and merge :: "row option \<Rightarrow> row \<Rightarrow> row"
  assumes lookup_put: "map_of (put k r t) k' = (if k' = k then Some (merge (map_of t k) r) else map_of t k')"
begin

lemma put_put_other: "k \<noteq> k' \<Longrightarrow> map_of (put k r (put k' r' t)) = map_of (put k' r' (put k r t))"
  by (rule ext) (simp add: lookup_put)

lemma lookup_rows_put: "lookup_rows k (put k r t) = [Row (merge (map_of t k) r)]"
  by (simp add: lookup_rows_def lookup_put)

end

lemma map_of_update:
  "map_of (map (\<lambda>e. if fst e = k then (k, f (snd e)) else e) t) k' =
     (if k' = k then map_option f (map_of t k) else map_of t k')"
  by (induction t) auto

lemma map_of_append_one: "map_of (t @ [(k, r)]) k' = (case map_of t k' of None \<Rightarrow> (if k' = k then Some r else None) | v \<Rightarrow> v)"
  by (simp add: map_add_def split: option.split)

interpretation replaced: keyed_table tbl_replace "\<lambda>_ r. r"
proof
  fix k k' :: 'k and r :: row and t :: "('k \<times> row) list"
  have "map_of (tbl_delete k t) k' = (if k' = k then None else map_of t k')"
    by (induction t) (auto simp: tbl_delete_def)
  then show "map_of (tbl_replace k r t) k' = (if k' = k then Some r else map_of t k')"
    unfolding tbl_replace_def map_of_append_one by (simp split: option.split)
qed

lemma map_of_upsert:
  "map_of (tbl_upsert k r f t) k' =
     (if k' = k then Some (case map_of t k of None \<Rightarrow> r | Some old \<Rightarrow> f old) else map_of t k')"
proof (cases "map_of t k")
  case None
  then have "k \<notin> fst ` set t" by (simp add: map_of_eq_None_iff)
  then show ?thesis unfolding tbl_upsert_def by (simp add: map_of_append_one None del: map_of_append split: option.split)
next
  case (Some old)
  then have "k \<in> fst ` set t" by (metis map_of_eq_None_iff option.distinct(1))
  then show ?thesis unfolding tbl_upsert_def using map_of_update [of k f t k'] by (simp add: Some)
qed

interpretation upserted: keyed_table "\<lambda>k r. tbl_upsert k r (\<lambda>old. take n r @ drop n old)"
    "\<lambda>old r. case old of None \<Rightarrow> r | Some o' \<Rightarrow> take n r @ drop n o'" for n
  by unfold_locales (rule map_of_upsert)

interpretation overwritten: keyed_table "\<lambda>k r. tbl_upsert k r (\<lambda>_. r)" "\<lambda>_ r. r"
  by unfold_locales (simp add: map_of_upsert split: option.split)

section \<open>Sessions\<close>

definition ss_wf :: "session_state \<Rightarrow> bool" where
  "ss_wf s \<longleftrightarrow> sk_wf (ss_session_keys s) \<and> (case ss_ratchet s of None \<Rightarrow> True | Some r \<Rightarrow> rs_wf r)"

text \<open>The texts of the two JSON columns, and that they parse to the session they came from.\<close>

lemma session_texts:
  assumes "json_law J" "json_nul_free J" "ss_wf s"
  shows "\<exists>keys snap. to_string J session_keys_to_json (ss_session_keys s) = Inr keys \<and> plain keys \<and>
    transpose_opt (to_string J ratchet_snapshot_to_json) (ss_ratchet s) = Inr snap \<and>
    (case snap of None \<Rightarrow> True | Some t \<Rightarrow> plain t) \<and>
    session_from_text J (ss_is_initiator s, keys, snap, ss_last_used s) = Inr s"
proof -
  obtain keys where keys: "to_string J session_keys_to_json (ss_session_keys s) = Inr keys" "plain keys"
      "from_str J session_keys_of_json keys = Inr (ss_session_keys s)"
    using sk_json.string_roundtrip [OF assms(1,2), of "ss_session_keys s"] assms(3)
    by (auto simp: ss_wf_def plain_def NUL_def)
  show ?thesis
  proof (cases "ss_ratchet s")
    case None
    with keys show ?thesis by (auto simp: session_from_text_def)
  next
    case (Some r)
    obtain t where "to_string J ratchet_snapshot_to_json r = Inr t" "plain t"
        "from_str J ratchet_snapshot_of_json t = Inr r"
      using rs_json.string_roundtrip [OF assms(1,2), of r] assms(3) Some by (auto simp: ss_wf_def plain_def NUL_def)
    with keys Some show ?thesis by (auto simp: session_from_text_def)
  qed
qed

text \<open>What the decoding of a session row returns.\<close>

definition session_of_cols :: "column_engine \<Rightarrow> json_text \<Rightarrow> row \<Rightarrow> session_state option storage_result" where
  "session_of_cols E J cols =
     and_then (map_err Database (session_row E cols)) (\<lambda>x. and_then (session_from_text J x) (\<lambda>s. Inr (Some s)))"

lemma save_session_cols:
  assumes "json_law J" "json_nul_free J" "ss_wf s" "plain cid"
  shows "\<exists>cols. save_session J cid s = run_db stmt_save_session (PText cid # cols) \<and>
    bind_all (PText cid # cols) = Inr () \<and> (\<forall>E. session_of_cols E J cols = Inr (Some s))"
proof -
  obtain keys snap where t: "to_string J session_keys_to_json (ss_session_keys s) = Inr keys" "plain keys"
      "transpose_opt (to_string J ratchet_snapshot_to_json) (ss_ratchet s) = Inr snap"
      "case snap of None \<Rightarrow> True | Some t \<Rightarrow> plain t"
      "session_from_text J (ss_is_initiator s, keys, snap, ss_last_used s) = Inr s"
    using session_texts [OF assms(1-3)] by blast
  let ?cols = "[param_bool (ss_is_initiator s), PText keys, param_opt_text snap, PI64 (ss_last_used s)]"
  have "bind_all (PText cid # ?cols) = Inr ()"
    using t(2,4) assms(4) by (cases snap) (simp_all add: plain_def param_opt_text_def)
  moreover have "session_row E ?cols = Inr (ss_is_initiator s, keys, snap, ss_last_used s)" for E
    by (simp add: session_row_def column_simps)
  moreover have "save_session J cid s = run_db stmt_save_session (PText cid # ?cols)"
    using t(1,3) by (intro ext) (simp add: save_session_def)
  ultimately show ?thesis using t(5) by (intro exI [of _ ?cols]) (simp add: session_of_cols_def)
qed

definition session_key_known :: "string \<Rightarrow> tables \<Rightarrow> bool" where
  "session_key_known cid t \<longleftrightarrow> cid \<in> fst ` set (t_sessions t) \<or> cid \<in> fst ` set (t_conversations t)"

lemma load_session_quiet:
  assumes "cn_faults c = []" "plain cid"
  shows "load_session E J cid c =
    (case map_of (t_sessions (cn_tables c)) cid of
       None \<Rightarrow> Inr None
     | Some r \<Rightarrow> session_of_cols E J (drop 1 r), c)"
proof -
  have q: "query_row stmt_load_session [PText cid] (session_row E) c =
      (case (case map_of (t_sessions (cn_tables c)) cid of None \<Rightarrow> [] | Some r \<Rightarrow> [drop 1 r]) of
         [] \<Rightarrow> Inr None | r # _ \<Rightarrow> and_then (session_row E r) (\<lambda>x. Inr (Some x)), c)"
    using assms by (intro query_row_quiet [where n = 0]) (simp_all add: plain_def split: option.split)
  show ?thesis
  proof (cases "map_of (t_sessions (cn_tables c)) cid")
    case None
    with q show ?thesis by (simp add: load_session_def lift_db_def)
  next
    case (Some r)
    with q show ?thesis
      by (cases "session_row E (drop 1 r)") (simp_all add: load_session_def lift_db_def session_of_cols_def)
  qed
qed

text \<open>
  A session is loaded as it was saved, whatever else the database holds and whichever
  session was stored before, and the sessions of other conversations are not affected.
\<close>

lemma session_save_load:
  assumes "json_law J" "json_nul_free J" "ss_wf s" "cn_faults c = []" "plain cid" "plain cid'"
    and "session_key_known cid (cn_tables c)"
  shows "\<exists>c'. save_session J cid s c = (Inr (), c') \<and> load_session E J cid c' = (Inr (Some s), c') \<and>
    (cid' = cid \<or> fst (load_session E J cid' c') = fst (load_session E J cid' c))"
proof -
  obtain cols where cols: "save_session J cid s = run_db stmt_save_session (PText cid # cols)"
      "bind_all (PText cid # cols) = Inr ()" "\<forall>E. session_of_cols E J cols = Inr (Some s)"
    using save_session_cols [OF assms(1-3,5)] by blast
  let ?t = "tbl_upsert cid (PText cid # cols) (\<lambda>_. PText cid # cols) (t_sessions (cn_tables c))"
  have "save_session J cid s c = (Inr (), c\<lparr>cn_tables := cn_tables c\<lparr>t_sessions := ?t\<rparr>\<rparr>)"
    unfolding cols(1) using assms(7) by (intro run_db_quiet [OF assms(4) cols(2)]) (simp add: session_key_known_def)
  then show ?thesis
    using assms(4-6) cols(3) by (simp add: load_session_quiet overwritten.lookup_put)
qed

definition sample_session_state :: session_state where
  "sample_session_state =
     \<lparr>ss_is_initiator = False,
      ss_session_keys = \<lparr>sk_is_initiator = False, sk_root_key = replicate 32 1, sk_sending_chain = replicate 32 2,
        sk_receiving_chain = replicate 32 3, sk_peer_identity = identity_public sample_prims (sample_identity 2),
        sk_message_count = 4\<rparr>,
      ss_ratchet = Some (from_ratchet (sample_receiver (1, [0]))), ss_last_used = 5\<rparr>"

lemma sample_session_state_wf: "ss_wf sample_session_state"
  using from_ratchet_wf [OF sample_receiver_wf] identity_public_wf [OF sample_identity_laws(1,3)]
  by (simp add: ss_wf_def sample_session_state_def sk_wf_def)

definition sample_conversation :: conversation_record where
  "sample_conversation = \<lparr>cv_id = ''dev-b'', cv_peer_classical = [1], cv_peer_pq = [2], cv_is_group = False, cv_created_at = 9\<rparr>"

definition sample_chat_db :: db where
  "sample_chat_db = sample_db (migrated_tables\<lparr>t_conversations := [(''dev-b'', conversation_params sample_conversation)]\<rparr>) []"

text \<open>
  Without a conversation row (or an earlier session) the foreign key refuses a session:
  the caller gets the constraint error and the database is unchanged.
\<close>

theorem session_needs_conversation:
  assumes "json_law J" "json_nul_free J" "ss_wf s" "cn_faults c = []" "plain cid"
    and "\<not> session_key_known cid (cn_tables c)"
  shows "save_session J cid s c =
    (Inl (Database \<lparr>se_code = SQLITE_CONSTRAINT, se_message = ''FOREIGN KEY constraint failed''\<rparr>), c)"
proof -
  obtain cols where cols: "save_session J cid s = run_db stmt_save_session (PText cid # cols)"
      "bind_all (PText cid # cols) = Inr ()"
    using save_session_cols [OF assms(1-3,5)] by blast
  show ?thesis
    unfolding cols(1) using assms(6)
    by (intro run_db_refused [OF assms(4) cols(2)]) (simp add: session_key_known_def constraint_def)
qed

theorem session_needs_conversation_witness:
  "save_session sample_json ''dev-a'' sample_session_state sample_chat_db =
    (Inl (Database \<lparr>se_code = SQLITE_CONSTRAINT, se_message = ''FOREIGN KEY constraint failed''\<rparr>), sample_chat_db)"
  by (rule session_needs_conversation [OF sample_json_law sample_json_nul_free sample_session_state_wf])
    (simp_all add: sample_chat_db_def sample_db_def plain_def NUL_def session_key_known_def migrated_tables_def empty_tables_def)

section \<open>Messages\<close>

text \<open>The message table as the records it holds: ids ascending and at most the sequence.\<close>

definition message_rows :: "message_record list \<Rightarrow> (int \<times> row) list" where
  "message_rows ms = map (\<lambda>m. (mr_id m, PI64 (mr_id m) # message_params m)) ms"

definition message_table :: "tables \<Rightarrow> message_record list \<Rightarrow> bool" where
  "message_table t ms \<longleftrightarrow> t_messages t = message_rows ms \<and> sorted_wrt (<) (map mr_id ms) \<and>
     (\<forall>m\<in>set ms. mr_id m \<le> t_message_seq t)"

text \<open>The reference: one conversation, newest first, from before a message on.\<close>

definition history :: "string \<Rightarrow> int option \<Rightarrow> message_record list \<Rightarrow> message_record list" where
  "history cid before ms =
     filter (\<lambda>m. case before of None \<Rightarrow> True | Some b \<Rightarrow> mr_id m < b)
       (rev (filter (\<lambda>m. mr_conversation_id m = cid) ms))"

lemma insort_key_last: "(\<And>z. z \<in> set zs \<Longrightarrow> g z < g x) \<Longrightarrow> insort_key g x zs = zs @ [x]"
  by (induction zs) (auto simp: not_le [symmetric])

lemma sort_descending: "sorted_wrt (<) (map f xs) \<Longrightarrow> sort_key (\<lambda>x. - f x :: int) xs = rev xs"
proof (induction xs)
  case (Cons x xs)
  then have "insort_key (\<lambda>x. - f x) x (rev xs) = rev xs @ [x]" by (intro insort_key_last) auto
  with Cons show ?case by simp
qed simp

lemma message_params_columns [simp]:
  "column (PI64 i # message_params m) (Suc 0) = PText (mr_conversation_id m)"
  "column (PI64 i # message_params m) 2 = PBlob (mr_message_id m)"
  by (simp_all add: message_params_def column_simps)

lemma list_messages_history:
  assumes "cn_faults c = []" "plain cid" "message_table (cn_tables c) ms"
  shows "list_messages E cid before limit c = (Inr (sql_limit limit (history cid before ms)), c)"
proof -
  let ?sel = "\<lambda>m. mr_conversation_id m = cid \<and> (case before of None \<Rightarrow> True | Some b \<Rightarrow> mr_id m < b)"
  let ?row = "\<lambda>m. (mr_id m, PI64 (mr_id m) # message_params m)"
  have "filter (\<lambda>e. column (snd e) 1 = PText cid \<and>
      (case param_opt_i64 before of PI64 b \<Rightarrow> fst e < b | _ \<Rightarrow> param_opt_i64 before = PNull)) (message_rows ms) =
      map ?row (filter ?sel ms)"
    by (cases before) (simp_all add: message_rows_def filter_map comp_def param_opt_i64_def)
  moreover have "sort_key (\<lambda>e. - fst e) (map ?row (filter ?sel ms)) = map ?row (rev (filter ?sel ms))"
    using assms(3) sort_descending [of fst "map ?row (filter ?sel ms)"]
    by (simp add: message_table_def comp_def sorted_wrt_map sorted_wrt_filter rev_map)
  ultimately have "stmt_list_messages [PText cid, param_opt_i64 before, PI64 limit] (cn_tables c) =
      (map (\<lambda>m. Row (PI64 (mr_id m) # message_params m)) (sql_limit limit (rev (filter ?sel ms))), 0, cn_tables c)"
    using assms(3) by (simp add: message_table_def sql_limit_def take_map comp_def)
  moreover have "bind_all [PText cid, param_opt_i64 before, PI64 limit] = Inr ()"
    using assms(2) by (simp add: plain_def)
  ultimately have "query_rows stmt_list_messages [PText cid, param_opt_i64 before, PI64 limit] (message_from_row E) c =
      (Inr (sql_limit limit (rev (filter ?sel ms))), c)"
    by (simp add: query_rows_quiet [OF assms(1)] message_row.read_all)
  moreover have "rev (filter ?sel ms) = history cid before ms"
    by (simp add: history_def rev_filter conj_commute filter_filter)
  ultimately show ?thesis by (simp add: list_messages_def lift_db_def)
qed

lemma history_descending:
  assumes "message_table t ms"
  shows "sorted_wrt (\<lambda>m m'. mr_id m' < mr_id m) (history cid before ms)"
  using assms by (simp add: message_table_def history_def sorted_wrt_map sorted_wrt_rev sorted_wrt_filter)

lemma descending_split:
  assumes "sorted_wrt (\<lambda>m m'. f m' < (f m :: int)) xs" "0 < n" "n \<le> length xs"
  shows "filter (\<lambda>m. f m < f (xs ! (n - 1))) xs = drop n xs"
proof -
  let ?P = "\<lambda>m. f m < f (xs ! (n - 1))"
  have desc: "f (xs ! j) < f (xs ! i)" if "i < j" "j < length xs" for i j
    using sorted_wrt_nth_less [OF assms(1) that] .
  have "\<not> ?P (xs ! i)" if "i < n" for i
  proof (cases "i = n - 1")
    case False
    with that have "i < n - 1" by simp
    then have "f (xs ! (n - 1)) < f (xs ! i)" using assms(2,3) by (intro desc) simp_all
    then show ?thesis by simp
  qed simp
  then have "filter ?P (take n xs) = []"
    using assms(3) by (auto simp: filter_empty_conv in_set_conv_nth)
  moreover have "?P (xs ! j)" if "n \<le> j" "j < length xs" for j
    using that assms(2) by (intro desc) simp_all
  then have "filter ?P (drop n xs) = drop n xs"
    by (auto simp: filter_id_conv in_set_conv_nth)
  ultimately show ?thesis by (metis append_Nil append_take_drop_id filter_append)
qed

text \<open>
  C16. Keyset pagination is equivalent to one query: when a first page of \<open>n\<close> messages is
  full, asking for \<open>m\<close> more before its last message gives exactly the continuation of the
  list that one query for \<open>n + m\<close> returns; no message is repeated or left out.
\<close>

theorem pagination_equivalent:
  assumes "cn_faults c = []" "plain cid" "message_table (cn_tables c) ms"
    and "list_messages E cid None (int n) c = (Inr page, c)" "length page = n" "0 < n"
  shows "\<exists>rest. list_messages E cid (Some (mr_id (last page))) (int m) c = (Inr rest, c) \<and>
    list_messages E cid None (int (n + m)) c = (Inr (page @ rest), c)"
proof -
  let ?h = "history cid None ms"
  have page: "page = take n ?h" using assms(4) by (simp add: list_messages_history [OF assms(1-3)] sql_limit_def)
  with assms(5) have n: "n \<le> length ?h" by simp
  then have "last page = ?h ! (n - 1)" using page assms(5,6) by (subst last_conv_nth) auto
  moreover have "history cid (Some b) ms = filter (\<lambda>m. mr_id m < b) ?h" for b by (simp add: history_def)
  ultimately have "history cid (Some (mr_id (last page))) ms = drop n ?h"
    using descending_split [OF history_descending [OF assms(3)] assms(6) n] by simp
  then show ?thesis
    using page by (simp add: list_messages_history [OF assms(1-3)] sql_limit_def take_add nat_int_add)
qed

definition sample_message :: "int \<Rightarrow> byte \<Rightarrow> message_record" where
  "sample_message i b = \<lparr>mr_id = i, mr_conversation_id = ''dev-b'', mr_message_id = [b], mr_sender_classical = [1],
     mr_ciphertext = [b, b], mr_header = ''{}'', mr_content_type = 0, mr_direction = Outgoing, mr_status = Sent,
     mr_created_at = 7\<rparr>"

definition sample_messages :: "message_record list" where
  "sample_messages = [sample_message 1 10, sample_message 2 20, sample_message 4 40]"

definition sample_message_db :: db where
  "sample_message_db = sample_db (migrated_tables\<lparr>t_messages := message_rows sample_messages, t_message_seq := 4,
     t_conversations := [(''dev-b'', conversation_params sample_conversation)]\<rparr>) []"

lemma sample_message_db:
  "cn_faults sample_message_db = []" "message_table (cn_tables sample_message_db) sample_messages" "plain ''dev-b''"
  by (simp_all add: sample_message_db_def sample_db_def message_table_def sample_messages_def sample_message_def
      plain_def NUL_def)

theorem pagination_equivalent_witness:
  "\<exists>rest. list_messages sample_engine ''dev-b'' (Some 2) (int 5) sample_message_db = (Inr rest, sample_message_db) \<and>
    list_messages sample_engine ''dev-b'' None (int (2 + 5)) sample_message_db =
      (Inr ([sample_message 4 40, sample_message 2 20] @ rest), sample_message_db)"
proof -
  have h: "history ''dev-b'' None sample_messages = [sample_message 4 40, sample_message 2 20, sample_message 1 10]"
    by (simp add: history_def sample_messages_def sample_message_def)
  have "list_messages sample_engine ''dev-b'' None (int 2) sample_message_db =
      (Inr [sample_message 4 40, sample_message 2 20], sample_message_db)"
    by (simp add: list_messages_history [OF sample_message_db(1,3,2)] h sql_limit_def)
  from pagination_equivalent [OF sample_message_db(1,3,2) this, of 5] show ?thesis
    by (simp add: sample_message_def)
qed

text \<open>
  C17. Inserting a message: it is refused, with the database unchanged, when the conversation
  already has a message with its id or when there is no such conversation; otherwise it
  gets a fresh row id, above all others, and is the newest message of its conversation.
\<close>

theorem insert_message_outcome:
  assumes "cn_faults c = []" "message_table (cn_tables c) ms" "t_message_seq (cn_tables c) \<noteq> MAX_ROWID"
    and "plain (mr_conversation_id r)" "plain (mr_header r)"
  defines "taken \<equiv> list_ex (\<lambda>m. mr_conversation_id m = mr_conversation_id r \<and> mr_message_id m = mr_message_id r) ms"
    and "known \<equiv> mr_conversation_id r \<in> fst ` set (t_conversations (cn_tables c))"
    and "rid \<equiv> t_message_seq (cn_tables c) + 1"
  shows "if taken \<or> \<not> known
    then \<exists>msg. insert_message r c = (Inl (Database \<lparr>se_code = SQLITE_CONSTRAINT, se_message = msg\<rparr>), c)
    else \<exists>c'. insert_message r c = (Inr rid, c') \<and> message_table (cn_tables c') (ms @ [r\<lparr>mr_id := rid\<rparr>]) \<and>
      list_messages E (mr_conversation_id r) None 1 c' = (Inr [r\<lparr>mr_id := rid\<rparr>], c')"
proof -
  let ?t = "cn_tables c"
  have bind: "bind_all (message_params r) = Inr ()"
    using assms(4,5) by (simp add: message_params_def plain_def)
  have taken: "list_ex (\<lambda>e. column (snd e) 1 = PText (mr_conversation_id r) \<and> column (snd e) 2 = PBlob (mr_message_id r))
      (t_messages ?t) = taken"
    using assms(2) by (simp add: message_table_def message_rows_def taken_def list_ex_iff)
  show ?thesis
  proof (cases "taken \<or> \<not> known")
    case True
    then obtain msg where "stmt_insert_message (message_params r) ?t = ([constraint msg], 0, ?t)"
      using taken assms(3) by (cases taken) (auto simp: message_params_def known_def)
    then have "run_db stmt_insert_message (message_params r) c =
        (Inl (Database \<lparr>se_code = SQLITE_CONSTRAINT, se_message = msg\<rparr>), c)"
      by (intro run_db_refused [OF assms(1) bind]) (simp add: constraint_def)
    with True show ?thesis by (simp add: insert_message_def)
  next
    case False
    let ?t' = "?t\<lparr>t_messages := t_messages ?t @ [(rid, PI64 rid # message_params r)], t_message_seq := rid, t_last_rowid := rid\<rparr>"
    let ?c' = "c\<lparr>cn_tables := ?t'\<rparr>"
    have "stmt_insert_message (message_params r) ?t = ([], 1, ?t')"
      using False taken assms(3) by (simp add: message_params_def known_def rid_def Let_def)
    then have "run_db stmt_insert_message (message_params r) c = (Inr (), ?c')"
      by (rule run_db_quiet [OF assms(1) bind])
    then have ins: "insert_message r c = (Inr rid, ?c')" by (simp add: insert_message_def)
    have table: "message_table (cn_tables ?c') (ms @ [r\<lparr>mr_id := rid\<rparr>])"
      using assms(2) by (auto simp: message_table_def message_rows_def rid_def message_params_def sorted_wrt_append)
    have "history (mr_conversation_id r) None (ms @ [r\<lparr>mr_id := rid\<rparr>]) =
        r\<lparr>mr_id := rid\<rparr> # history (mr_conversation_id r) None ms"
      by (simp add: history_def)
    then have "list_messages E (mr_conversation_id r) None 1 ?c' = (Inr [r\<lparr>mr_id := rid\<rparr>], ?c')"
      using assms(1) by (simp add: list_messages_history [OF _ assms(4) table] sql_limit_def)
    with ins table False show ?thesis by auto
  qed
qed

theorem insert_message_outcome_witness:
  "\<exists>c'. insert_message (sample_message 0 50) sample_message_db = (Inr 5, c') \<and>
    list_messages sample_engine ''dev-b'' None 1 c' = (Inr [sample_message 5 50], c')"
  using insert_message_outcome [OF sample_message_db(1,2), of "sample_message 0 50" sample_engine]
  by (auto simp: sample_message_db_def sample_db_def sample_messages_def sample_message_def plain_def NUL_def MAX_ROWID_def)

end
