(* ===== verification/Crdt.thy ===== *)
theory Crdt
  imports Records "HOL-Library.Product_Lexorder" "HOL-Library.Char_ord"
begin

text \<open>
  The CRDT documents of \<open>presidium-storage/src/crdt.rs\<close>. The library behind them (yrs) is
  not part of the repository: its documents, updates and functions are a parameter, and what
  the code relies on is stated by \<open>yrs_laws\<close>: the update that a document exports
  decodes and can be applied to any document, applying it unites what the two documents
  have seen, and documents that have seen the same have the same text.
\<close>

section \<open>Documents\<close>

record ('d, 'u) yrs =
  y_new :: 'd
  y_decode :: "bytes \<Rightarrow> string + 'u"
  y_apply :: "'u \<Rightarrow> 'd \<Rightarrow> (string + unit) \<times> 'd"
  y_encode :: "'d \<Rightarrow> bytes"
  y_len :: "'d \<Rightarrow> nat"
  y_insert :: "nat \<Rightarrow> string \<Rightarrow> 'd \<Rightarrow> 'd"
  y_string :: "'d \<Rightarrow> string"

record 'd crdt_document =
  cd_id :: string
  cd_doc :: 'd

definition crdt_new :: "('d, 'u) yrs \<Rightarrow> string \<Rightarrow> 'd crdt_document" where
  "crdt_new Y i = \<lparr>cd_id = i, cd_doc = y_new Y\<rparr>"

text \<open>\<open>import\<close>: decode, then apply; the document changes only by what applying does.\<close>

definition crdt_import ::
    "('d, 'u) yrs \<Rightarrow> bytes \<Rightarrow> 'd crdt_document \<Rightarrow> unit storage_result \<times> 'd crdt_document"
where
  "crdt_import Y bs d =
     try_st (map_err (\<lambda>e. Crdt (''update decode: '' @ e)) (y_decode Y bs)) d (\<lambda>u.
     case y_apply Y u (cd_doc d) of (r, doc) \<Rightarrow>
       (map_err (\<lambda>e. Crdt (''update apply: '' @ e)) r, d\<lparr>cd_doc := doc\<rparr>))"

definition crdt_from_bytes :: "('d, 'u) yrs \<Rightarrow> string \<Rightarrow> bytes \<Rightarrow> 'd crdt_document storage_result" where
  "crdt_from_bytes Y i bs =
    (case crdt_import Y bs (crdt_new Y i) of
       (Inl e, _) \<Rightarrow> Inl e
     | (Inr _, d) \<Rightarrow> Inr d)"

definition crdt_append_text :: "('d, 'u) yrs \<Rightarrow> string \<Rightarrow> 'd crdt_document \<Rightarrow> 'd crdt_document" where
  "crdt_append_text Y s d = d\<lparr>cd_doc := y_insert Y (y_len Y (cd_doc d)) s (cd_doc d)\<rparr>"

definition crdt_text :: "('d, 'u) yrs \<Rightarrow> 'd crdt_document \<Rightarrow> string" where
  "crdt_text Y d = y_string Y (cd_doc d)"

definition crdt_len :: "('d, 'u) yrs \<Rightarrow> 'd crdt_document \<Rightarrow> nat" where
  "crdt_len Y d = y_len Y (cd_doc d)"

definition crdt_is_empty :: "('d, 'u) yrs \<Rightarrow> 'd crdt_document \<Rightarrow> bool" where
  "crdt_is_empty Y d \<longleftrightarrow> crdt_len Y d = 0"

definition crdt_export :: "('d, 'u) yrs \<Rightarrow> 'd crdt_document \<Rightarrow> bytes" where
  "crdt_export Y d = y_encode Y (cd_doc d)"

definition crdt_merge_from ::
    "('d, 'u) yrs \<Rightarrow> 'd crdt_document \<Rightarrow> 'd crdt_document \<Rightarrow> unit storage_result \<times> 'd crdt_document"
where
  "crdt_merge_from Y other d = crdt_import Y (crdt_export Y other) d"

text \<open>\<open>sync\<close> on two replicas: both exports are taken before either import.\<close>

definition crdt_sync ::
    "('d, 'u) yrs \<Rightarrow> 'd crdt_document \<Rightarrow> 'd crdt_document \<Rightarrow>
      unit storage_result \<times> 'd crdt_document \<times> 'd crdt_document"
where
  "crdt_sync Y a b =
    (let update_a = crdt_export Y a; update_b = crdt_export Y b in
     case crdt_import Y update_b a of
       (Inl e, a1) \<Rightarrow> (Inl e, a1, b)
     | (Inr _, a1) \<Rightarrow> (case crdt_import Y update_a b of (r, b1) \<Rightarrow> (r, a1, b1)))"

section \<open>What the code relies on\<close>

definition yrs_laws :: "('d, 'u) yrs \<Rightarrow> ('d \<Rightarrow> 'o set) \<Rightarrow> bool" where
  "yrs_laws Y seen \<longleftrightarrow> seen (y_new Y) = {} \<and>
     (\<forall>d. \<exists>u. y_decode Y (y_encode Y d) = Inr u \<and>
        (\<forall>e. \<exists>e'. y_apply Y u e = (Inr (), e') \<and> seen e' = seen e \<union> seen d)) \<and>
     (\<forall>d e. seen d = seen e \<longrightarrow> y_string Y d = y_string Y e)"

section \<open>Interface: replicas that merge\<close>

text \<open>A merge that unites what two replicas have seen, and a view that depends on that alone.\<close>

locale replica =
  fixes merge :: "'u \<Rightarrow> 'r \<Rightarrow> 'e \<times> 'r"
    and seen :: "'r \<Rightarrow> 'o set"
    and carries :: "'u \<Rightarrow> 'o set"
    and good :: "'u \<Rightarrow> bool"
    and ok :: 'e
    and view :: "'r \<Rightarrow> 'v"
    and law :: bool
  assumes merge_seen: "law \<Longrightarrow> good u \<Longrightarrow> fst (merge u r) = ok \<and> seen (snd (merge u r)) = seen r \<union> carries u"
    and view_seen: "law \<Longrightarrow> seen r = seen r' \<Longrightarrow> view r = view r'"
begin

lemma merge_all:
  assumes law "\<And>u. u \<in> set us \<Longrightarrow> good u"
  shows "fst (run_all merge us r) = replicate (length us) ok \<and>
    seen (snd (run_all merge us r)) = seen r \<union> \<Union> (carries ` set us)"
  using assms
proof (induction us arbitrary: r)
  case (Cons u us)
  obtain e r1 where m: "merge u r = (e, r1)" by (cases "merge u r")
  obtain es r2 where ms: "run_all merge us r1 = (es, r2)" by (cases "run_all merge us r1")
  from m merge_seen [OF assms(1), of u r] Cons.prems have "e = ok" "seen r1 = seen r \<union> carries u" by auto
  with m ms Cons.IH [of r1] Cons.prems show ?case by (auto simp: Un_assoc)
qed simp

lemma order_irrelevant:
  assumes law "\<And>u. u \<in> set us \<union> set vs \<Longrightarrow> good u" "set us = set vs"
  shows "view (snd (run_all merge us r)) = view (snd (run_all merge vs r))"
proof (rule view_seen [OF assms(1)])
  have "seen (snd (run_all merge us r)) = seen r \<union> \<Union> (carries ` set us)"
    "seen (snd (run_all merge vs r)) = seen r \<union> \<Union> (carries ` set vs)"
    using merge_all [OF assms(1)] assms(2) by auto
  with assms(3) show "seen (snd (run_all merge us r)) = seen (snd (run_all merge vs r))" by simp
qed

end

definition exported :: "('d, 'u) yrs \<Rightarrow> bytes \<Rightarrow> bool" where
  "exported Y bs \<longleftrightarrow> bs \<in> range (y_encode Y)"

text \<open>What an exported update carries, read off a document it brings up to date.\<close>

definition update_seen :: "('d, 'u) yrs \<Rightarrow> ('d \<Rightarrow> 'o set) \<Rightarrow> bytes \<Rightarrow> 'o set" where
  "update_seen Y seen bs = seen (cd_doc (snd (crdt_import Y bs (crdt_new Y []))))"

lemma crdt_import_export:
  assumes "yrs_laws Y seen"
  shows "fst (crdt_import Y (y_encode Y e) d) = Inr ()"
    and "seen (cd_doc (snd (crdt_import Y (y_encode Y e) d))) = seen (cd_doc d) \<union> seen e"
    and "cd_id (snd (crdt_import Y (y_encode Y e) d)) = cd_id d"
proof -
  obtain u where u: "y_decode Y (y_encode Y e) = Inr u"
      "\<forall>x. \<exists>x'. y_apply Y u x = (Inr (), x') \<and> seen x' = seen x \<union> seen e"
    using assms unfolding yrs_laws_def by blast
  then obtain x' where "y_apply Y u (cd_doc d) = (Inr (), x')" "seen x' = seen (cd_doc d) \<union> seen e" by blast
  with u(1) show "fst (crdt_import Y (y_encode Y e) d) = Inr ()"
    "seen (cd_doc (snd (crdt_import Y (y_encode Y e) d))) = seen (cd_doc d) \<union> seen e"
    "cd_id (snd (crdt_import Y (y_encode Y e) d)) = cd_id d"
    by (simp_all add: crdt_import_def)
qed

interpretation crdt: replica "crdt_import Y" "\<lambda>d. seen (cd_doc d)" "update_seen Y seen" "exported Y" "Inr ()"
    "crdt_text Y" "yrs_laws Y seen" for Y seen
proof (unfold_locales, goal_cases)
  case (1 bs d)
  then obtain e where "bs = y_encode Y e" by (auto simp: exported_def)
  moreover have "seen (y_new Y) = {}" using 1 by (simp add: yrs_laws_def)
  ultimately show ?case
    using crdt_import_export [OF 1(1), of e] by (simp add: update_seen_def crdt_new_def)
next
  case (2 d d')
  then show ?case unfolding yrs_laws_def crdt_text_def by blast
qed

lemma update_seen_export:
  assumes "yrs_laws Y seen"
  shows "update_seen Y seen (y_encode Y e) = seen e"
proof -
  have "seen (y_new Y) = {}" using assms unfolding yrs_laws_def by blast
  then show ?thesis using crdt_import_export(2) [OF assms] by (simp add: update_seen_def crdt_new_def)
qed

section \<open>A concrete library\<close>

text \<open>
  Documents as lists of numbered characters, shown in the order of their numbers; an update
  is such a list, written with each number in unary.
\<close>

fun sample_encode :: "(nat \<times> char) list \<Rightarrow> bytes" where
  "sample_encode [] = []"
| "sample_encode ((n, ch) # d) = replicate n 1 @ 0 # of_char ch # sample_encode d"

fun sample_decode :: "nat \<Rightarrow> bytes \<Rightarrow> (nat \<times> char) list" where
  "sample_decode n [] = []"
| "sample_decode n [b] = []"
| "sample_decode n (b # b' # bs) =
     (if b = 1 then sample_decode (Suc n) (b' # bs) else (n, char_of (unat b')) # sample_decode 0 bs)"

definition sample_text :: "(nat \<times> char) list \<Rightarrow> string" where
  "sample_text d = map snd (sorted_list_of_set (set d))"

definition sample_next :: "(nat \<times> char) list \<Rightarrow> nat" where
  "sample_next d = Suc (Max (insert 0 (fst ` set d)))"

definition sample_yrs :: "((nat \<times> char) list, (nat \<times> char) list) yrs" where
  "sample_yrs = \<lparr>y_new = [], y_decode = (\<lambda>bs. Inr (sample_decode 0 bs)), y_apply = (\<lambda>u d. (Inr (), d @ u)),
     y_encode = sample_encode, y_len = (\<lambda>d. length (sample_text d)),
     y_insert = (\<lambda>i s d. d @ zip [sample_next d..<sample_next d + length s] s), y_string = sample_text\<rparr>"

lemma sample_decode_unary:
  "sample_decode k (replicate n 1 @ 0 # x # bs) = (k + n, char_of (unat x)) # sample_decode 0 bs"
proof (induction n arbitrary: k)
  case (Suc n)
  have "sample_decode k (1 # (replicate n 1 @ 0 # x # bs)) = sample_decode (Suc k) (replicate n 1 @ 0 # x # bs)"
    by (cases n) simp_all
  with Suc show ?case by simp
qed simp

lemma sample_decode_encode: "sample_decode 0 (sample_encode d) = d"
proof (induction d rule: sample_encode.induct)
  case (2 n ch d)
  have "char_of (unat (of_char ch :: byte)) = ch"
    using string_of_bytes_bstr [of "[ch]"] by (simp add: string_of_bytes_def bstr_def)
  with 2 show ?case by (simp add: sample_decode_unary)
qed simp

lemma sample_yrs_laws: "yrs_laws sample_yrs set"
  by (simp add: yrs_laws_def sample_yrs_def sample_decode_encode sample_text_def)

section \<open>Properties\<close>

text \<open>
  C22. Replicas converge whatever the order of delivery: two replicas of a document that
  import the exports of the same other documents, in any two orders and with any repetitions, accept
  all of them; both have then seen exactly what the document and the others had seen, nothing less and nothing
  more, and they show the same text, which is the text of every document that has seen just that.
\<close>

theorem crdt_import_order:
  assumes "yrs_laws Y seen" "set os = set ps"
    and "us = map (crdt_export Y) os" "vs = map (crdt_export Y) ps"
  shows "\<exists>d1 d2. run_all (crdt_import Y) us d = (replicate (length us) (Inr ()), d1) \<and>
    run_all (crdt_import Y) vs d = (replicate (length vs) (Inr ()), d2) \<and>
    seen (cd_doc d1) = seen (cd_doc d) \<union> (\<Union>e\<in>set os. seen (cd_doc e)) \<and> seen (cd_doc d2) = seen (cd_doc d1) \<and>
    crdt_text Y d1 = crdt_text Y d2 \<and> (\<forall>e. seen (cd_doc e) = seen (cd_doc d1) \<longrightarrow> crdt_text Y e = crdt_text Y d1)"
proof -
  have all: "fst (run_all (crdt_import Y) (map (crdt_export Y) xs) d) = replicate (length xs) (Inr ()) \<and>
      seen (cd_doc (snd (run_all (crdt_import Y) (map (crdt_export Y) xs) d))) = seen (cd_doc d) \<union> (\<Union>e\<in>set xs. seen (cd_doc e))" for xs
  proof -
    have "exported Y u" if "u \<in> set (map (crdt_export Y) xs)" for u
      using that by (auto simp: exported_def crdt_export_def)
    from crdt.merge_all [OF assms(1), of "map (crdt_export Y) xs" d, OF this] show ?thesis
      by (simp add: update_seen_export [OF assms(1)] crdt_export_def)
  qed
  obtain rs d1 where d1: "run_all (crdt_import Y) us d = (rs, d1)" by (cases "run_all (crdt_import Y) us d")
  obtain qs d2 where d2: "run_all (crdt_import Y) vs d = (qs, d2)" by (cases "run_all (crdt_import Y) vs d")
  have "rs = replicate (length us) (Inr ())" "qs = replicate (length vs) (Inr ())"
    "seen (cd_doc d1) = seen (cd_doc d) \<union> (\<Union>e\<in>set os. seen (cd_doc e))" "seen (cd_doc d2) = seen (cd_doc d1)"
    using all [of os] all [of ps] d1 d2 assms(2-4) by simp_all
  then show ?thesis using d1 d2 crdt.view_seen [OF assms(1)] by metis
qed

theorem crdt_import_order_witness:
  "\<exists>d1 d2. run_all (crdt_import sample_yrs) [sample_encode [(1, CHR ''a'')], sample_encode [(2, CHR ''b'')]]
      (crdt_new sample_yrs ''d'') = ([Inr (), Inr ()], d1) \<and>
    run_all (crdt_import sample_yrs) [sample_encode [(2, CHR ''b'')], sample_encode [(1, CHR ''a'')], sample_encode [(2, CHR ''b'')]]
      (crdt_new sample_yrs ''d'') = ([Inr (), Inr (), Inr ()], d2) \<and>
    set (cd_doc d1) = {(1, CHR ''a''), (2, CHR ''b'')} \<and> crdt_text sample_yrs d1 = crdt_text sample_yrs d2"
proof -
  let ?d = "\<lambda>x. \<lparr>cd_id = [], cd_doc = x\<rparr> :: (nat \<times> char) list crdt_document"
  let ?a = "?d [(1, CHR ''a'')]" and ?b = "?d [(2, CHR ''b'')]"
  have e: "crdt_export sample_yrs (?d x) = sample_encode x" for x by (simp add: crdt_export_def sample_yrs_def)
  have "set [?a, ?b] = set [?b, ?a, ?b]" by auto
  from crdt_import_order [OF sample_yrs_laws this refl refl, of "crdt_new sample_yrs ''d''"] obtain d1 d2 where
    r: "run_all (crdt_import sample_yrs) (map (crdt_export sample_yrs) [?a, ?b]) (crdt_new sample_yrs ''d'')
        = (replicate (length (map (crdt_export sample_yrs) [?a, ?b])) (Inr ()), d1)"
      "run_all (crdt_import sample_yrs) (map (crdt_export sample_yrs) [?b, ?a, ?b]) (crdt_new sample_yrs ''d'')
        = (replicate (length (map (crdt_export sample_yrs) [?b, ?a, ?b])) (Inr ()), d2)"
    and seen: "set (cd_doc d1) = set (cd_doc (crdt_new sample_yrs ''d'')) \<union> (\<Union>e\<in>set [?a, ?b]. set (cd_doc e))"
    and same: "crdt_text sample_yrs d1 = crdt_text sample_yrs d2"
    by blast
  have "cd_doc (crdt_new sample_yrs ''d'') = []" by (simp add: crdt_new_def sample_yrs_def)
  with seen have "set (cd_doc d1) = {(1, CHR ''a''), (2, CHR ''b'')}" by auto
  with r same show ?thesis unfolding list.map e list.size
    by (intro exI [of _ d1] exI [of _ d2]) (simp del: sample_encode.simps run_all.simps)
qed

text \<open>
  C21. One call of \<open>sync\<close> is enough for two replicas to converge: both imports succeed, each of the
  two has then seen exactly what either had seen, and they show the same text.
\<close>

theorem crdt_sync_converges:
  assumes "yrs_laws Y seen"
  shows "\<exists>a' b'. crdt_sync Y a b = (Inr (), a', b') \<and> crdt_text Y a' = crdt_text Y b' \<and>
    seen (cd_doc a') = seen (cd_doc a) \<union> seen (cd_doc b) \<and> seen (cd_doc b') = seen (cd_doc a) \<union> seen (cd_doc b) \<and>
    cd_id a' = cd_id a \<and> cd_id b' = cd_id b"
proof -
  obtain r1 a' where a: "crdt_import Y (crdt_export Y b) a = (r1, a')" by (cases "crdt_import Y (crdt_export Y b) a")
  obtain r2 b' where b: "crdt_import Y (crdt_export Y a) b = (r2, b')" by (cases "crdt_import Y (crdt_export Y a) b")
  note a' = crdt_import_export [OF assms, of "cd_doc b" a] and b' = crdt_import_export [OF assms, of "cd_doc a" b]
  have "crdt_text Y a' = crdt_text Y b'"
    using a a'(2) b b'(2) by (intro crdt.view_seen [OF assms]) (simp add: crdt_export_def Un_commute)
  with a a' b b' show ?thesis by (simp add: crdt_sync_def crdt_export_def Let_def Un_commute)
qed

theorem crdt_sync_converges_witness:
  "\<exists>a' b'. crdt_sync sample_yrs (crdt_append_text sample_yrs ''hi'' (crdt_new sample_yrs ''a''))
      (crdt_append_text sample_yrs ''ho'' (crdt_new sample_yrs ''b'')) = (Inr (), a', b') \<and>
    crdt_text sample_yrs a' = crdt_text sample_yrs b' \<and> set (cd_doc a') = set (cd_doc b') \<and>
    set (cd_doc b') = {(1, CHR ''h''), (2, CHR ''i''), (2, CHR ''o'')}"
proof -
  let ?a = "crdt_append_text sample_yrs ''hi'' (crdt_new sample_yrs ''a'')"
  let ?b = "crdt_append_text sample_yrs ''ho'' (crdt_new sample_yrs ''b'')"
  have docs: "cd_doc ?a = [(1, CHR ''h''), (2, CHR ''i'')]" "cd_doc ?b = [(1, CHR ''h''), (2, CHR ''o'')]"
    by (simp_all add: crdt_append_text_def crdt_new_def sample_yrs_def sample_next_def)
  from crdt_sync_converges [OF sample_yrs_laws, of ?a ?b] obtain a' b' where
    r: "crdt_sync sample_yrs ?a ?b = (Inr (), a', b')" "crdt_text sample_yrs a' = crdt_text sample_yrs b'"
    and "set (cd_doc a') = set (cd_doc ?a) \<union> set (cd_doc ?b)" "set (cd_doc b') = set (cd_doc ?a) \<union> set (cd_doc ?b)"
    by blast
  then have "set (cd_doc a') = set (cd_doc b')" "set (cd_doc b') = {(1, CHR ''h''), (2, CHR ''i''), (2, CHR ''o'')}"
    unfolding docs by auto
  with r show ?thesis by blast
qed

text \<open>A document that is stored in the database and loaded again shows the same text.\<close>

lemma doc_persisted:
  assumes "yrs_laws Y seen" "cn_faults c = []" "plain did"
  shows "\<exists>bs c'. save_doc now did (crdt_export Y d) c = (Inr (), c') \<and> load_doc E did c' = (Inr (Some bs), c') \<and>
    (\<exists>d'. crdt_from_bytes Y (cd_id d) bs = Inr d' \<and> crdt_text Y d' = crdt_text Y d)"
proof -
  let ?row = "[PText did, PBlob (crdt_export Y d), PI64 now]"
  let ?c' = "c\<lparr>cn_tables := cn_tables c\<lparr>t_docs := tbl_upsert did ?row (\<lambda>_. ?row) (t_docs (cn_tables c))\<rparr>\<rparr>"
  have "save_doc now did (crdt_export Y d) c = (Inr (), ?c')"
    unfolding save_doc_def using assms(3) by (intro run_db_quiet [OF assms(2)]) (simp_all add: plain_def)
  moreover have "query_row stmt_load_doc [PText did] (\<lambda>row. get_bytes E row 0) ?c' = (Inr (Some (crdt_export Y d)), ?c')"
    using assms(2,3) query_row_quiet [of ?c' "[PText did]" stmt_load_doc "[[PBlob (crdt_export Y d)]]" 0
        "\<lambda>row. get_bytes E row 0"]
    by (simp add: plain_def overwritten.lookup_put column_simps)
  moreover have "\<exists>d'. crdt_from_bytes Y (cd_id d) (crdt_export Y d) = Inr d' \<and> crdt_text Y d' = crdt_text Y d"
  proof -
    obtain r d' where i: "crdt_import Y (crdt_export Y d) (crdt_new Y (cd_id d)) = (r, d')"
      by (cases "crdt_import Y (crdt_export Y d) (crdt_new Y (cd_id d))")
    note i' = crdt_import_export [OF assms(1), of "cd_doc d" "crdt_new Y (cd_id d)"]
    have "seen (y_new Y) = {}" using assms(1) by (simp add: yrs_laws_def)
    then have "crdt_text Y d' = crdt_text Y d"
      using i i'(2) by (intro crdt.view_seen [OF assms(1)]) (simp add: crdt_export_def crdt_new_def)
    with i i'(1) show ?thesis by (simp add: crdt_from_bytes_def crdt_export_def)
  qed
  ultimately show ?thesis by (auto simp: load_doc_def lift_db_def)
qed

end
