(* ===== verification/Wire.thy ===== *)
theory Wire
  imports Crypto_Base
begin

text \<open>
  The pieces of \<open>presidium-network\<close> that shape what goes over the wire: the messages of
  \<open>presidium.proto\<close> that the code exchanges, the length-prefixed frames of \<open>codec.rs\<close>,
  topic names, bootstrap addresses and the network identity.

  The protobuf encoding, the hex encoding, multiaddresses and key pairs come from
  third-party packages. An encoder is a pair of functions with the law that decoding
  undoes encoding; a multiaddress is the list of its components.
\<close>

section \<open>Errors and messages\<close>

datatype network_error =
    ListenError string
  | DialError string
  | PublishError string
  | BehaviourError string
  | TransportError string
  | InvalidNetworkKey string
  | InvalidAddress string
  | NotRunning

type_synonym 'a network_result = "network_error + 'a"

record network_envelope =
  ne_kind :: int
  ne_conversation_id :: bytes
  ne_sender_device_id :: bytes
  ne_timestamp :: u64
  ne_encrypted_payload :: bytes
  ne_mac :: bytes
  ne_protocol_version :: u32
  ne_nonce :: bytes
  ne_signature :: bytes

record network_request =
  nrq_envelope :: "network_envelope option"

record network_response =
  nrs_status :: int
  nrs_ack_id :: bytes

definition STATUS_OK :: int where
  "STATUS_OK = 1"

text \<open>The protobuf encoding of a message type.\<close>

record 'm proto =
  pb_encode :: "'m \<Rightarrow> bytes"
  pb_decode :: "bytes \<Rightarrow> string + 'm"

definition pb_law :: "'m proto \<Rightarrow> bool" where
  "pb_law Q \<longleftrightarrow> (\<forall>m. pb_decode Q (pb_encode Q m) = Inr m)"

section \<open>Frames\<close>

definition MAX_FRAME_SIZE :: nat where
  "MAX_FRAME_SIZE = 16 * 1024 * 1024"

datatype io_error = UnexpectedEof | WriteZero | InvalidIo string

text \<open>A reader is the bytes still to come; a writer has what was written and how much more it takes.\<close>

record writer =
  wr_bytes :: bytes
  wr_room :: nat
  wr_closed :: bool

definition read_exact :: "nat \<Rightarrow> bytes \<Rightarrow> (io_error + bytes) \<times> bytes" where
  "read_exact n io = (if length io < n then (Inl UnexpectedEof, []) else (Inr (take n io), drop n io))"

definition write_all :: "bytes \<Rightarrow> writer \<Rightarrow> (io_error + unit) \<times> writer" where
  "write_all bs w =
     (if length bs \<le> wr_room w
      then (Inr (), w\<lparr>wr_bytes := wr_bytes w @ bs, wr_room := wr_room w - length bs\<rparr>)
      else (Inl WriteZero, w\<lparr>wr_bytes := wr_bytes w @ take (wr_room w) bs, wr_room := 0\<rparr>))"

definition read_frame :: "bytes \<Rightarrow> (io_error + bytes) \<times> bytes" where
  "read_frame io =
     then_st (read_exact 4 io) (\<lambda>len_buf io1.
     let len = unat (u32_from_be_bytes len_buf) in
     if len > MAX_FRAME_SIZE then (Inl (InvalidIo ''frame exceeds size limit''), io1)
     else read_exact len io1)"

definition write_frame :: "bytes \<Rightarrow> writer \<Rightarrow> (io_error + unit) \<times> writer" where
  "write_frame bs io =
     (if length bs > MAX_FRAME_SIZE then (Inl (InvalidIo ''frame exceeds size limit''), io)
      else then_st (write_all (u32_to_be_bytes (word_of_nat (length bs))) io) (\<lambda>_ io1.
           then_st (write_all bs io1) (\<lambda>_ io2. (Inr (), io2\<lparr>wr_closed := True\<rparr>))))"

definition read_request :: "network_request proto \<Rightarrow> bytes \<Rightarrow> (io_error + network_request) \<times> bytes" where
  "read_request Q io =
     then_st (read_frame io) (\<lambda>bs io1.
     (map_err (\<lambda>e. InvalidIo (''bad request: '' @ e)) (pb_decode Q bs), io1))"

definition read_response :: "network_response proto \<Rightarrow> bytes \<Rightarrow> (io_error + network_response) \<times> bytes" where
  "read_response Q io =
     then_st (read_frame io) (\<lambda>bs io1.
     (map_err (\<lambda>e. InvalidIo (''bad response: '' @ e)) (pb_decode Q bs), io1))"

definition write_request :: "network_request proto \<Rightarrow> network_request \<Rightarrow> writer \<Rightarrow> (io_error + unit) \<times> writer" where
  "write_request Q req io = write_frame (pb_encode Q req) io"

definition write_response :: "network_response proto \<Rightarrow> network_response \<Rightarrow> writer \<Rightarrow> (io_error + unit) \<times> writer" where
  "write_response Q res io = write_frame (pb_encode Q res) io"

section \<open>Topics\<close>

text \<open>The hex encoding: two lower-case digits for every byte, so it is injective.\<close>

definition hex_law :: "(bytes \<Rightarrow> string) \<Rightarrow> bool" where
  "hex_law hex \<longleftrightarrow> inj hex \<and> (\<forall>bs. set (hex bs) \<subseteq> set ''0123456789abcdef'' \<and> length (hex bs) = 2 * length bs)"

definition TOPIC_PREFIX :: string where
  "TOPIC_PREFIX = ''/presidium''"

definition topic_for :: "(bytes \<Rightarrow> string) \<Rightarrow> string \<Rightarrow> bytes \<Rightarrow> string network_result" where
  "topic_for hex kind i =
     (if i = [] then Inl (InvalidAddress ''topic id must not be empty'')
      else Inr (TOPIC_PREFIX @ ''/'' @ kind @ ''/'' @ hex i))"

definition group_topic :: "(bytes \<Rightarrow> string) \<Rightarrow> bytes \<Rightarrow> string network_result" where
  "group_topic hex conversation_id = topic_for hex ''group'' conversation_id"

definition channel_topic :: "(bytes \<Rightarrow> string) \<Rightarrow> bytes \<Rightarrow> string network_result" where
  "channel_topic hex conversation_id = topic_for hex ''channel'' conversation_id"

definition stories_topic :: "(bytes \<Rightarrow> string) \<Rightarrow> bytes \<Rightarrow> string network_result" where
  "stories_topic hex device_id = topic_for hex ''stories'' device_id"

section \<open>Bootstrap addresses\<close>

type_synonym peer_id = string

datatype protocol = P2p peer_id | Tcp nat | Component string

type_synonym multiaddr = "protocol list"

record bootstrap_peer =
  bp_peer :: "peer_id option"
  bp_address :: multiaddr

text \<open>The text of an address is a parameter; it is used in the error message only.\<close>

definition parse_bootstrap_peer :: "(multiaddr \<Rightarrow> string) \<Rightarrow> multiaddr \<Rightarrow> bootstrap_peer network_result" where
  "parse_bootstrap_peer display addr =
    (let (peer, parts) =
       (if addr = [] then (None, addr)
        else case last addr of P2p i \<Rightarrow> (Some i, butlast addr) | _ \<Rightarrow> (None, addr)) in
     if parts = [] then Inl (InvalidAddress (''no dialable address in '' @ display addr))
     else Inr \<lparr>bp_peer = peer, bp_address = foldl (\<lambda>a p. a @ [p]) [] parts\<rparr>)"

section \<open>Network identity\<close>

text \<open>Key pairs of the network library: from a seed, and the peer id of one.\<close>

record 'k keypairs =
  kp_from_bytes :: "bytes \<Rightarrow> string + 'k"
  kp_peer_id :: "'k \<Rightarrow> peer_id"

definition network_from_seed :: "'k keypairs \<Rightarrow> bytes \<Rightarrow> 'k network_result" where
  "network_from_seed K seed =
     (if length seed \<noteq> 32
      then Inl (InvalidNetworkKey (''seed must be 32 bytes, got '' @ decimal (int (length seed))))
      else map_err InvalidNetworkKey (kp_from_bytes K seed))"

text \<open>\<open>expect\<close> on the result: \<^term>\<open>None\<close> is a panic.\<close>

definition network_from_device_id :: "prims \<Rightarrow> 'k keypairs \<Rightarrow> bytes \<Rightarrow> 'k option" where
  "network_from_device_id P K device_id =
    (case network_from_seed K (sha256 P (bstr ''presidium-network-v1'' @ device_id)) of
       Inl e \<Rightarrow> None
     | Inr k \<Rightarrow> Some k)"

section \<open>Properties\<close>

lemma be_bytes_of_length: "n < 2 ^ 32 \<Longrightarrow> unat (u32_from_be_bytes (u32_to_be_bytes (word_of_nat n))) = n"
proof -
  assume "n < 2 ^ 32"
  then have "unat (word_of_nat n :: u32) = n" by (simp add: unat_of_nat)
  moreover from \<open>n < 2 ^ 32\<close> have "le_nat (le_bytes 4 n) = n" by (simp add: le_nat_le_bytes)
  ultimately show ?thesis by (simp add: u32_from_be_bytes_def u32_to_be_bytes_def)
qed

lemma le_nat_less: "le_nat bs < 256 ^ length bs"
proof (induction bs)
  case (Cons b bs)
  have "unat b + 256 * le_nat bs < 256 * (le_nat bs + 1)" using unat_byte_lt [of b] by simp
  also have "\<dots> \<le> 256 * 256 ^ length bs" using Cons by (intro mult_le_mono2) simp
  finally show ?case by simp
qed simp

lemma le_bytes_le_nat: "le_bytes (length bs) (le_nat bs) = bs"
proof (induction bs)
  case (Cons b bs)
  have "unat (word_of_nat (unat b + 256 * le_nat bs) :: byte) = unat b"
    using unat_byte_lt [of b] by (simp only: unat_byte_of_nat) simp
  then have "(word_of_nat (unat b + 256 * le_nat bs) :: byte) = b" by (simp only: word_unat_eq_iff)
  moreover have "(unat b + 256 * le_nat bs) div 256 = le_nat bs" using unat_byte_lt [of b] by simp
  ultimately show ?case using Cons by (simp del: of_nat_add of_nat_mult)
qed simp

lemma be_bytes_of_word: "length bs = 4 \<Longrightarrow> u32_to_be_bytes (u32_from_be_bytes bs) = bs"
  using le_nat_less [of "rev bs"] le_bytes_le_nat [of "rev bs"]
  by (simp add: u32_to_be_bytes_def u32_from_be_bytes_def unat_of_nat)

lemma read_frame_ok:
  assumes "length f \<le> MAX_FRAME_SIZE"
  shows "read_frame (u32_to_be_bytes (word_of_nat (length f)) @ f @ rest) = (Inr f, rest)"
proof -
  have "unat (u32_from_be_bytes (u32_to_be_bytes (word_of_nat (length f)))) = length f"
    using assms by (intro be_bytes_of_length) (simp add: MAX_FRAME_SIZE_def)
  with assms show ?thesis by (simp add: read_frame_def read_exact_def)
qed

lemma write_frame_ok:
  assumes "length f \<le> MAX_FRAME_SIZE" "length f + 4 \<le> wr_room w"
  shows "write_frame f w = (Inr (), w\<lparr>wr_bytes := wr_bytes w @ u32_to_be_bytes (word_of_nat (length f)) @ f,
    wr_room := wr_room w - (4 + length f), wr_closed := True\<rparr>)"
  using assms by (simp add: write_frame_def write_all_def)

text \<open>
  C20. What a reader accepts as a frame is exactly a length of at most \<open>MAX_FRAME_SIZE\<close> in
  big-endian bytes followed by that many bytes, and it leaves the rest of the stream unread.
\<close>

theorem read_frame_accepts:
  "read_frame io = (Inr f, rest) \<longleftrightarrow>
    io = u32_to_be_bytes (word_of_nat (length f)) @ f @ rest \<and> length f \<le> MAX_FRAME_SIZE"
proof
  assume r: "read_frame io = (Inr f, rest)"
  let ?n = "unat (u32_from_be_bytes (take 4 io))"
  from r have len: "4 \<le> length io" and n: "?n \<le> MAX_FRAME_SIZE" "?n \<le> length io - 4"
    and f: "f = take ?n (drop 4 io)" "rest = drop ?n (drop 4 io)"
    by (auto simp: read_frame_def read_exact_def Let_def split: if_splits)
  have "length f = ?n" using f(1) n(2) by simp
  moreover have "u32_to_be_bytes (word_of_nat ?n) = take 4 io"
    using len be_bytes_of_word [of "take 4 io"] by simp
  ultimately show "io = u32_to_be_bytes (word_of_nat (length f)) @ f @ rest \<and> length f \<le> MAX_FRAME_SIZE"
    using f n(1) by (metis append_take_drop_id)
next
  assume "io = u32_to_be_bytes (word_of_nat (length f)) @ f @ rest \<and> length f \<le> MAX_FRAME_SIZE"
  then show "read_frame io = (Inr f, rest)" by (simp add: read_frame_ok)
qed

text \<open>
  C19. A request crosses a stream unchanged: when its encoding fits a frame and the stream
  takes it, writing succeeds and closes the stream, and the peer reads the same request
  back; an encoding above \<open>MAX_FRAME_SIZE\<close> is refused before anything is written.
\<close>

theorem request_wire_roundtrip:
  assumes "pb_law Q" "length (pb_encode Q req) + 4 \<le> wr_room w"
  shows "if length (pb_encode Q req) \<le> MAX_FRAME_SIZE
    then \<exists>w' sent. write_request Q req w = (Inr (), w') \<and> wr_bytes w' = wr_bytes w @ sent \<and> wr_closed w' \<and>
      read_request Q (sent @ rest) = (Inr req, rest)
    else write_request Q req w = (Inl (InvalidIo ''frame exceeds size limit''), w)"
proof (cases "length (pb_encode Q req) \<le> MAX_FRAME_SIZE")
  case True
  let ?sent = "u32_to_be_bytes (word_of_nat (length (pb_encode Q req))) @ pb_encode Q req"
  have "read_request Q (?sent @ rest) = (Inr req, rest)"
    using assms(1) by (simp add: read_request_def read_frame_ok [OF True] pb_law_def)
  with True write_frame_ok [OF True assms(2)] show ?thesis
    by (simp add: write_request_def)
next
  case False
  then show ?thesis by (simp add: write_request_def write_frame_def)
qed

text \<open>A concrete encoding: every field with its length, as numbers written in unary.\<close>

definition unary :: "nat list \<Rightarrow> bytes" where
  "unary ns = concat (map (\<lambda>n. replicate n 1 @ [0]) ns)"

fun parse_unary :: "nat \<Rightarrow> bytes \<Rightarrow> nat list" where
  "parse_unary k [] = []"
| "parse_unary k (b # bs) = (if b = 1 then parse_unary (Suc k) bs else k # parse_unary 0 bs)"

lemma parse_unary_number: "parse_unary k (replicate n 1 @ 0 # bs) = (k + n) # parse_unary 0 bs"
  by (induction n arbitrary: k) simp_all

lemma parse_unary: "parse_unary 0 (unary ns) = ns"
  by (induction ns) (simp_all add: unary_def parse_unary_number)

definition field_numbers :: "bytes \<Rightarrow> nat list" where
  "field_numbers bs = length bs # map unat bs"

fun take_field :: "nat list \<Rightarrow> bytes \<times> nat list" where
  "take_field [] = ([], [])"
| "take_field (n # ns) = (map word_of_nat (take n ns), drop n ns)"

lemma take_field: "take_field (field_numbers bs @ ns) = (bs, ns)"
  by (simp add: field_numbers_def comp_def)

fun take_fields :: "nat \<Rightarrow> nat list \<Rightarrow> bytes list" where
  "take_fields 0 ns = []"
| "take_fields (Suc k) ns = (case take_field ns of (f, ns') \<Rightarrow> f # take_fields k ns')"

lemma take_fields: "take_fields (length fs) (concat (map field_numbers fs)) = fs"
  by (induction fs) (simp_all add: take_field)

definition sample_envelope_numbers :: "network_envelope \<Rightarrow> nat list" where
  "sample_envelope_numbers e =
     [if ne_kind e < 0 then 1 else 0, nat \<bar>ne_kind e\<bar>, unat (ne_timestamp e), unat (ne_protocol_version e)] @
     concat (map field_numbers [ne_conversation_id e, ne_sender_device_id e, ne_encrypted_payload e, ne_mac e,
       ne_nonce e, ne_signature e])"

definition sample_envelope_of :: "nat list \<Rightarrow> network_envelope" where
  "sample_envelope_of ns =
    (case (ns, take_fields 6 (drop 4 ns)) of
       (s # k # t # v # _, [c, d, p, m, n, g]) \<Rightarrow>
         \<lparr>ne_kind = (if s = 1 then - int k else int k), ne_conversation_id = c, ne_sender_device_id = d,
          ne_timestamp = word_of_nat t, ne_encrypted_payload = p, ne_mac = m,
          ne_protocol_version = word_of_nat v, ne_nonce = n, ne_signature = g\<rparr>
     | _ \<Rightarrow> \<lparr>ne_kind = 0, ne_conversation_id = [], ne_sender_device_id = [], ne_timestamp = 0,
          ne_encrypted_payload = [], ne_mac = [], ne_protocol_version = 0, ne_nonce = [], ne_signature = []\<rparr>)"

lemma sample_envelope_of_numbers: "sample_envelope_of (sample_envelope_numbers e) = e"
proof -
  let ?fs = "[ne_conversation_id e, ne_sender_device_id e, ne_encrypted_payload e, ne_mac e, ne_nonce e, ne_signature e]"
  have "take_fields 6 (concat (map field_numbers ?fs)) = ?fs"
    using take_fields [of ?fs] by (simp only: list.size) (simp add: eval_nat_numeral)
  then show ?thesis
    by (simp add: sample_envelope_of_def sample_envelope_numbers_def del: concat.simps list.map)
qed

definition sample_request_proto :: "network_request proto" where
  "sample_request_proto =
     \<lparr>pb_encode = (\<lambda>r. case nrq_envelope r of None \<Rightarrow> [] | Some e \<Rightarrow> unary (sample_envelope_numbers e)),
      pb_decode = (\<lambda>bs. Inr \<lparr>nrq_envelope =
        (if bs = [] then None else Some (sample_envelope_of (parse_unary 0 bs)))\<rparr>)\<rparr>"

lemma sample_request_proto_law: "pb_law sample_request_proto"
  by (auto simp: pb_law_def sample_request_proto_def parse_unary sample_envelope_of_numbers split: option.split)
    (simp_all add: sample_envelope_numbers_def unary_def)

theorem request_wire_roundtrip_witness:
  "\<exists>w' sent. write_request sample_request_proto \<lparr>nrq_envelope = None\<rparr> \<lparr>wr_bytes = [], wr_room = 100, wr_closed = False\<rparr> = (Inr (), w') \<and>
    wr_bytes w' = sent \<and> wr_closed w' \<and> read_request sample_request_proto (sent @ [7]) = (Inr \<lparr>nrq_envelope = None\<rparr>, [7])"
  using request_wire_roundtrip [OF sample_request_proto_law, of "\<lparr>nrq_envelope = None\<rparr>"
      "\<lparr>wr_bytes = [], wr_room = 100, wr_closed = False\<rparr>" "[7]"]
  by (simp add: sample_request_proto_def MAX_FRAME_SIZE_def)

lemma takeWhile_separator: "ch \<notin> set xs \<Longrightarrow> takeWhile (\<lambda>x. x \<noteq> ch) (xs @ ch # ys) = xs"
  by (induction xs) auto

text \<open>
  Topics do not collide: two of the topics that the code builds have the same name only
  if they are of the same kind and for the same id, and an empty id has no topic.
\<close>

theorem topics_distinct:
  assumes "hex_law hex" "kind \<in> {''group'', ''channel'', ''stories''}" "kind' \<in> {''group'', ''channel'', ''stories''}"
  shows "(topic_for hex kind i = Inr t \<and> topic_for hex kind' i' = Inr t \<longrightarrow> kind = kind' \<and> i = i') \<and>
    topic_for hex kind [] = Inl (InvalidAddress ''topic id must not be empty'')"
proof -
  let ?w = "takeWhile (\<lambda>ch. ch \<noteq> CHR ''/'')"
  have kinds: "CHR ''/'' \<notin> set kind" "CHR ''/'' \<notin> set kind'" using assms(2,3) by auto
  have same: "kind = kind' \<and> i = i'" if e: "kind @ CHR ''/'' # hex i = kind' @ CHR ''/'' # hex i'"
  proof -
    have "kind = ?w (kind @ CHR ''/'' # hex i)" using takeWhile_separator [OF kinds(1)] by (rule sym)
    also have "\<dots> = kind'" unfolding e by (rule takeWhile_separator [OF kinds(2)])
    finally have "kind = kind'" .
    moreover from this e have "hex i = hex i'" by simp
    moreover have "inj hex" using assms(1) unfolding hex_law_def by blast
    ultimately show ?thesis by (simp add: inj_eq)
  qed
  show ?thesis
  proof (intro conjI impI)
    assume "topic_for hex kind i = Inr t \<and> topic_for hex kind' i' = Inr t"
    then have "kind @ CHR ''/'' # hex i = kind' @ CHR ''/'' # hex i'"
      unfolding topic_for_def by (auto split: if_splits)
    from same [OF this] show "kind = kind'" "i = i'" by blast+
  qed (simp add: topic_for_def)
qed

text \<open>A concrete hex encoding.\<close>

definition hex_digits :: string where
  "hex_digits = ''0123456789abcdef''"

definition sample_hex :: "bytes \<Rightarrow> string" where
  "sample_hex bs = concat (map (\<lambda>b. [hex_digits ! (unat b div 16), hex_digits ! (unat b mod 16)]) bs)"

lemma hex_digits: "distinct hex_digits" "length hex_digits = 16"
  by (simp_all add: hex_digits_def)

lemma sample_hex_inject: "sample_hex bs = sample_hex bs' \<Longrightarrow> bs = bs'"
proof (induction bs arbitrary: bs')
  case Nil
  then show ?case by (cases bs') (simp_all add: sample_hex_def)
next
  case (Cons b bs)
  then obtain b' bs2 where bs': "bs' = b' # bs2" by (cases bs') (simp_all add: sample_hex_def)
  have digit: "hex_digits ! k = hex_digits ! l \<longleftrightarrow> k = l" if "k < 16" "l < 16" for k l
    using that nth_eq_iff_index_eq [OF hex_digits(1)] by (simp only: hex_digits(2))
  have bound: "unat w div 16 < 16" "unat w mod 16 < 16" for w :: byte
    using unat_byte_lt [of w] by (simp_all add: less_mult_imp_div_less)
  from Cons.prems bs' have "hex_digits ! (unat b div 16) = hex_digits ! (unat b' div 16)"
    "hex_digits ! (unat b mod 16) = hex_digits ! (unat b' mod 16)" and tail: "sample_hex bs = sample_hex bs2"
    by (simp_all add: sample_hex_def)
  then have "unat b div 16 = unat b' div 16" "unat b mod 16 = unat b' mod 16"
    using digit bound by blast+
  then have "unat b = unat b'" using div_mult_mod_eq [of "unat b" 16] div_mult_mod_eq [of "unat b'" 16] by linarith
  then have "b = b'" by (simp only: word_unat_eq_iff)
  with Cons.IH [OF tail] bs' show ?case by simp
qed

lemma sample_hex_law: "hex_law sample_hex"
proof -
  have digit: "hex_digits ! k \<in> set hex_digits" if "k < 16" for k
    using that by (intro nth_mem) (simp add: hex_digits)
  have "set (sample_hex bs) \<subseteq> set hex_digits" for bs
  proof (induction bs)
    case (Cons b bs)
    then show ?case
      using digit [of "unat b div 16"] digit [of "unat b mod 16"] unat_byte_lt [of b] by (simp add: sample_hex_def)
  qed (simp add: sample_hex_def)
  moreover have "length (sample_hex bs) = 2 * length bs" for bs
    by (induction bs) (simp_all add: sample_hex_def)
  ultimately show ?thesis
    unfolding hex_law_def hex_digits_def [symmetric] using sample_hex_inject by (blast intro: injI)
qed

theorem topics_distinct_witness:
  "\<not> (\<exists>t. topic_for sample_hex ''group'' [1] = Inr t \<and> topic_for sample_hex ''channel'' [1] = Inr t) \<and>
   \<not> (\<exists>t. topic_for sample_hex ''group'' [1] = Inr t \<and> topic_for sample_hex ''group'' [2] = Inr t)"
proof -
  have kinds: "''group'' \<in> {''group'', ''channel'', ''stories''}" "''channel'' \<in> {''group'', ''channel'', ''stories''}"
    by simp_all
  have "''group'' \<noteq> ''channel''" "[1 :: byte] \<noteq> [2]" by simp_all
  then show ?thesis
    using topics_distinct [OF sample_hex_law kinds(1,2)] topics_distinct [OF sample_hex_law kinds(1,1)] by blast
qed

text \<open>Splitting an address loses nothing, and only a bare peer id (or nothing) is refused.\<close>

lemma foldl_snoc: "foldl (\<lambda>a p. a @ [p]) xs ys = xs @ ys"
  by (induction ys arbitrary: xs) simp_all

lemma parse_bootstrap_peer_ok:
  "parse_bootstrap_peer display addr = Inr b \<Longrightarrow>
    addr = bp_address b @ (case bp_peer b of None \<Rightarrow> [] | Some i \<Rightarrow> [P2p i]) \<and> bp_address b \<noteq> []"
  by (cases addr rule: rev_cases)
    (auto simp: parse_bootstrap_peer_def foldl_snoc split: protocol.splits if_splits)

lemma parse_bootstrap_peer_append:
  "addr \<noteq> [] \<Longrightarrow> parse_bootstrap_peer display (addr @ [P2p i]) = Inr \<lparr>bp_peer = Some i, bp_address = addr\<rparr>"
  by (simp add: parse_bootstrap_peer_def foldl_snoc)

text \<open>A device always has a network identity: hashing gives a seed of the right size.\<close>

lemma network_from_device_id_total:
  assumes "\<forall>m. length (sha256 P m) = 32" "\<forall>seed. length seed = 32 \<longrightarrow> (\<exists>k. kp_from_bytes K seed = Inr k)"
  shows "\<exists>k. network_from_device_id P K device_id = Some k"
proof -
  obtain k where "kp_from_bytes K (sha256 P (bstr ''presidium-network-v1'' @ device_id)) = Inr k"
    using assms by blast
  with assms(1) show ?thesis by (simp add: network_from_device_id_def network_from_seed_def)
qed

end
