(* ===== verification/Node_Store.thy ===== *)
theory Node_Store
  imports Records Wire
begin

text \<open>
  The node-local store of the demo, \<open>presidium-demo/src/store.rs\<close>: the signed prekey with its
  private part, the database key and its salt, the identity that is created on the first
  boot and loaded on every later one, and the conveniences over the database.

  The directory of the node is the map \<open>fs_files\<close> from file names to contents; whether the
  system lets the directory be created is \<open>fs_directory\<close>, whether it lets a file be read \<open>fs_readable\<close>, and what becomes of a
  write \<open>fs_writes\<close>. Random draws and the clock are arguments.
\<close>

section \<open>Errors\<close>

text \<open>
  The dynamic errors of the application: a message, an error of one of the crates, or one of
  them under a context. A panic ends the process and is kept apart from the errors.
\<close>

datatype app_error =
    AppMsg string
  | AppCrypto crypto_error
  | AppStorage storage_error
  | AppNetwork network_error
  | AppJson string
  | AppUtf8
  | AppIo
  | AppContext string app_error
  | AppPanic string

type_synonym 'a app_result = "app_error + 'a"

definition context_crypto :: "string \<Rightarrow> 'a crypto_result \<Rightarrow> 'a app_result" where
  "context_crypto msg r = map_err (\<lambda>e. AppContext msg (AppCrypto e)) r"

definition context_json :: "string \<Rightarrow> string + 'a \<Rightarrow> 'a app_result" where
  "context_json msg r = map_err (\<lambda>e. AppContext msg (AppJson e)) r"

definition context_storage :: "string \<Rightarrow> 'a storage_result \<Rightarrow> 'a app_result" where
  "context_storage msg r = map_err (\<lambda>e. AppContext msg (AppStorage e)) r"

definition from_utf8 :: "bytes \<Rightarrow> string app_result" where
  "from_utf8 bs = (if utf8 bs then Inr (string_of_bytes bs) else Inl AppUtf8)"

lemmas context_defs = context_crypto_def context_json_def context_storage_def

section \<open>Prekeys\<close>

record prekey_material =
  pmat_key_id :: u32
  pmat_public_key :: hybrid_kem_public_key
  pmat_private_classical :: bytes
  pmat_private_pq :: bytes
  pmat_signature :: hybrid_signature
  pmat_timestamp :: u64

definition prekey_material_to_json :: "prekey_material \<Rightarrow> json" where
  "prekey_material_to_json m =
     JObj [(''key_id'', json_uint (pmat_key_id m)),
           (''public_key'', hybrid_kem_public_key_to_json (pmat_public_key m)),
           (''private_classical'', json_bytes (pmat_private_classical m)),
           (''private_pq'', json_bytes (pmat_private_pq m)),
           (''signature'', hybrid_signature_to_json (pmat_signature m)),
           (''timestamp'', json_uint (pmat_timestamp m))]"

definition prekey_material_of_json :: "json \<Rightarrow> prekey_material option" where
  "prekey_material_of_json j =
    (case struct_fields [''key_id'', ''public_key'', ''private_classical'', ''private_pq'', ''signature'', ''timestamp''] j of
     Some [i, p, c, q, s, t] \<Rightarrow>
       Option.bind (required uint_of_json i) (\<lambda>key_id.
       Option.bind (required hybrid_kem_public_key_of_json p) (\<lambda>public_key.
       Option.bind (required (array_of_json 32) c) (\<lambda>private_classical.
       Option.bind (required bytes_of_json q) (\<lambda>private_pq.
       Option.bind (required hybrid_signature_of_json s) (\<lambda>signature.
       Option.bind (required uint_of_json t) (\<lambda>timestamp.
       Some \<lparr>pmat_key_id = key_id, pmat_public_key = public_key, pmat_private_classical = private_classical,
             pmat_private_pq = private_pq, pmat_signature = signature, pmat_timestamp = timestamp\<rparr>))))))
   | _ \<Rightarrow> None)"

definition pmat_wf :: "prekey_material \<Rightarrow> bool" where
  "pmat_wf m \<longleftrightarrow> kpub_wf (pmat_public_key m) \<and> length (pmat_private_classical m) = 32 \<and> hs_wf (pmat_signature m)"

interpretation pmat_json: json_type prekey_material_to_json prekey_material_of_json pmat_wf
  by unfold_locales (simp_all add: prekey_material_to_json_def prekey_material_of_json_def pmat_wf_def
      kpub_json.of_to_json kpub_json.to_json_wf hs_json.of_to_json hs_json.to_json_wf)

interpretation pmat_strict: strict_json prekey_material_to_json prekey_material_of_json pmat_wf
  by unfold_locales
    (auto simp: prekey_material_of_json_def pmat_wf_def bind_eq_Some_conv
      split: option.split_asm list.split_asm
      dest!: required_array_length kpub_strict.required_valid hs_strict.required_valid)

text \<open>A timestamp: \<open>now.max(0) as u64\<close>.\<close>

definition clock_u64 :: "int \<Rightarrow> u64" where
  "clock_u64 now = word_of_int (max now 0)"

definition prekey_generate ::
    "prims \<Rightarrow> bytes \<Rightarrow> bytes option \<Rightarrow> int \<Rightarrow> identity_key_pair \<Rightarrow> prekey_material app_result"
where
  "prekey_generate P classical_draw dk_seed now identity =
     and_then (map_err AppCrypto (kem_generate P classical_draw dk_seed)) (\<lambda>(public_key, private).
     and_then (map_err AppCrypto (sign_hybrid P identity (kpub_classical public_key))) (\<lambda>signature.
     Inr \<lparr>pmat_key_id = 1, pmat_public_key = public_key, pmat_private_classical = kpriv_classical private,
          pmat_private_pq = kpriv_pq private, pmat_signature = signature, pmat_timestamp = clock_u64 now\<rparr>))"

definition prekey_private_key :: "prekey_material \<Rightarrow> hybrid_kem_private_key app_result" where
  "prekey_private_key m =
     and_then (try_into ML_KEM_1024_PRIVATE_KEY_SIZE (AppPanic ''stored pq seed has the canonical size'')
       (pmat_private_pq m)) (\<lambda>pq.
     Inr \<lparr>kpriv_classical = pmat_private_classical m, kpriv_pq = pq\<rparr>)"

definition prekey_signed_prekey :: "prekey_material \<Rightarrow> signed_pre_key" where
  "prekey_signed_prekey m =
     \<lparr>spk_key_id = pmat_key_id m, spk_public_key = pmat_public_key m, spk_signature = pmat_signature m,
      spk_timestamp = pmat_timestamp m\<rparr>"

definition prekey_to_bundle :: "prims \<Rightarrow> identity_key_pair \<Rightarrow> prekey_material \<Rightarrow> pre_key_bundle app_result" where
  "prekey_to_bundle P identity m = map_err AppCrypto (bundle_new P identity (prekey_signed_prekey m) [])"

section \<open>Files\<close>

text \<open>
  \<open>std::fs::write\<close> truncates the file and writes the bytes: it succeeds, or the file cannot be opened and
  is as it was, or an error after some bytes leaves the file with these.
\<close>

datatype write_answer = Written | NotOpened | Partly nat

record fs =
  fs_directory :: bool
  fs_files :: "string \<rightharpoonup> bytes"
  fs_readable :: "string \<Rightarrow> bool"
  fs_writes :: "string \<Rightarrow> write_answer"

definition fs_write :: "string \<Rightarrow> bytes \<Rightarrow> fs \<Rightarrow> unit app_result \<times> fs" where
  "fs_write name bs f =
    (case fs_writes f name of
       Written \<Rightarrow> (Inr (), f\<lparr>fs_files := (fs_files f)(name \<mapsto> bs)\<rparr>)
     | NotOpened \<Rightarrow> (Inl AppIo, f)
     | Partly n \<Rightarrow> (Inl AppIo, f\<lparr>fs_files := (fs_files f)(name \<mapsto> take n bs)\<rparr>))"

text \<open>\<open>std::fs::read\<close> and \<open>read_to_string\<close>: the file must exist and be readable, and for the latter hold UTF-8.\<close>

definition fs_read :: "string \<Rightarrow> fs \<Rightarrow> bytes app_result" where
  "fs_read name f = (if fs_readable f name then ok_or AppIo (fs_files f name) else Inl AppIo)"

definition fs_read_string :: "string \<Rightarrow> fs \<Rightarrow> string app_result" where
  "fs_read_string name f = and_then (fs_read name f) from_utf8"

definition ARGON2_SALT_SIZE :: nat where [simp]: "ARGON2_SALT_SIZE = 16"

definition DEFAULT_PASSPHRASE :: bytes where
  "DEFAULT_PASSPHRASE = bstr ''presidium-demo-passphrase''"

definition db_key :: "argon2 \<Rightarrow> bytes \<Rightarrow> fs \<Rightarrow> bytes app_result \<times> fs" where
  "db_key A salt_draw f =
     then_st
       (case fs_files f ''db.salt'' of
          Some _ \<Rightarrow> (and_then (fs_read ''db.salt'' f) (try_into ARGON2_SALT_SIZE (AppMsg ''stored salt has wrong size'')), f)
        | None \<Rightarrow> then_st (fs_write ''db.salt'' salt_draw f) (\<lambda>_ f1. (Inr salt_draw, f1)))
       (\<lambda>salt f1. (context_storage ''derive db key'' (derive_db_key A DEFAULT_PASSPHRASE salt), f1))"

section \<open>Identity\<close>

text \<open>What the first boot draws: the two seeds, the bytes of the device id, and the time.\<close>

record identity_draws =
  dr_classical :: bytes
  dr_pq :: bytes
  dr_device :: bytes
  dr_now :: int

definition random_hex_device_id :: "(bytes \<Rightarrow> string) \<Rightarrow> bytes \<Rightarrow> string" where
  "random_hex_device_id hex drawn = hex drawn"

definition load_or_create_identity ::
    "column_engine \<Rightarrow> (bytes \<Rightarrow> string) \<Rightarrow> identity_draws \<Rightarrow> db \<Rightarrow> (identity_key_pair \<times> string) app_result \<times> db"
where
  "load_or_create_identity E hex draws c =
    (case load_identity E c of
       (Inl e, c1) \<Rightarrow> (Inl (AppContext ''load identity'' (AppStorage e)), c1)
     | (Inr (Some record), c1) \<Rightarrow>
         (and_then (map_err AppCrypto (identity_from_seed (ir_classical_seed record) (ir_pq_seed record))) (\<lambda>identity.
          Inr (identity, ir_device_id record)), c1)
     | (Inr None, c1) \<Rightarrow>
         try_st (map_err AppCrypto (identity_generate (dr_classical draws) (dr_pq draws))) c1 (\<lambda>identity.
         case identity_seeds identity of (classical_seed, pq_seed) \<Rightarrow>
         let device_id = random_hex_device_id hex (dr_device draws) in
         (case save_identity \<lparr>ir_device_id = device_id, ir_classical_seed = classical_seed, ir_pq_seed = pq_seed,
                ir_created_at = dr_now draws\<rparr> c1 of
            (Inl e, c2) \<Rightarrow> (Inl (AppContext ''save identity'' (AppStorage e)), c2)
          | (Inr _, c2) \<Rightarrow> (Inr (identity, device_id), c2))))"

section \<open>The store\<close>

record node_store =
  ns_db :: db
  ns_fs :: fs
  ns_identity :: identity_key_pair
  ns_device_id :: string

definition on_db :: "(db \<Rightarrow> 'a storage_result \<times> db) \<Rightarrow> string \<Rightarrow> node_store \<Rightarrow> 'a app_result \<times> node_store" where
  "on_db f msg s = (case f (ns_db s) of (r, c) \<Rightarrow> (context_storage msg r, s\<lparr>ns_db := c\<rparr>))"

text \<open>\<open>open\<close>: the directory, the salt and key, the database, then the identity.\<close>

definition node_store_open ::
    "column_engine \<Rightarrow> argon2 \<Rightarrow> (bytes \<Rightarrow> string) \<Rightarrow> (string \<Rightarrow> bool \<times> int \<times> string option) \<Rightarrow> string option \<Rightarrow>
      (bytes \<Rightarrow> unit sql_result) \<Rightarrow> bytes \<Rightarrow> identity_draws \<Rightarrow> fs \<times> db \<Rightarrow> node_store app_result \<times> fs \<times> db"
where
  "node_store_open E A hex engine path key_answer salt_draw draws fc =
    (if \<not> fs_directory (fst fc) then (Inl AppIo, fc)
     else case db_key A salt_draw (fst fc) of
       (Inl e, f) \<Rightarrow> (Inl e, f, snd fc)
     | (Inr key, f) \<Rightarrow>
        (case database_open E engine path (key_answer key) (snd fc) of
           (Inl e, c) \<Rightarrow> (Inl (AppContext ''open db'' (AppStorage e)), f, c)
         | (Inr _, c) \<Rightarrow>
            (case load_or_create_identity E hex draws c of
               (Inl e, c1) \<Rightarrow> (Inl e, f, c1)
             | (Inr (identity, device_id), c1) \<Rightarrow>
                 (Inr \<lparr>ns_db = c1, ns_fs = f, ns_identity = identity, ns_device_id = device_id\<rparr>, f, c1))))"

definition store_identity_public :: "prims \<Rightarrow> node_store \<Rightarrow> identity_public_key" where
  "store_identity_public P s = identity_public P (ns_identity s)"

text \<open>\<open>pretty\<close> is the indented form in which the prekey is written; it parses like any JSON text.\<close>

definition store_prekey ::
    "prims \<Rightarrow> json_text \<Rightarrow> (json \<Rightarrow> string + bytes) \<Rightarrow> bytes \<Rightarrow> bytes option \<Rightarrow> int \<Rightarrow> node_store \<Rightarrow>
      prekey_material app_result \<times> node_store"
where
  "store_prekey P J pretty classical_draw dk_seed now s =
    (case fs_read_string ''bundle.json'' (ns_fs s) of
       Inr text \<Rightarrow> (context_json ''parse stored bundle'' (from_str J prekey_material_of_json text), s)
     | Inl _ \<Rightarrow>
         try_st (prekey_generate P classical_draw dk_seed now (ns_identity s)) s (\<lambda>material.
         try_st (map_err AppJson (pretty (prekey_material_to_json material))) s (\<lambda>bs.
         case fs_write ''bundle.json'' bs (ns_fs s) of
           (Inl e, f) \<Rightarrow> (Inl e, s\<lparr>ns_fs := f\<rparr>)
         | (Inr _, f) \<Rightarrow> (Inr material, s\<lparr>ns_fs := f\<rparr>))))"

definition store_upsert_conversation ::
    "int \<Rightarrow> string \<Rightarrow> identity_public_key \<Rightarrow> bool \<Rightarrow> node_store \<Rightarrow> unit app_result \<times> node_store"
where
  "store_upsert_conversation now cid peer is_group =
     on_db (upsert_conversation \<lparr>cv_id = cid, cv_peer_classical = ipk_classical peer, cv_peer_pq = ipk_pq peer,
       cv_is_group = is_group, cv_created_at = now\<rparr>) ''upsert conversation''"

definition store_save_session :: "json_text \<Rightarrow> string \<Rightarrow> session_state \<Rightarrow> node_store \<Rightarrow> unit app_result \<times> node_store" where
  "store_save_session J cid state = on_db (save_session J cid state) ''save session''"

definition store_load_session ::
    "column_engine \<Rightarrow> json_text \<Rightarrow> string \<Rightarrow> node_store \<Rightarrow> session_state option app_result \<times> node_store"
where
  "store_load_session E J cid = on_db (load_session E J cid) ''load session''"

definition store_insert_message ::
    "int \<Rightarrow> string \<Rightarrow> bytes \<Rightarrow> identity_public_key \<Rightarrow> bytes \<Rightarrow> string \<Rightarrow> message_direction \<Rightarrow> node_store \<Rightarrow>
      int app_result \<times> node_store"
where
  "store_insert_message now cid message_id sender ciphertext header direction =
     on_db (insert_message \<lparr>mr_id = 0, mr_conversation_id = cid, mr_message_id = message_id,
       mr_sender_classical = ipk_classical sender, mr_ciphertext = ciphertext, mr_header = header,
       mr_content_type = 0, mr_direction = direction,
       mr_status = (if direction = Incoming then Delivered else Sent), mr_created_at = now\<rparr>) ''insert message''"

definition store_update_message_status :: "int \<Rightarrow> message_status \<Rightarrow> node_store \<Rightarrow> unit app_result \<times> node_store" where
  "store_update_message_status rid status = on_db (update_message_status rid status) ''update message status''"

text \<open>\<open>print_history\<close>: the lines it prints.\<close>

fun direction_arrow :: "message_direction \<Rightarrow> string" where
  "direction_arrow Incoming = ''<-''"
| "direction_arrow Outgoing = ''->''"

fun status_name :: "message_status \<Rightarrow> string" where
  "status_name Pending = ''pending''"
| "status_name Sent = ''sent''"
| "status_name Delivered = ''delivered''"
| "status_name Read = ''read''"
| "status_name Failed = ''failed''"

definition history_line :: "message_record \<Rightarrow> string" where
  "history_line m =
     ''  '' @ direction_arrow (mr_direction m) @ '' [#'' @ decimal (mr_id m) @ ''] '' @ status_name (mr_status m) @ '' '' @
     decimal (int (length (mr_ciphertext m))) @ '' bytes (header '' @ mr_header m @ '')''"

definition print_history :: "column_engine \<Rightarrow> string \<Rightarrow> node_store \<Rightarrow> string list app_result \<times> node_store" where
  "print_history E cid s =
     then_st (on_db (list_messages E cid None 100) ''list messages'' s) (\<lambda>messages s1.
     (Inr (if messages = [] then [''  (no messages in '' @ cid @ '')''] else map history_line messages), s1))"

section \<open>Properties\<close>

lemma hex_plain:
  assumes "hex_law hex"
  shows "plain (hex bs)"
proof -
  have "set (hex bs) \<subseteq> set ''0123456789abcdef''" using assms unfolding hex_law_def by blast
  moreover have "NUL \<notin> set ''0123456789abcdef''" by (simp add: NUL_def)
  ultimately show ?thesis unfolding plain_def by blast
qed

text \<open>
  The identity of a node survives restarts: the first boot on an empty database creates
  an identity and a device id, and every later boot, whatever it would draw, returns
  exactly these and leaves the database alone.
\<close>

theorem restart_keeps_identity:
  assumes "cn_faults c = []" "t_identity (cn_tables c) = None" "hex_law hex"
    and "length (dr_classical d) = 32" "length (dr_pq d) = 32"
  shows "\<exists>kp did c1. load_or_create_identity E hex d c = (Inr (kp, did), c1) \<and> ikp_wf kp \<and> did = hex (dr_device d) \<and>
    load_or_create_identity E hex d' c1 = (Inr (kp, did), c1)"
proof -
  let ?kp = "\<lparr>ikp_classical = dr_classical d, ikp_pq = \<lparr>mlsk_key = dr_pq d\<rparr>\<rparr>"
  let ?r = "\<lparr>ir_device_id = hex (dr_device d), ir_classical_seed = dr_classical d, ir_pq_seed = dr_pq d, ir_created_at = dr_now d\<rparr>"
  let ?c1 = "c\<lparr>cn_tables := cn_tables c\<lparr>t_identity := Some (identity_params ?r)\<rparr>\<rparr>"
  have "load_identity E c = (Inr None, c)"
    using assms(1,2) by (intro load_identity_quiet) simp_all
  moreover have "save_identity ?r c = (Inr (), ?c1)"
    using assms(1,2) hex_plain [OF assms(3)] by (simp add: save_identity_quiet)
  ultimately have first: "load_or_create_identity E hex d c = (Inr (?kp, hex (dr_device d)), ?c1)"
    by (simp add: load_or_create_identity_def identity_generate_def identity_seeds_def random_hex_device_id_def Let_def)
  have "load_identity E ?c1 = (Inr (Some ?r), ?c1)"
    using assms(1) by (intro load_identity_quiet) simp_all
  then have "load_or_create_identity E hex d' ?c1 = (Inr (?kp, hex (dr_device d)), ?c1)"
    using assms(4,5) by (simp add: load_or_create_identity_def identity_from_seed_def)
  with first assms(4,5) show ?thesis by (auto simp: ikp_wf_def)
qed

theorem restart_keeps_identity_witness:
  "\<exists>kp did c1. load_or_create_identity sample_engine sample_hex
      \<lparr>dr_classical = replicate 32 1, dr_pq = replicate 32 2, dr_device = [10, 11], dr_now = 3\<rparr> (sample_db migrated_tables []) =
        (Inr (kp, did), c1) \<and> did = ''0a0b'' \<and>
    load_or_create_identity sample_engine sample_hex
      \<lparr>dr_classical = replicate 32 7, dr_pq = replicate 32 8, dr_device = [12], dr_now = 4\<rparr> c1 = (Inr (kp, did), c1)"
proof -
  have "sample_hex [10, 11] = ''0a0b''" by (simp add: sample_hex_def hex_digits_def)
  then show ?thesis
    using restart_keeps_identity [OF _ _ sample_hex_law, of "sample_db migrated_tables []"
        "\<lparr>dr_classical = replicate 32 1, dr_pq = replicate 32 2, dr_device = [10, 11], dr_now = 3\<rparr>" sample_engine
        "\<lparr>dr_classical = replicate 32 7, dr_pq = replicate 32 8, dr_device = [12], dr_now = 4\<rparr>"]
    by (auto simp: migrated_tables_def empty_tables_def sample_db_def)
qed

text \<open>So does its signed prekey, which is read back from the file that the first boot wrote.\<close>

definition pretty_law :: "json_text \<Rightarrow> (json \<Rightarrow> string + bytes) \<Rightarrow> bool" where
  "pretty_law J pretty \<longleftrightarrow> (\<forall>j. json_wf j \<longrightarrow> (\<exists>bs. pretty j = Inr bs \<and> utf8 bs \<and> json_from_slice J bs = Inr j))"

lemma prekey_generate_ok:
  assumes "signature_laws P" "kem_laws P" "ikp_wf identity" "kpriv_wf k"
  shows "\<exists>m. prekey_generate P (kpriv_classical k) (Some (kpriv_pq k)) now identity = Inr m \<and> pmat_wf m \<and>
    prekey_private_key m = Inr k \<and> pmat_public_key m = kem_public_key P k"
proof -
  obtain sig where "sign_hybrid P identity (x25519_base P (kpriv_classical k)) = Inr sig" "hs_wf sig"
    by (rule sign_hybrid_ok [OF assms(1,3)])
  moreover have "kpub_wf (kem_public_key P k)" by (rule kem_public_key_wf [OF assms(2,4)])
  ultimately show ?thesis
    using assms(4)
    by (simp add: prekey_generate_def kem_generate_def pmat_wf_def prekey_private_key_def kem_public_key_def kpriv_wf_def)
qed

lemma restart_keeps_prekey:
  assumes "pretty_law J pretty" "fs_files (ns_fs s) ''bundle.json'' = None" "fs_writes (ns_fs s) ''bundle.json'' = Written"
    and "fs_readable (ns_fs s) ''bundle.json''"
    and "prekey_generate P classical_draw dk_seed now (ns_identity s) = Inr m" "pmat_wf m"
  shows "\<exists>s1. store_prekey P J pretty classical_draw dk_seed now s = (Inr m, s1) \<and>
    store_prekey P J pretty classical_draw' dk_seed' now' s1 = (Inr m, s1)"
proof -
  obtain bs where bs: "pretty (prekey_material_to_json m) = Inr bs" "utf8 bs"
      "json_from_slice J bs = Inr (prekey_material_to_json m)"
    using assms(1) pmat_json.to_json_wf [OF assms(6)] unfolding pretty_law_def by blast
  let ?s1 = "s\<lparr>ns_fs := (ns_fs s)\<lparr>fs_files := (fs_files (ns_fs s))(''bundle.json'' \<mapsto> bs)\<rparr>\<rparr>"
  have "store_prekey P J pretty classical_draw dk_seed now s = (Inr m, ?s1)"
    using assms(2-5) bs(1) by (simp add: store_prekey_def fs_read_string_def fs_read_def fs_write_def)
  moreover have "store_prekey P J pretty classical_draw' dk_seed' now' ?s1 = (Inr m, ?s1)"
    using assms(4) bs(2,3) pmat_json.of_to_json [OF assms(6)]
    by (simp add: store_prekey_def fs_read_string_def fs_read_def from_utf8_def from_str_def from_slice_def context_json_def)
  ultimately show ?thesis by blast
qed

end
