(* ===== verification/Node.thy ===== *)
theory Node
  imports Wire "HOL-Library.Multiset" "HOL-Library.Sublist"
begin

text \<open>
  The running node of \<open>presidium-network/src/node.rs\<close>: the handle's methods, the start-up of the
  swarm task, and its event loop with the table of pending direct requests.

  The swarm (libp2p) is not part of the repository. What the node asks of it is the list
  of actions in \<open>nd_actions\<close>; what it answers arrives as arguments and as swarm events: the
  id of a new outbound request, the listen addresses, and the events themselves. The events
  that the node reports are the list \<open>nd_events\<close>.
\<close>

section \<open>Configuration and data\<close>

datatype kad_mode = Disabled | Client | Server

record node_config =
  nc_listen :: "multiaddr list"
  nc_bootstrap_peers :: "multiaddr list"
  nc_mdns_enabled :: bool
  nc_auto_dial :: bool
  nc_kad_mode :: kad_mode
  nc_subscribe_topics :: "string list"
  nc_idle_connection_timeout :: nat
  nc_request_timeout :: nat

text \<open>The default configuration; durations in seconds.\<close>

definition default_config :: node_config where
  "default_config =
     \<lparr>nc_listen = [], nc_bootstrap_peers = [], nc_mdns_enabled = True, nc_auto_dial = True, nc_kad_mode = Client,
      nc_subscribe_topics = [], nc_idle_connection_timeout = 120, nc_request_timeout = 30\<rparr>"

type_synonym request_id = nat
type_synonym channel = nat

datatype control =
    Dial multiaddr
  | SendDirect peer_id network_envelope
  | Publish string network_envelope
  | Subscribe string
  | Unsubscribe string
  | ListenAddrs
  | Shutdown

datatype node_event =
    Listen multiaddr
  | PeerConnected peer_id
  | PeerDisconnected peer_id
  | PeerDiscovered peer_id multiaddr
  | DirectMessage peer_id network_envelope
  | DirectDelivered peer_id bytes network_response
  | DirectFailed peer_id string
  | GossipMessage peer_id string network_envelope

datatype swarm_event =
    NewListenAddr multiaddr
  | ConnectionEstablished peer_id
  | ConnectionClosed peer_id
  | MdnsDiscovered "(peer_id \<times> multiaddr) list"
  | MdnsExpired "(peer_id \<times> multiaddr) list"
  | RoutingUpdated peer_id multiaddr "multiaddr list"
  | GossipsubMessage peer_id string bytes
  | InboundRequest peer_id network_request channel
  | InboundResponse peer_id request_id network_response
  | OutboundFailure peer_id request_id string
  | OtherEvent

datatype action =
    AListenOn multiaddr
  | ADial multiaddr
  | ASendRequest request_id peer_id network_request
  | ASendResponse channel network_response
  | APublish string bytes
  | ASubscribe string
  | AUnsubscribe string
  | AReplyAddrs "multiaddr list"
  | AAddAddress peer_id multiaddr
  | ARemoveAddress peer_id multiaddr

record node =
  nd_pending :: "request_id \<rightharpoonup> peer_id \<times> bytes"
  nd_actions :: "action list"
  nd_events :: "node_event list"
  nd_receiver_open :: bool

definition act :: "action \<Rightarrow> node \<Rightarrow> node" where
  "act a n = n\<lparr>nd_actions := nd_actions n @ [a]\<rparr>"

text \<open>An event for which there is no receiver any more is dropped.\<close>

definition emit :: "node_event \<Rightarrow> node \<Rightarrow> node" where
  "emit e n = (if nd_receiver_open n then n\<lparr>nd_events := nd_events n @ [e]\<rparr> else n)"

section \<open>The handle\<close>

text \<open>The methods of the handle put a control message on the channel, if the task still reads it.\<close>

definition send_control :: "bool \<Rightarrow> control \<Rightarrow> control list \<Rightarrow> unit network_result \<times> control list" where
  "send_control running c queue = (if running then (Inr (), queue @ [c]) else (Inl NotRunning, queue))"

definition node_dial :: "bool \<Rightarrow> multiaddr \<Rightarrow> control list \<Rightarrow> unit network_result \<times> control list" where
  "node_dial running addr = send_control running (Dial addr)"

definition send_direct :: "bool \<Rightarrow> peer_id \<Rightarrow> network_envelope \<Rightarrow> control list \<Rightarrow> unit network_result \<times> control list" where
  "send_direct running peer envelope = send_control running (SendDirect peer envelope)"

definition node_publish :: "bool \<Rightarrow> string \<Rightarrow> network_envelope \<Rightarrow> control list \<Rightarrow> unit network_result \<times> control list" where
  "node_publish running topic envelope = send_control running (Publish topic envelope)"

definition node_subscribe :: "bool \<Rightarrow> string \<Rightarrow> control list \<Rightarrow> unit network_result \<times> control list" where
  "node_subscribe running topic = send_control running (Subscribe topic)"

definition node_unsubscribe :: "bool \<Rightarrow> string \<Rightarrow> control list \<Rightarrow> unit network_result \<times> control list" where
  "node_unsubscribe running topic = send_control running (Unsubscribe topic)"

text \<open>The answer to \<open>listen_addrs\<close> is \<^term>\<open>None\<close> when the task ends before it answers.\<close>

definition node_listen_addrs :: "bool \<Rightarrow> multiaddr list option \<Rightarrow> control list \<Rightarrow> multiaddr list \<times> control list" where
  "node_listen_addrs running answer queue =
    (case send_control running ListenAddrs queue of
       (Inl _, queue1) \<Rightarrow> ([], queue1)
     | (Inr _, queue1) \<Rightarrow> (case_option [] id answer, queue1))"

text \<open>\<open>stop\<close>: ask the task to end, then abort it; it reads no more messages.\<close>

definition node_stop :: "bool \<Rightarrow> control list \<Rightarrow> bool \<times> control list" where
  "node_stop running queue = (False, snd (send_control running Shutdown queue))"

section \<open>Start-up\<close>

definition bootstrap :: "(multiaddr \<Rightarrow> string) \<Rightarrow> multiaddr \<Rightarrow> node \<Rightarrow> node" where
  "bootstrap display addr n =
    (case parse_bootstrap_peer display addr of
       Inl e \<Rightarrow> n
     | Inr p \<Rightarrow> act (ADial (bp_address p))
         (case bp_peer p of None \<Rightarrow> n | Some i \<Rightarrow> act (AAddAddress i (bp_address p)) n))"

text \<open>\<open>any_addr\<close> is the address \<open>/ip4/0.0.0.0/tcp/0\<close>.\<close>

definition any_addr :: multiaddr where
  "any_addr = [Component ''ip4/0.0.0.0'', Tcp 0]"

definition node_start :: "(multiaddr \<Rightarrow> string) \<Rightarrow> node_config \<Rightarrow> node" where
  "node_start display cfg =
    (let n0 = \<lparr>nd_pending = Map.empty, nd_actions = [], nd_events = [], nd_receiver_open = True\<rparr>;
         listen_addrs = (if nc_listen cfg = [] then [any_addr] else nc_listen cfg);
         n1 = fold (\<lambda>addr. act (AListenOn addr)) listen_addrs n0;
         n2 = fold (\<lambda>topic. act (ASubscribe topic)) (nc_subscribe_topics cfg) n1
     in fold (bootstrap display) (nc_bootstrap_peers cfg) n2)"

section \<open>Control messages\<close>

text \<open>
  The answer of the swarm: the id of a new request, its listen addresses. \<^term>\<open>None\<close> means that
  the loop is left.
\<close>

fun handle_control ::
    "network_envelope proto \<Rightarrow> request_id \<Rightarrow> multiaddr list \<Rightarrow> control \<Rightarrow> node \<Rightarrow> node option"
where
  "handle_control Q rid addrs (Dial addr) n = Some (act (ADial addr) n)"
| "handle_control Q rid addrs (SendDirect peer envelope) n =
    (let conversation_id = ne_conversation_id envelope;
         n1 = act (ASendRequest rid peer \<lparr>nrq_envelope = Some envelope\<rparr>) n
     in Some (n1\<lparr>nd_pending := (nd_pending n1)(rid \<mapsto> (peer, conversation_id))\<rparr>))"
| "handle_control Q rid addrs (Publish topic envelope) n = Some (act (APublish topic (pb_encode Q envelope)) n)"
| "handle_control Q rid addrs (Subscribe topic) n = Some (act (ASubscribe topic) n)"
| "handle_control Q rid addrs (Unsubscribe topic) n = Some (act (AUnsubscribe topic) n)"
| "handle_control Q rid addrs ListenAddrs n = Some (act (AReplyAddrs addrs) n)"
| "handle_control Q rid addrs Shutdown n = None"

section \<open>Swarm events\<close>

definition mdns_discovered :: "node_config \<Rightarrow> peer_id \<times> multiaddr \<Rightarrow> node \<Rightarrow> node" where
  "mdns_discovered cfg pa n =
    (let n1 = emit (PeerDiscovered (fst pa) (snd pa)) (act (AAddAddress (fst pa) (snd pa)) n)
     in if nc_auto_dial cfg then act (ADial (snd pa)) n1 else n1)"

fun handle_swarm_event :: "network_envelope proto \<Rightarrow> node_config \<Rightarrow> swarm_event \<Rightarrow> node \<Rightarrow> node" where
  "handle_swarm_event Q cfg (NewListenAddr address) n = emit (Listen address) n"
| "handle_swarm_event Q cfg (ConnectionEstablished peer) n = emit (PeerConnected peer) n"
| "handle_swarm_event Q cfg (ConnectionClosed peer) n = emit (PeerDisconnected peer) n"
| "handle_swarm_event Q cfg (MdnsDiscovered list) n =
     (if nc_mdns_enabled cfg then fold (mdns_discovered cfg) list n else n)"
| "handle_swarm_event Q cfg (MdnsExpired list) n =
     (if nc_mdns_enabled cfg then fold (\<lambda>pa. act (ARemoveAddress (fst pa) (snd pa))) list n else n)"
| "handle_swarm_event Q cfg (RoutingUpdated peer first others) n = emit (PeerDiscovered peer first) n"
| "handle_swarm_event Q cfg (GossipsubMessage source topic data) n =
    (case pb_decode Q data of
       Inr envelope \<Rightarrow> emit (GossipMessage source topic envelope) n
     | Inl e \<Rightarrow> n)"
| "handle_swarm_event Q cfg (InboundRequest peer request chan) n =
    (let ack_id = (case nrq_envelope request of None \<Rightarrow> [] | Some e \<Rightarrow> ne_conversation_id e);
         status = \<lparr>nrs_status = STATUS_OK, nrs_ack_id = ack_id\<rparr>
     in case nrq_envelope request of
          None \<Rightarrow> n
        | Some envelope \<Rightarrow> emit (DirectMessage peer envelope) (act (ASendResponse chan status) n))"
| "handle_swarm_event Q cfg (InboundResponse peer rid response) n =
    (case nd_pending n rid of
       None \<Rightarrow> n
     | Some (to, conversation_id) \<Rightarrow>
         emit (DirectDelivered to conversation_id response) (n\<lparr>nd_pending := (nd_pending n)(rid := None)\<rparr>))"
| "handle_swarm_event Q cfg (OutboundFailure peer rid error) n =
     emit (DirectFailed peer error) (n\<lparr>nd_pending := (nd_pending n)(rid := None)\<rparr>)"
| "handle_swarm_event Q cfg OtherEvent n = n"

section \<open>The loop as a transition system\<close>

text \<open>
  The ids under which requests were sent. The swarm gives every outbound request an id of
  its own, which is the condition on the step of a control message.
\<close>

definition issued :: "node \<Rightarrow> request_id set" where
  "issued n = {rid. \<exists>p r. ASendRequest rid p r \<in> set (nd_actions n)}"

datatype happening = Heard request_id control | Happened swarm_event | ReceiverDropped

inductive node_step :: "network_envelope proto \<Rightarrow> node_config \<Rightarrow> happening \<Rightarrow> node \<Rightarrow> node \<Rightarrow> bool" for Q cfg where
  control: "rid \<notin> issued n \<Longrightarrow> handle_control Q rid addrs c n = Some n' \<Longrightarrow> node_step Q cfg (Heard rid c) n n'"
| event: "handle_swarm_event Q cfg e n = n' \<Longrightarrow> node_step Q cfg (Happened e) n n'"
| receiver_dropped: "node_step Q cfg ReceiverDropped n (n\<lparr>nd_receiver_open := False\<rparr>)"

inductive_cases node_stepE: "node_step Q cfg h n n'"
inductive_cases node_heardE: "node_step Q cfg (Heard rid c) n n'"

text \<open>A run with the history of what happened, the latest first.\<close>

inductive node_run ::
    "network_envelope proto \<Rightarrow> (multiaddr \<Rightarrow> string) \<Rightarrow> node_config \<Rightarrow> happening list \<Rightarrow> node \<Rightarrow> bool"
  for Q display cfg
where
  start: "node_run Q display cfg [] (node_start display cfg)"
| steps: "node_run Q display cfg t n \<Longrightarrow> node_step Q cfg h n n' \<Longrightarrow> node_run Q display cfg (h # t) n'"

section \<open>What a history says\<close>

text \<open>
  The specification of the book-keeping, which looks only at what happened: the requests that the application
  asked for; whether the request \<open>rid\<close> is still open, with its peer and conversation; the open requests that
  were answered; those that failed; the failures that the swarm told of, open or not; and the direct messages that came in.
\<close>

fun requests_asked :: "happening list \<Rightarrow> (request_id \<times> peer_id \<times> network_envelope) list" where
  "requests_asked [] = []"
| "requests_asked (Heard rid (SendDirect p e) # t) = requests_asked t @ [(rid, p, e)]"
| "requests_asked (_ # t) = requests_asked t"

fun open_request :: "happening list \<Rightarrow> request_id \<rightharpoonup> peer_id \<times> bytes" where
  "open_request [] = Map.empty"
| "open_request (Heard rid (SendDirect p e) # t) = (open_request t)(rid \<mapsto> (p, ne_conversation_id e))"
| "open_request (Happened (InboundResponse p rid r) # t) = (open_request t)(rid := None)"
| "open_request (Happened (OutboundFailure p rid err) # t) = (open_request t)(rid := None)"
| "open_request (_ # t) = open_request t"

fun requests_answered :: "happening list \<Rightarrow> (peer_id \<times> bytes) list" where
  "requests_answered [] = []"
| "requests_answered (Happened (InboundResponse p rid r) # t) = requests_answered t @ (case open_request t rid of None \<Rightarrow> [] | Some x \<Rightarrow> [x])"
| "requests_answered (_ # t) = requests_answered t"

fun requests_failed :: "happening list \<Rightarrow> (peer_id \<times> bytes) list" where
  "requests_failed [] = []"
| "requests_failed (Happened (OutboundFailure p rid err) # t) = requests_failed t @ (case open_request t rid of None \<Rightarrow> [] | Some x \<Rightarrow> [x])"
| "requests_failed (_ # t) = requests_failed t"

fun failures_told :: "happening list \<Rightarrow> (peer_id \<times> string) list" where
  "failures_told [] = []"
| "failures_told (Happened (OutboundFailure p rid err) # t) = failures_told t @ [(p, err)]"
| "failures_told (_ # t) = failures_told t"

fun messages_received :: "happening list \<Rightarrow> (channel \<times> peer_id \<times> network_envelope) list" where
  "messages_received [] = []"
| "messages_received (Happened (InboundRequest p r ch) # t) =
     messages_received t @ (case nrq_envelope r of None \<Rightarrow> [] | Some e \<Rightarrow> [(ch, p, e)])"
| "messages_received (_ # t) = messages_received t"

section \<open>What the node did\<close>

text \<open>Requests and answers that it sent; deliveries, failures and messages that it reported; in order.\<close>

fun sends :: "action list \<Rightarrow> (request_id \<times> peer_id \<times> network_request) list" where
  "sends [] = []"
| "sends (ASendRequest rid p r # as) = (rid, p, r) # sends as"
| "sends (_ # as) = sends as"

fun acks :: "action list \<Rightarrow> (channel \<times> network_response) list" where
  "acks [] = []"
| "acks (ASendResponse ch r # as) = (ch, r) # acks as"
| "acks (_ # as) = acks as"

fun deliveries_reported :: "node_event list \<Rightarrow> (peer_id \<times> bytes) list" where
  "deliveries_reported [] = []"
| "deliveries_reported (DirectDelivered p c r # es) = (p, c) # deliveries_reported es"
| "deliveries_reported (_ # es) = deliveries_reported es"

fun failures_reported :: "node_event list \<Rightarrow> (peer_id \<times> string) list" where
  "failures_reported [] = []"
| "failures_reported (DirectFailed p err # es) = (p, err) # failures_reported es"
| "failures_reported (_ # es) = failures_reported es"

fun messages_reported :: "node_event list \<Rightarrow> (peer_id \<times> network_envelope) list" where
  "messages_reported [] = []"
| "messages_reported (DirectMessage p e # es) = (p, e) # messages_reported es"
| "messages_reported (_ # es) = messages_reported es"

lemma trace_append [simp]:
  "sends (as @ bs) = sends as @ sends bs" "acks (as @ bs) = acks as @ acks bs"
  "deliveries_reported (es @ fs) = deliveries_reported es @ deliveries_reported fs" "failures_reported (es @ fs) = failures_reported es @ failures_reported fs"
  "messages_reported (es @ fs) = messages_reported es @ messages_reported fs"
proof -
  show "sends (as @ bs) = sends as @ sends bs" by (induction as rule: sends.induct) auto
  show "acks (as @ bs) = acks as @ acks bs" by (induction as rule: acks.induct) auto
  show "deliveries_reported (es @ fs) = deliveries_reported es @ deliveries_reported fs" by (induction es rule: deliveries_reported.induct) auto
  show "failures_reported (es @ fs) = failures_reported es @ failures_reported fs" by (induction es rule: failures_reported.induct) auto
  show "messages_reported (es @ fs) = messages_reported es @ messages_reported fs" by (induction es rule: messages_reported.induct) auto
qed

lemma issued_sends: "issued n = fst ` set (sends (nd_actions n))"
proof -
  have "ASendRequest rid p r \<in> set as \<longleftrightarrow> (rid, p, r) \<in> set (sends as)" for rid p r as
    by (induction as rule: sends.induct) auto
  then show ?thesis by (force simp: issued_def)
qed

section \<open>Accounting\<close>

definition outstanding :: "(request_id \<rightharpoonup> peer_id \<times> bytes) \<Rightarrow> (peer_id \<times> bytes) multiset" where
  "outstanding p = image_mset (\<lambda>rid. the (p rid)) (mset_set (dom p))"

lemma outstanding_remove:
  assumes "finite (dom p)" "p rid = Some x"
  shows "outstanding p = add_mset x (outstanding (p(rid := None)))"
proof -
  have d: "dom p = insert rid (dom p - {rid})" using assms(2) by blast
  have "outstanding p = image_mset (\<lambda>r. the (p r)) (mset_set (insert rid (dom p - {rid})))"
    using d by (simp add: outstanding_def)
  also have "\<dots> = add_mset x (image_mset (\<lambda>r. the (p r)) (mset_set (dom p - {rid})))"
    using assms by (subst mset_set.insert) simp_all
  also have "image_mset (\<lambda>r. the (p r)) (mset_set (dom p - {rid})) =
      image_mset (\<lambda>r. the ((p(rid := None)) r)) (mset_set (dom p - {rid}))"
    using assms(1) by (intro image_mset_cong) simp
  finally show ?thesis by (simp add: outstanding_def)
qed

lemma outstanding_insert:
  assumes "finite (dom p)" "p rid = None"
  shows "outstanding (p(rid \<mapsto> x)) = add_mset x (outstanding p)"
proof -
  have "p(rid := None) = p" using assms(2) by auto
  then show ?thesis using outstanding_remove [of "p(rid \<mapsto> x)" rid x] assms(1) by simp
qed

text \<open>Every request that was asked for was answered, is still open, or failed: each is counted once.\<close>

definition balanced :: "happening list \<Rightarrow> bool" where
  "balanced t \<longleftrightarrow> finite (dom (open_request t)) \<and> dom (open_request t) \<subseteq> fst ` set (requests_asked t) \<and>
     image_mset (\<lambda>(rid, p, e). (p, ne_conversation_id e)) (mset (requests_asked t)) =
       mset (requests_answered t) + outstanding (open_request t) + mset (requests_failed t)"

lemma outstanding_settle:
  assumes "finite (dom p)"
  shows "outstanding p = mset (case p rid of None \<Rightarrow> [] | Some x \<Rightarrow> [x]) + outstanding (p(rid := None))"
proof (cases "p rid")
  case None
  then have "p(rid := None) = p" by auto
  with None show ?thesis by simp
next
  case (Some x)
  with outstanding_remove [OF assms Some] show ?thesis by simp
qed

lemma balanced_step:
  assumes "balanced t" "\<And>rid p e. h = Heard rid (SendDirect p e) \<Longrightarrow> rid \<notin> fst ` set (requests_asked t)"
  shows "balanced (h # t)"
proof (cases "h # t" rule: open_request.cases)
  case (2 rid p e t')
  with assms have "open_request t rid = None" by (auto simp: balanced_def)
  with 2 assms(1) show ?thesis by (auto simp: balanced_def outstanding_insert)
next
  case (3 p rid r t')
  with assms(1) outstanding_settle [of "open_request t" rid] show ?thesis by (auto simp: balanced_def)
next
  case (4 p rid err t')
  with assms(1) outstanding_settle [of "open_request t" rid] show ?thesis by (auto simp: balanced_def)
qed (use assms(1) in \<open>simp_all add: balanced_def\<close>)

definition acknowledgement :: "channel \<times> peer_id \<times> network_envelope \<Rightarrow> channel \<times> network_response" where
  "acknowledgement = (\<lambda>(ch, p, e). (ch, \<lparr>nrs_status = STATUS_OK, nrs_ack_id = ne_conversation_id e\<rparr>))"

text \<open>A list that reports another: in full while there is a receiver, up to the moment it was dropped otherwise.\<close>

definition tells_of :: "bool \<Rightarrow> 'a list \<Rightarrow> 'a list \<Rightarrow> bool" where
  "tells_of receiver xs ys \<longleftrightarrow> prefix xs ys \<and> (receiver \<longrightarrow> xs = ys)"

lemma tells_simps [simp]:
  "tells_of b xs xs" "tells_of True xs ys \<longleftrightarrow> xs = ys"
  "tells_of False xs ys \<Longrightarrow> tells_of False xs (ys @ zs)"
  by (auto simp: tells_of_def)

definition accounts :: "happening list \<Rightarrow> node \<Rightarrow> bool" where
  "accounts t n \<longleftrightarrow> nd_pending n = open_request t \<and>
     sends (nd_actions n) = map (\<lambda>(rid, p, e). (rid, p, \<lparr>nrq_envelope = Some e\<rparr>)) (requests_asked t) \<and>
     acks (nd_actions n) = map acknowledgement (messages_received t) \<and>
     tells_of (nd_receiver_open n) (deliveries_reported (nd_events n)) (requests_answered t) \<and>
     tells_of (nd_receiver_open n) (failures_reported (nd_events n)) (failures_told t) \<and>
     tells_of (nd_receiver_open n) (messages_reported (nd_events n)) (map snd (messages_received t))"

definition quiet_action :: "action \<Rightarrow> bool" where
  "quiet_action a \<longleftrightarrow> (\<forall>rid p r. a \<noteq> ASendRequest rid p r) \<and> (\<forall>ch r. a \<noteq> ASendResponse ch r)"

definition quiet_event :: "node_event \<Rightarrow> bool" where
  "quiet_event e \<longleftrightarrow> (\<forall>p c r. e \<noteq> DirectDelivered p c r) \<and> (\<forall>p err. e \<noteq> DirectFailed p err) \<and> (\<forall>p v. e \<noteq> DirectMessage p v)"

lemma act_accounts: "quiet_action a \<Longrightarrow> accounts t n \<Longrightarrow> accounts t (act a n)"
  by (cases a) (auto simp: quiet_action_def accounts_def act_def)

lemma emit_accounts: "quiet_event e \<Longrightarrow> accounts t n \<Longrightarrow> accounts t (emit e n)"
  by (cases e) (auto simp: quiet_event_def accounts_def emit_def)

lemma fold_accounts: "(\<And>x n. accounts t n \<Longrightarrow> accounts t (f x n)) \<Longrightarrow> accounts t n \<Longrightarrow> accounts t (fold f xs n)"
  by (induction xs arbitrary: n) simp_all

lemma start_accounts: "accounts [] (node_start display cfg)"
proof -
  have "accounts [] \<lparr>nd_pending = Map.empty, nd_actions = [], nd_events = [], nd_receiver_open = True\<rparr>"
    by (simp add: accounts_def)
  moreover have "accounts [] (bootstrap display addr n)" if "accounts [] n" for addr n
    using that by (auto simp: bootstrap_def quiet_action_def intro!: act_accounts split: sum.split option.split)
  ultimately show ?thesis
    unfolding node_start_def Let_def by (intro fold_accounts act_accounts) (simp_all add: quiet_action_def)
qed

lemma control_accounts:
  assumes "accounts t n" "handle_control Q rid addrs c n = Some n'"
  shows "accounts (Heard rid c # t) n'"
proof (cases c)
  case (SendDirect p e)
  with assms show ?thesis by (auto simp: accounts_def act_def Let_def)
qed (use assms in \<open>auto simp: quiet_action_def accounts_def act_def\<close>)

lemma event_accounts:
  assumes "accounts t n"
  shows "accounts (Happened e # t) (handle_swarm_event Q cfg e n)"
proof (cases e)
  case (MdnsDiscovered list)
  have "accounts t (mdns_discovered cfg pa m)" if "accounts t m" for pa m
    using that by (auto simp: mdns_discovered_def Let_def quiet_action_def quiet_event_def intro!: act_accounts emit_accounts)
  then have "accounts t (handle_swarm_event Q cfg e n)" using MdnsDiscovered assms by (simp add: fold_accounts)
  with MdnsDiscovered show ?thesis by (simp add: accounts_def)
next
  case (MdnsExpired list)
  have "accounts t (handle_swarm_event Q cfg e n)"
    using MdnsExpired assms by (auto simp: quiet_action_def intro!: fold_accounts act_accounts)
  with MdnsExpired show ?thesis by (simp add: accounts_def)
next
  case (InboundRequest p r ch)
  with assms show ?thesis
    by (auto simp: accounts_def emit_def act_def acknowledgement_def Let_def split: option.split)
next
  case (InboundResponse p rid r)
  with assms show ?thesis by (auto simp: accounts_def emit_def split: option.split)
next
  case (OutboundFailure p rid err)
  with assms show ?thesis by (auto simp: accounts_def emit_def)
qed (use assms in \<open>auto simp: accounts_def emit_def split: sum.split\<close>)

lemma run_accounts: "node_run Q display cfg t n \<Longrightarrow> accounts t n \<and> balanced t"
proof (induction rule: node_run.induct)
  case start
  show ?case by (simp add: start_accounts balanced_def outstanding_def)
next
  case (steps t n h n')
  have fresh: "rid \<notin> fst ` set (requests_asked t)" if "h = Heard rid (SendDirect p e)" for rid p e
  proof -
    have "rid \<notin> issued n" using steps(2) that by (auto elim: node_heardE)
    moreover have "issued n = fst ` set (requests_asked t)"
      using steps(3) by (simp add: issued_sends accounts_def image_image split_beta)
    ultimately show ?thesis by simp
  qed
  from steps(2,3) have "accounts (h # t) n'"
    by (auto elim!: node_stepE intro: control_accounts event_accounts) (simp add: accounts_def tells_of_def)
  with steps(3) balanced_step fresh show ?case by blast
qed

text \<open>
  C18. The book-keeping of direct requests in every run of the node. A request is in the table of pending
  requests exactly if the history has it open: the application asked for it and neither an answer nor a
  failure came since. What the application asked for is what went out, and each of these requests is counted
  exactly once as answered, still pending or failed. Each incoming message is acknowledged, with the id of its
  conversation and on its own channel. While the receiver of the events is there, the application is told of each answered
  request with its peer and conversation, of each failure, and of each incoming message, in order and nothing else;
  once it is dropped, of a prefix.
\<close>

theorem node_accounting:
  assumes "node_run Q display cfg t n"
  shows "nd_pending n = open_request t \<and>
    sends (nd_actions n) = map (\<lambda>(rid, p, e). (rid, p, \<lparr>nrq_envelope = Some e\<rparr>)) (requests_asked t) \<and>
    image_mset (\<lambda>(rid, p, e). (p, ne_conversation_id e)) (mset (requests_asked t)) =
      mset (requests_answered t) + outstanding (nd_pending n) + mset (requests_failed t) \<and>
    acks (nd_actions n) = map acknowledgement (messages_received t) \<and>
    tells_of (nd_receiver_open n) (deliveries_reported (nd_events n)) (requests_answered t) \<and>
    tells_of (nd_receiver_open n) (failures_reported (nd_events n)) (failures_told t) \<and>
    tells_of (nd_receiver_open n) (messages_reported (nd_events n)) (map snd (messages_received t))"
  using run_accounts [OF assms] by (simp add: accounts_def balanced_def)

definition sample_envelope :: network_envelope where
  "sample_envelope = \<lparr>ne_kind = 1, ne_conversation_id = [1, 2], ne_sender_device_id = [3], ne_timestamp = 4,
     ne_encrypted_payload = [9], ne_mac = [], ne_protocol_version = 1, ne_nonce = [], ne_signature = []\<rparr>"

text \<open>Two requests to Bob, of which the first is answered, and a message of Bob.\<close>

definition sample_history :: "happening list" where
  "sample_history = [Happened (InboundRequest ''bob'' \<lparr>nrq_envelope = Some sample_envelope\<rparr> 7),
     Happened (InboundResponse ''bob'' 0 \<lparr>nrs_status = STATUS_OK, nrs_ack_id = [1, 2]\<rparr>),
     Heard 1 (SendDirect ''bob'' sample_envelope), Heard 0 (SendDirect ''bob'' sample_envelope)]"

lemma sample_node_run: obtains n where
  "node_run \<lparr>pb_encode = (\<lambda>_. []), pb_decode = (\<lambda>_. Inl [])\<rparr> (\<lambda>_. []) default_config sample_history n" "nd_receiver_open n"
proof -
  let ?Q = "\<lparr>pb_encode = (\<lambda>_. []), pb_decode = (\<lambda>_. Inl [])\<rparr> :: network_envelope proto"
  let ?c = "\<lambda>rid n. the (handle_control ?Q rid [] (SendDirect ''bob'' sample_envelope) n)"
  let ?n0 = "node_start (\<lambda>_. []) default_config"
  have send: "node_step ?Q default_config (Heard rid (SendDirect ''bob'' sample_envelope)) n (?c rid n)" if "rid \<notin> issued n" for rid n
    using that by (intro node_step.control) (simp_all add: Let_def)
  have i0: "issued ?n0 = {}" "nd_receiver_open ?n0"
    by (simp_all add: issued_def node_start_def default_config_def act_def)
  then have i1: "issued (?c 0 ?n0) = {0}" by (simp add: issued_sends act_def Let_def)
  have "node_run ?Q (\<lambda>_. []) default_config [Heard 1 (SendDirect ''bob'' sample_envelope), Heard 0 (SendDirect ''bob'' sample_envelope)]
      (?c 1 (?c 0 ?n0))"
    by (intro node_run.steps [OF node_run.steps [OF node_run.start send] send]) (use i0(1) i1 in simp_all)
  from node_run.steps [OF node_run.steps [OF this node_step.event [OF refl]] node_step.event [OF refl],
      of "InboundRequest ''bob'' \<lparr>nrq_envelope = Some sample_envelope\<rparr> 7"
        "InboundResponse ''bob'' 0 \<lparr>nrs_status = STATUS_OK, nrs_ack_id = [1, 2]\<rparr>"]
  show thesis
    by (rule that [unfolded sample_history_def]) (use i0(2) in \<open>simp add: act_def emit_def Let_def split: option.split\<close>)
qed

theorem node_accounting_witness:
  "\<exists>n. node_run \<lparr>pb_encode = (\<lambda>_. []), pb_decode = (\<lambda>_. Inl [])\<rparr> (\<lambda>_. []) default_config sample_history n \<and>
    nd_pending n = [1 \<mapsto> (''bob'', [1, 2])] \<and> deliveries_reported (nd_events n) = [(''bob'', [1, 2])] \<and>
    sends (nd_actions n) = [(0, ''bob'', \<lparr>nrq_envelope = Some sample_envelope\<rparr>), (1, ''bob'', \<lparr>nrq_envelope = Some sample_envelope\<rparr>)] \<and>
    acks (nd_actions n) = [(7, \<lparr>nrs_status = STATUS_OK, nrs_ack_id = [1, 2]\<rparr>)] \<and>
    messages_reported (nd_events n) = [(''bob'', sample_envelope)]"
proof -
  obtain n where n: "node_run \<lparr>pb_encode = (\<lambda>_. []), pb_decode = (\<lambda>_. Inl [])\<rparr> (\<lambda>_. []) default_config sample_history n"
    "nd_receiver_open n" by (rule sample_node_run)
  have "[0 \<mapsto> (''bob'', [1, 2 :: byte]), 1 \<mapsto> (''bob'', [1, 2])](0 := None) = [1 :: nat \<mapsto> (''bob'', [1, 2])]" by auto
  with node_accounting [OF n(1)] n show ?thesis
    by (intro exI [of _ n]) (simp add: sample_history_def sample_envelope_def acknowledgement_def)
qed

text \<open>A request without an envelope is not answered; its sender waits for the time-out of its own swarm.\<close>

lemma empty_request_unanswered:
  "handle_swarm_event Q cfg (InboundRequest peer \<lparr>nrq_envelope = None\<rparr> chan) n = n"
  by simp

end
