(* ===== verification/Chat.thy ===== *)
theory Chat
  imports Node_Store Pqxdh Node
begin

text \<open>
  One-to-one chats, \<open>presidium-demo/src/session.rs\<close>: signed envelopes, an established session over
  the Double Ratchet with its persistence, and the two drivers of the handshake.

  The clock, the draws of the key generators and the answers of the peer are arguments. The
  network handle is its queue of control messages and whether the node still reads it.
\<close>

section \<open>Envelopes\<close>

definition KIND_DIRECT :: int where "KIND_DIRECT = 1"
definition KIND_GROUP :: int where "KIND_GROUP = 2"
definition KIND_SYNC :: int where "KIND_SYNC = 3"

definition MARKER_BUNDLE_REQ :: byte where "MARKER_BUNDLE_REQ = 0"
definition MARKER_BUNDLE :: byte where "MARKER_BUNDLE = 1"
definition MARKER_PREKEY :: byte where "MARKER_PREKEY = 2"
definition MARKER_RATCHET_PUB :: byte where "MARKER_RATCHET_PUB = 3"
definition MARKER_GROUP_KEY :: byte where "MARKER_GROUP_KEY = 4"

lemmas marker_defs = MARKER_BUNDLE_REQ_def MARKER_BUNDLE_def MARKER_PREKEY_def MARKER_RATCHET_PUB_def
  MARKER_GROUP_KEY_def

definition signed_bytes :: "bytes \<Rightarrow> bytes \<Rightarrow> bytes" where
  "signed_bytes header_json payload = header_json @ payload"

definition build_raw_envelope ::
    "prims \<Rightarrow> json_text \<Rightarrow> int \<Rightarrow> identity_key_pair \<Rightarrow> string \<Rightarrow> int \<Rightarrow> bytes \<Rightarrow> bytes \<Rightarrow> bytes \<Rightarrow>
      network_envelope app_result"
where
  "build_raw_envelope P J now identity device_id kind conversation_id payload header_json =
     and_then (map_err AppCrypto (sign_hybrid P identity (signed_bytes header_json payload))) (\<lambda>signature.
     let mac = sha256 P payload in
     and_then (map_err AppJson (to_vec J hybrid_signature_to_json signature)) (\<lambda>signature_json.
     Inr \<lparr>ne_kind = kind, ne_conversation_id = conversation_id, ne_sender_device_id = bstr device_id,
          ne_timestamp = clock_u64 now, ne_encrypted_payload = payload, ne_mac = mac,
          ne_protocol_version = 1, ne_nonce = header_json, ne_signature = signature_json\<rparr>))"

definition build_signed_envelope ::
    "prims \<Rightarrow> json_text \<Rightarrow> int \<Rightarrow> identity_key_pair \<Rightarrow> string \<Rightarrow> int \<Rightarrow> bytes \<Rightarrow> bytes \<Rightarrow> ratchet_message_header \<Rightarrow>
      network_envelope app_result"
where
  "build_signed_envelope P J now identity device_id kind conversation_id ciphertext header =
     and_then (map_err AppJson (to_vec J ratchet_header_to_json header)) (\<lambda>header_json.
     build_raw_envelope P J now identity device_id kind conversation_id ciphertext header_json)"

definition sync_envelope ::
    "prims \<Rightarrow> json_text \<Rightarrow> int \<Rightarrow> identity_key_pair \<Rightarrow> string \<Rightarrow> byte \<Rightarrow> bytes \<Rightarrow> network_envelope app_result"
where
  "sync_envelope P J now identity device_id marker body =
     build_raw_envelope P J now identity device_id KIND_SYNC (bstr device_id) (marker # body) []"

definition parse_header :: "json_text \<Rightarrow> bytes \<Rightarrow> ratchet_message_header app_result" where
  "parse_header J nonce = context_json ''parse ratchet header'' (from_slice J ratchet_header_of_json nonce)"

definition verify_envelope ::
    "prims \<Rightarrow> json_text \<Rightarrow> identity_public_key \<Rightarrow> network_envelope \<Rightarrow> bool app_result"
where
  "verify_envelope P J peer envelope =
     and_then (context_json ''parse signature'' (from_slice J hybrid_signature_of_json (ne_signature envelope)))
       (\<lambda>signature.
     let signed = signed_bytes (ne_nonce envelope) (ne_encrypted_payload envelope) in
     Inr (is_ok (verify_hybrid P peer signed signature)))"

section \<open>Sessions\<close>

record chat_session =
  ch_conversation_id :: string
  ch_peer_identity :: identity_public_key
  ch_is_initiator :: bool
  ch_ratchet :: double_ratchet
  ch_session_keys :: session_keys

definition chat_encrypt ::
    "prims \<Rightarrow> json_text \<Rightarrow> int \<Rightarrow> identity_key_pair \<Rightarrow> string \<Rightarrow> bytes \<Rightarrow> chat_session \<Rightarrow>
      network_envelope app_result \<times> chat_session"
where
  "chat_encrypt P J now identity device_id plaintext s =
    (case dr_encrypt P J plaintext (ch_ratchet s) of
       (r, ratchet) \<Rightarrow>
         let s1 = s\<lparr>ch_ratchet := ratchet\<rparr> in
         try_st (context_crypto ''ratchet encrypt'' r) s1 (\<lambda>(ciphertext, header).
         (build_signed_envelope P J now identity device_id KIND_DIRECT (bstr (ch_conversation_id s1)) ciphertext header, s1)))"

text \<open>The ratchet key that the session has seen of its peer.\<close>

definition known_ratchet :: "double_ratchet \<Rightarrow> bytes option" where
  "known_ratchet r =
    (case rc_their_ratchet_public (dr_receiving_chain r) of
       Some k \<Rightarrow> Some k
     | None \<Rightarrow> rc_their_ratchet_public (dr_sending_chain r))"

definition chat_decrypt ::
    "prims \<Rightarrow> json_text \<Rightarrow> network_envelope \<Rightarrow> chat_session \<Rightarrow> bytes app_result \<times> chat_session"
where
  "chat_decrypt P J envelope s =
     try_st (parse_header J (ne_nonce envelope)) s (\<lambda>header.
     try_st (verify_envelope P J (ch_peer_identity s) envelope) s (\<lambda>ok.
     if \<not> ok then (Inl (AppMsg ''signature verification failed''), s)
     else
       let r0 = ch_ratchet s;
           (step, r1) = (if known_ratchet r0 \<noteq> Some (rh_dh_public_key header)
             then dr_dh_ratchet P (rh_dh_public_key header) r0 else (Inr (), r0)) in
       try_st (context_crypto ''dh ratchet'' step) (s\<lparr>ch_ratchet := r1\<rparr>) (\<lambda>_.
       case dr_decrypt P J (ne_encrypted_payload envelope) header r1 of
         (res, r2) \<Rightarrow> (context_crypto ''ratchet decrypt'' res, s\<lparr>ch_ratchet := r2\<rparr>))))"

definition session_state_of :: "int \<Rightarrow> chat_session \<Rightarrow> session_state" where
  "session_state_of now s =
     \<lparr>ss_is_initiator = ch_is_initiator s, ss_session_keys = ch_session_keys s,
      ss_ratchet = Some (from_ratchet (ch_ratchet s)), ss_last_used = now\<rparr>"

definition chat_persist :: "json_text \<Rightarrow> int \<Rightarrow> chat_session \<Rightarrow> node_store \<Rightarrow> unit app_result \<times> node_store" where
  "chat_persist J now s store = store_save_session J (ch_conversation_id s) (session_state_of now s) store"

definition SESSION_ID :: string where
  "SESSION_ID = ''presidium-session''"

definition rebuild_ratchet :: "session_state \<Rightarrow> double_ratchet app_result" where
  "rebuild_ratchet state =
     and_then (ok_or (AppMsg ''no ratchet snapshot stored'') (ss_ratchet state)) (\<lambda>snapshot.
     context_storage ''rebuild ratchet from snapshot'' (to_ratchet snapshot SESSION_ID []))"

definition resume ::
    "column_engine \<Rightarrow> json_text \<Rightarrow> string \<Rightarrow> node_store \<Rightarrow> chat_session option app_result \<times> node_store"
where
  "resume E J conversation_id store =
     then_st (store_load_session E J conversation_id store) (\<lambda>state store1. case state of
       None \<Rightarrow> (Inr None, store1)
     | Some st \<Rightarrow> try_st (rebuild_ratchet st) store1 (\<lambda>ratchet.
         (Inr (Some \<lparr>ch_conversation_id = conversation_id, ch_peer_identity = sk_peer_identity (ss_session_keys st),
            ch_is_initiator = ss_is_initiator st, ch_ratchet = ratchet, ch_session_keys = ss_session_keys st\<rparr>), store1)))"

section \<open>The network handle\<close>

record p2p_handle =
  ph_running :: bool
  ph_queue :: "control list"

definition handle_send :: "string \<Rightarrow> peer_id \<Rightarrow> network_envelope \<Rightarrow> p2p_handle \<Rightarrow> unit app_result \<times> p2p_handle" where
  "handle_send msg peer envelope h =
    (case send_direct (ph_running h) peer envelope (ph_queue h) of
       (r, queue) \<Rightarrow> (map_err (\<lambda>e. AppContext msg (AppNetwork e)) r, h\<lparr>ph_queue := queue\<rparr>))"

section \<open>The initiator's handshake\<close>

record initiator_handshake =
  ih_identity :: identity_key_pair
  ih_device_id :: string
  ih_peer :: peer_id
  ih_peer_identity :: "identity_public_key option"
  ih_pending :: "pqxdh_output option"

definition initiator_new :: "identity_key_pair \<Rightarrow> string \<Rightarrow> peer_id \<Rightarrow> initiator_handshake" where
  "initiator_new identity device_id peer =
     \<lparr>ih_identity = identity, ih_device_id = device_id, ih_peer = peer, ih_peer_identity = None, ih_pending = None\<rparr>"

definition request_bundle ::
    "prims \<Rightarrow> json_text \<Rightarrow> int \<Rightarrow> initiator_handshake \<Rightarrow> p2p_handle \<Rightarrow> unit app_result \<times> p2p_handle"
where
  "request_bundle P J now ih h =
     try_st (sync_envelope P J now (ih_identity ih) (ih_device_id ih) MARKER_BUNDLE_REQ []) h (\<lambda>envelope.
     handle_send ''send bundle request'' (ih_peer ih) envelope h)"

text \<open>
  \<open>send_prekey\<close>: the draws are those of the ephemeral key and of the encapsulations. The
  driver keeps what it has set when a later step fails.
\<close>

record prekey_draws =
  pd_classical :: bytes
  pd_seed :: "bytes option"
  pd_encaps :: "nat \<Rightarrow> bytes"

definition send_prekey ::
    "prims \<Rightarrow> json_text \<Rightarrow> int \<Rightarrow> prekey_draws \<Rightarrow> pre_key_bundle \<Rightarrow> initiator_handshake \<times> p2p_handle \<Rightarrow>
      unit app_result \<times> initiator_handshake \<times> p2p_handle"
where
  "send_prekey P J now draws bundle ihh =
    (let ih = fst ihh; h = snd ihh in
     try_st (context_crypto ''verify peer bundle'' (bundle_verify P bundle)) (ih, h) (\<lambda>_.
     let ih1 = ih\<lparr>ih_peer_identity := Some (pkb_identity_key bundle)\<rparr> in
     try_st (map_err AppCrypto (kem_generate P (pd_classical draws) (pd_seed draws))) (ih1, h) (\<lambda>(_, ephemeral).
     try_st (context_crypto ''pqxdh initiator'' (pqxdh_initiator P (pd_encaps draws)
         \<lparr>pik_identity = ih_identity ih1, pik_ephemeral = ephemeral, pik_peer_bundle = bundle\<rparr>)) (ih1, h)
       (\<lambda>(output, prekey_message).
     let ih2 = ih1\<lparr>ih_pending := Some output\<rparr> in
     try_st (map_err AppJson (to_vec J prekey_message_to_json prekey_message)) (ih2, h) (\<lambda>body.
     try_st (sync_envelope P J now (ih_identity ih2) (ih_device_id ih2) MARKER_PREKEY body) (ih2, h) (\<lambda>envelope.
     case handle_send ''send prekey message'' (ih_peer ih2) envelope h of (r, h1) \<Rightarrow> (r, ih2, h1)))))))"

definition build_initiator_session ::
    "prims \<Rightarrow> bytes \<Rightarrow> string \<Rightarrow> pqxdh_output \<Rightarrow> identity_public_key \<Rightarrow> bytes \<Rightarrow> chat_session app_result"
where
  "build_initiator_session P ratchet_draw device_id output peer_identity peer_ratchet_public =
     and_then (context_crypto ''session keys'' (session_keys_new P True (po_shared_secret output) peer_identity)) (\<lambda>keys.
     and_then (context_crypto ''initiator ratchet'' (session_to_ratchet P keys ratchet_draw (Some peer_ratchet_public)))
       (\<lambda>ratchet.
     Inr \<lparr>ch_conversation_id = device_id, ch_peer_identity = peer_identity, ch_is_initiator = True,
          ch_ratchet = ratchet, ch_session_keys = keys\<rparr>))"

definition establish ::
    "prims \<Rightarrow> bytes \<Rightarrow> bytes \<Rightarrow> initiator_handshake \<Rightarrow> chat_session app_result \<times> initiator_handshake"
where
  "establish P ratchet_draw ratchet_public ih =
    (let ih1 = ih\<lparr>ih_pending := None\<rparr> in
     try_st (ok_or (AppMsg ''no pqxdh output'') (ih_pending ih)) ih1 (\<lambda>output.
     try_st (ok_or (AppMsg ''no peer identity'') (ih_peer_identity ih1)) ih1 (\<lambda>peer_identity.
     try_st (try_into 32 (AppMsg ''ratchet public must be 32 bytes'') ratchet_public) ih1 (\<lambda>peer_public.
     (build_initiator_session P ratchet_draw (ih_device_id ih1) output peer_identity peer_public, ih1)))))"

section \<open>The responder's handshake\<close>

record responder_handshake =
  rp_identity :: identity_key_pair
  rp_prekey :: prekey_material
  rp_peer_identity :: "identity_public_key option"

definition responder_new :: "identity_key_pair \<Rightarrow> prekey_material \<Rightarrow> responder_handshake" where
  "responder_new identity prekey = \<lparr>rp_identity = identity, rp_prekey = prekey, rp_peer_identity = None\<rparr>"

definition responder_bundle :: "prims \<Rightarrow> responder_handshake \<Rightarrow> pre_key_bundle app_result" where
  "responder_bundle P rp = prekey_to_bundle P (rp_identity rp) (rp_prekey rp)"

definition on_prekey ::
    "prims \<Rightarrow> json_text \<Rightarrow> bytes \<Rightarrow> bytes \<Rightarrow> string \<Rightarrow> responder_handshake \<Rightarrow>
      (bytes \<times> chat_session) app_result \<times> responder_handshake"
where
  "on_prekey P J ratchet_draw body conversation_id rp =
     try_st (context_json ''parse prekey message'' (from_slice J prekey_message_of_json body)) rp (\<lambda>message.
     let rp1 = rp\<lparr>rp_peer_identity := Some (pm_identity_public message)\<rparr> in
     try_st (prekey_private_key (rp_prekey rp1)) rp1 (\<lambda>signed_prekey.
     try_st (context_crypto ''pqxdh responder'' (pqxdh_responder P
         \<lparr>prk_identity = rp_identity rp1, prk_signed_prekey = signed_prekey,
          prk_signed_prekey_id = pmat_key_id (rp_prekey rp1), prk_one_time_prekey = None,
          prk_one_time_prekey_id = None\<rparr> message)) rp1 (\<lambda>output.
     let peer_identity = pm_identity_public message in
     try_st (context_crypto ''session keys'' (session_keys_new P False (po_shared_secret output) peer_identity)) rp1 (\<lambda>keys.
     try_st (context_crypto ''responder ratchet'' (session_to_ratchet P keys ratchet_draw None)) rp1 (\<lambda>ratchet.
     let ratchet_public = x25519_base P ratchet_draw in
     (Inr (ratchet_public, \<lparr>ch_conversation_id = conversation_id, ch_peer_identity = peer_identity,
        ch_is_initiator = False, ch_ratchet = ratchet, ch_session_keys = keys\<rparr>), rp1))))))"

end
