(* ===== verification/Group.thy ===== *)
theory Group
  imports Chat
begin

text \<open>
  Group chats over published envelopes, \<open>presidium-demo/src/group.rs\<close>: the distribution of a sender
  key, publishing under it and reading.
\<close>

section \<open>Model\<close>

definition DEMO_GROUP :: string where
  "DEMO_GROUP = ''presidium-demo-group''"

record group_key_distribution =
  gd_chain_key :: bytes
  gd_key_id :: u64
  gd_message_index :: u64

definition distribution_to_json :: "group_key_distribution \<Rightarrow> json" where
  "distribution_to_json d =
     JObj [(''chain_key'', json_bytes (gd_chain_key d)),
           (''key_id'', json_uint (gd_key_id d)),
           (''message_index'', json_uint (gd_message_index d))]"

definition distribution_of_json :: "json \<Rightarrow> group_key_distribution option" where
  "distribution_of_json j =
    (case struct_fields [''chain_key'', ''key_id'', ''message_index''] j of
     Some [c, k, i] \<Rightarrow>
       Option.bind (required (array_of_json 32) c) (\<lambda>chain_key.
       Option.bind (required uint_of_json k) (\<lambda>key_id.
       Option.bind (required uint_of_json i) (\<lambda>message_index.
       Some \<lparr>gd_chain_key = chain_key, gd_key_id = key_id, gd_message_index = message_index\<rparr>)))
   | _ \<Rightarrow> None)"

definition gd_wf :: "group_key_distribution \<Rightarrow> bool" where
  "gd_wf d \<longleftrightarrow> length (gd_chain_key d) = 32"

interpretation gd_json: json_type distribution_to_json distribution_of_json gd_wf
  by unfold_locales (simp_all add: distribution_to_json_def distribution_of_json_def gd_wf_def)

interpretation gd_strict: strict_json distribution_to_json distribution_of_json gd_wf
  by unfold_locales
    (auto simp: distribution_of_json_def gd_wf_def bind_eq_Some_conv split: option.split_asm list.split_asm
      dest!: required_array_length)

record group_chat =
  gc_topic :: string
  gc_group_id :: bytes
  gc_conversation_id :: string
  gc_sender :: "sender_keys option"
  gc_receiver :: "sender_keys option"
  gc_peer_identity :: "identity_public_key option"

definition group_new :: "(bytes \<Rightarrow> string) \<Rightarrow> group_chat app_result" where
  "group_new hex =
     and_then (map_err AppNetwork (group_topic hex (bstr DEMO_GROUP))) (\<lambda>topic.
     Inr \<lparr>gc_topic = topic, gc_group_id = bstr DEMO_GROUP, gc_conversation_id = ''group:'' @ DEMO_GROUP,
          gc_sender = None, gc_receiver = None, gc_peer_identity = None\<rparr>)"

definition create_sender ::
    "prims \<Rightarrow> bytes \<Rightarrow> identity_key_pair \<Rightarrow> group_chat \<Rightarrow> group_key_distribution app_result \<times> group_chat"
where
  "create_sender P chain_draw identity g =
     try_st (map_err AppCrypto (sender_keys_new chain_draw (gc_group_id g)
         \<lparr>idk_public = ipk_classical (identity_public P identity)\<rparr>)) g (\<lambda>keys.
     (Inr \<lparr>gd_chain_key = snd_chain_key keys, gd_key_id = snd_key_id keys, gd_message_index = snd_message_index keys\<rparr>,
      g\<lparr>gc_sender := Some keys\<rparr>))"

definition apply_group_key :: "group_key_distribution \<Rightarrow> identity_public_key \<Rightarrow> group_chat \<Rightarrow> group_chat" where
  "apply_group_key d sender_identity g =
     g\<lparr>gc_peer_identity := Some sender_identity,
       gc_receiver := Some \<lparr>snd_chain_key = gd_chain_key d, snd_group_id = gc_group_id g,
         snd_sender_identity = \<lparr>idk_public = ipk_classical sender_identity\<rparr>,
         snd_message_index = gd_message_index d, snd_key_id = gd_key_id d\<rparr>\<rparr>"

text \<open>\<open>publish\<close> up to the hand-over to the node: the envelope it publishes.\<close>

definition group_envelope ::
    "prims \<Rightarrow> json_text \<Rightarrow> int \<Rightarrow> identity_key_pair \<Rightarrow> string \<Rightarrow> bytes \<Rightarrow> group_chat \<Rightarrow>
      network_envelope app_result \<times> group_chat"
where
  "group_envelope P J now identity device_id plaintext g =
    (case gc_sender g of
       None \<Rightarrow> (Inl (AppMsg ''no sender keys''), g)
     | Some sender \<Rightarrow>
        (case sender_encrypt P plaintext (gc_group_id g) sender of
           (r, sender1) \<Rightarrow>
             let g1 = g\<lparr>gc_sender := Some sender1\<rparr> in
             try_st (map_err AppCrypto r) g1 (\<lambda>ciphertext.
             let message_index = snd_message_index sender1 - 1;
                 message = \<lparr>skm_group_id = gc_group_id g1,
                   skm_sender_identity = \<lparr>idk_public = ipk_classical (identity_public P identity)\<rparr>,
                   skm_message_index = message_index, skm_ciphertext = ciphertext\<rparr> in
             (and_then (map_err AppJson (to_vec J sender_key_message_to_json message)) (\<lambda>message_json.
              build_raw_envelope P J now identity device_id KIND_GROUP (bstr (gc_conversation_id g1)) ciphertext
                message_json), g1))))"

definition group_publish ::
    "prims \<Rightarrow> json_text \<Rightarrow> int \<Rightarrow> identity_key_pair \<Rightarrow> string \<Rightarrow> bytes \<Rightarrow> group_chat \<times> p2p_handle \<Rightarrow>
      unit app_result \<times> group_chat \<times> p2p_handle"
where
  "group_publish P J now identity device_id plaintext gh =
    (case group_envelope P J now identity device_id plaintext (fst gh) of
       (Inl e, g1) \<Rightarrow> (Inl e, g1, snd gh)
     | (Inr envelope, g1) \<Rightarrow>
        (case node_publish (ph_running (snd gh)) (gc_topic g1) envelope (ph_queue (snd gh)) of
           (r, queue) \<Rightarrow> (map_err (\<lambda>e. AppContext ''gossipsub publish'' (AppNetwork e)) r, g1,
             (snd gh)\<lparr>ph_queue := queue\<rparr>)))"

definition group_decrypt ::
    "prims \<Rightarrow> json_text \<Rightarrow> network_envelope \<Rightarrow> group_chat \<Rightarrow> bytes app_result \<times> group_chat"
where
  "group_decrypt P J envelope g =
     try_st (ok_or (AppMsg ''no group sender identity'') (gc_peer_identity g)) g (\<lambda>peer.
     try_st (verify_envelope P J peer envelope) g (\<lambda>ok.
     if \<not> ok then (Inl (AppMsg ''group signature verification failed''), g)
     else
     try_st (context_json ''parse group message'' (from_slice J sender_key_message_of_json (ne_nonce envelope))) g
       (\<lambda>message.
     try_st (ok_or (AppMsg ''no receiver keys'') (gc_receiver g)) g (\<lambda>receiver.
     case sender_receive P (gc_group_id g) (ne_encrypted_payload envelope, skm_message_index message) receiver of
       (r, receiver1) \<Rightarrow> (map_err AppCrypto r, g\<lparr>gc_receiver := Some receiver1\<rparr>)))))"

text \<open>The short form of a peer id, with an ellipsis in UTF-8 between its ends.\<close>

definition short_peer :: "peer_id \<Rightarrow> string" where
  "short_peer peer =
     (if length peer > 12 then take 6 peer @ [CHR 0xE2, CHR 0x80, CHR 0xA6] @ drop (length peer - 4) peer else peer)"

end
