(* ===== verification/App.thy ===== *)
theory App
  imports Group
begin

text \<open>
  The application of \<open>presidium-demo/src/main.rs\<close>: its state, the handlers of commands, node events
  and direct messages, and the loop over them.

  Everything that the handlers take from outside (clock, draws, the JSON and column
  parameters) is the record \<open>world\<close>; lines that are printed are collected in \<open>app_output\<close>.
\<close>

section \<open>State\<close>

record world =
  w_prims :: prims
  w_json :: json_text
  w_engine :: column_engine
  w_now :: int
  w_ratchet_draw :: bytes
  w_prekey_draws :: prekey_draws
  w_chain_draw :: bytes
  w_message_nonce :: u32
  w_hex :: "bytes \<Rightarrow> string"
  w_peer_id :: peer_id
  w_pretty :: "json \<Rightarrow> string + bytes"
  w_show_addr :: "multiaddr \<Rightarrow> string"
  w_debug_addrs :: "multiaddr list \<Rightarrow> string"
  w_parse_addr :: "string \<Rightarrow> multiaddr option"
  w_show_error :: "app_error \<Rightarrow> string"

record app =
  app_store :: node_store
  app_node :: p2p_handle
  app_initiator :: "initiator_handshake option"
  app_responder :: "responder_handshake option"
  app_session :: "chat_session option"
  app_group :: group_chat
  app_peer :: "peer_id option"
  app_last_outgoing :: "int option"
  app_output :: "string list"

type_synonym 'a app_st = "'a app_result \<times> app"

definition say :: "string \<Rightarrow> app \<Rightarrow> app" where
  "say line a = a\<lparr>app_output := app_output a @ [line]\<rparr>"

text \<open>\<open>from_utf8_lossy\<close>, which replaces what is not UTF-8.\<close>

definition lossy :: "world \<Rightarrow> bytes \<Rightarrow> string" where
  "lossy w bs = (if utf8 bs then string_of_bytes bs else ce_lossy (w_engine w) bs)"

text \<open>A method of the store, and a message to a peer, as steps of the application.\<close>

definition with_store :: "(node_store \<Rightarrow> 'a app_result \<times> node_store) \<Rightarrow> app \<Rightarrow> 'a app_st" where
  "with_store f a = (case f (app_store a) of (r, s) \<Rightarrow> (r, a\<lparr>app_store := s\<rparr>))"

definition app_send :: "peer_id \<Rightarrow> network_envelope \<Rightarrow> app \<Rightarrow> unit app_st" where
  "app_send peer envelope a =
    (case send_direct (ph_running (app_node a)) peer envelope (ph_queue (app_node a)) of
       (r, queue) \<Rightarrow> (map_err AppNetwork r, a\<lparr>app_node := (app_node a)\<lparr>ph_queue := queue\<rparr>\<rparr>))"

definition message_id_bytes :: "u32 \<Rightarrow> u64 \<Rightarrow> bytes" where
  "message_id_bytes nonce timestamp = u64_to_le_bytes timestamp @ u32_to_le_bytes nonce"

definition peer_id_of :: "multiaddr \<Rightarrow> peer_id app_result" where
  "peer_id_of addr =
    (case [i. P2p i \<leftarrow> addr] of
       i # _ \<Rightarrow> Inr i
     | [] \<Rightarrow> Inl (AppPanic ''--peer must carry a /p2p/<peer-id> suffix''))"

text \<open>\<open>if let Some(session) = app.session { let _ = session.persist(..) }\<close>\<close>

definition persist_quietly :: "world \<Rightarrow> app \<Rightarrow> app" where
  "persist_quietly w a =
    (case app_session a of
       None \<Rightarrow> a
     | Some s \<Rightarrow> snd (with_store (chat_persist (w_json w) (w_now w) s) a))"

section \<open>Direct messages\<close>

definition on_bundle_request :: "world \<Rightarrow> peer_id \<Rightarrow> app \<Rightarrow> unit app_st" where
  "on_bundle_request w sender a =
     try_st (ok_or (AppMsg ''bundle request on initiator'') (app_responder a)) a (\<lambda>responder.
     try_st (responder_bundle (w_prims w) responder) a (\<lambda>bundle.
     try_st (map_err AppJson (to_vec (w_json w) pre_key_bundle_to_json bundle)) a (\<lambda>body.
     try_st (sync_envelope (w_prims w) (w_json w) (w_now w) (ns_identity (app_store a)) (ns_device_id (app_store a))
       MARKER_BUNDLE body) a (\<lambda>reply.
     app_send sender reply a))))"

definition on_bundle :: "world \<Rightarrow> bytes \<Rightarrow> app \<Rightarrow> unit app_st" where
  "on_bundle w body a =
     try_st (context_json ''parse bundle'' (from_slice (w_json w) pre_key_bundle_of_json body)) a (\<lambda>bundle.
     try_st (ok_or (AppMsg ''bundle on responder'') (app_initiator a)) a (\<lambda>initiator.
     then_st (with_store (store_upsert_conversation (w_now w) (ns_device_id (app_store a)) (pkb_identity_key bundle) False) a)
       (\<lambda>_ a1.
     case send_prekey (w_prims w) (w_json w) (w_now w) (w_prekey_draws w) bundle (initiator, app_node a1) of
       (r, initiator1, node1) \<Rightarrow> (r, a1\<lparr>app_initiator := Some initiator1, app_node := node1\<rparr>))))"

definition on_prekey_message :: "world \<Rightarrow> peer_id \<Rightarrow> network_envelope \<Rightarrow> bytes \<Rightarrow> app \<Rightarrow> unit app_st" where
  "on_prekey_message w sender envelope body a =
     try_st (map_err (AppContext ''invalid sender device id'') (from_utf8 (ne_sender_device_id envelope))) a
       (\<lambda>conversation_id.
     try_st (ok_or (AppMsg ''prekey on initiator'') (app_responder a)) a (\<lambda>responder.
     case on_prekey (w_prims w) (w_json w) (w_ratchet_draw w) body conversation_id responder of
       (r, responder1) \<Rightarrow>
     let a1 = a\<lparr>app_responder := Some responder1\<rparr> in
     try_st r a1 (\<lambda>(ratchet_public, chat).
     try_st (ok_or (AppMsg ''no peer identity after prekey'') (rp_peer_identity responder1)) a1 (\<lambda>peer_identity.
     then_st (with_store (store_upsert_conversation (w_now w) conversation_id peer_identity False) a1) (\<lambda>_ a2.
     then_st (with_store (chat_persist (w_json w) (w_now w) chat) a2) (\<lambda>_ a3.
     let a4 = a3\<lparr>app_session := Some chat\<rparr> in
     try_st (sync_envelope (w_prims w) (w_json w) (w_now w) (ns_identity (app_store a4)) (ns_device_id (app_store a4))
       MARKER_RATCHET_PUB ratchet_public) a4 (\<lambda>reply.
     then_st (app_send sender reply a4) (\<lambda>_ a5.
     (Inr (), say (''[responder] session established with '' @ short_peer sender) a5)))))))))"

definition on_ratchet_public :: "world \<Rightarrow> peer_id \<Rightarrow> bytes \<Rightarrow> app \<Rightarrow> unit app_st" where
  "on_ratchet_public w sender body a =
     try_st (ok_or (AppMsg ''ratchet pub on responder'') (app_initiator a)) a (\<lambda>initiator.
     case establish (w_prims w) (w_ratchet_draw w) body initiator of
       (r, initiator1) \<Rightarrow>
     let a1 = a\<lparr>app_initiator := Some initiator1\<rparr> in
     try_st r a1 (\<lambda>chat.
     try_st (ok_or (AppMsg ''no peer identity after establish'') (ih_peer_identity initiator1)) a1 (\<lambda>peer_identity.
     then_st (with_store (store_upsert_conversation (w_now w) (ns_device_id (app_store a1)) peer_identity False) a1) (\<lambda>_ a2.
     then_st (with_store (chat_persist (w_json w) (w_now w) chat) a2) (\<lambda>_ a3.
     let a4 = a3\<lparr>app_session := Some chat\<rparr> in
     case create_sender (w_prims w) (w_chain_draw w) (ns_identity (app_store a4)) (app_group a4) of
       (d, group1) \<Rightarrow>
     let a5 = a4\<lparr>app_group := group1\<rparr> in
     try_st d a5 (\<lambda>distribution.
     try_st (map_err AppJson (to_vec (w_json w) distribution_to_json distribution)) a5 (\<lambda>body'.
     try_st (sync_envelope (w_prims w) (w_json w) (w_now w) (ns_identity (app_store a5)) (ns_device_id (app_store a5))
       MARKER_GROUP_KEY body') a5 (\<lambda>reply.
     then_st (app_send sender reply a5) (\<lambda>_ a6.
     case chat_encrypt (w_prims w) (w_json w) (w_now w) (ns_identity (app_store a6)) (ns_device_id (app_store a6))
         (bstr (''hello from '' @ ns_device_id (app_store a6))) chat of
       (g, chat1) \<Rightarrow>
     let a7 = a6\<lparr>app_session := Some chat1\<rparr> in
     try_st g a7 (\<lambda>greeting.
     then_st (app_send sender greeting a7) (\<lambda>_ a8.
     (Inr (), say (''[initiator] session established with '' @ short_peer sender) (persist_quietly w a8)))))))))))))"

definition on_group_key :: "world \<Rightarrow> bytes \<Rightarrow> app \<Rightarrow> unit app_st" where
  "on_group_key w body a =
     try_st (context_json ''parse group key'' (from_slice (w_json w) distribution_of_json body)) a (\<lambda>distribution.
     try_st (ok_or (AppMsg ''no session for group key'') (map_option ch_peer_identity (app_session a))) a (\<lambda>peer.
     (Inr (), say ''[responder] group key received, group ready''
        (a\<lparr>app_group := apply_group_key distribution peer (app_group a)\<rparr>))))"

text \<open>The session of a chat message: the one in memory, or the one that was persisted.\<close>

definition ensure_session :: "world \<Rightarrow> string \<Rightarrow> app \<Rightarrow> unit app_st" where
  "ensure_session w conversation_id a =
    (case app_session a of
       Some _ \<Rightarrow> (Inr (), a)
     | None \<Rightarrow> then_st (with_store (resume (w_engine w) (w_json w) conversation_id) a) (\<lambda>chat a1.
         case chat of
           None \<Rightarrow> (Inr (), a1)
         | Some c \<Rightarrow> (Inr (), (say ''[responder] resumed persisted session'' a1)\<lparr>app_session := Some c\<rparr>)))"

definition on_chat_message :: "world \<Rightarrow> peer_id \<Rightarrow> network_envelope \<Rightarrow> app \<Rightarrow> unit app_st" where
  "on_chat_message w sender envelope a =
     try_st (from_utf8 (ne_conversation_id envelope)) a (\<lambda>conversation_id.
     then_st (ensure_session w conversation_id a) (\<lambda>_ a1.
     try_st (ok_or (AppMsg ''no session established'') (app_session a1)) a1 (\<lambda>session.
     then_st (with_store (store_upsert_conversation (w_now w) conversation_id (ch_peer_identity session) False) a1) (\<lambda>_ a2.
     case chat_decrypt (w_prims w) (w_json w) envelope session of
       (r, session1) \<Rightarrow>
     let a3 = a2\<lparr>app_session := Some session1\<rparr> in
     try_st r a3 (\<lambda>plaintext.
     then_st (with_store (chat_persist (w_json w) (w_now w) session1) a3) (\<lambda>_ a4.
     let a5 = say (''[1:1] '' @ short_peer sender @ '': '' @ lossy w plaintext) a4 in
     try_st (from_utf8 (ne_nonce envelope)) a5 (\<lambda>header_json.
     then_st (with_store (store_insert_message (w_now w) conversation_id
         (message_id_bytes (w_message_nonce w) (ne_timestamp envelope)) (ch_peer_identity session1)
         (ne_encrypted_payload envelope) header_json Incoming) a5) (\<lambda>_ a6.
     (Inr (), a6)))))))))"

text \<open>\<open>handle_direct\<close>: the first byte of the payload decides, whatever the kind of the envelope.\<close>

definition handle_direct :: "world \<Rightarrow> peer_id \<Rightarrow> network_envelope \<Rightarrow> app \<Rightarrow> unit app_st" where
  "handle_direct w sender envelope a0 =
    (let a = (if app_peer a0 = None then a0\<lparr>app_peer := Some sender\<rparr> else a0) in
     case ne_encrypted_payload envelope of
       [] \<Rightarrow> on_chat_message w sender envelope a
     | marker # body \<Rightarrow>
         if marker = MARKER_BUNDLE_REQ then on_bundle_request w sender a
         else if marker = MARKER_BUNDLE then on_bundle w body a
         else if marker = MARKER_PREKEY then on_prekey_message w sender envelope body a
         else if marker = MARKER_RATCHET_PUB then on_ratchet_public w sender body a
         else if marker = MARKER_GROUP_KEY then on_group_key w body a
         else on_chat_message w sender envelope a)"

section \<open>Node events\<close>

definition on_connected :: "world \<Rightarrow> peer_id \<Rightarrow> bool \<Rightarrow> app \<Rightarrow> bool app_st" where
  "on_connected w peer handshake_started a0 =
    (let a1 = say (''[net] connected to '' @ short_peer peer) a0;
         a = (if app_peer a1 = None then a1\<lparr>app_peer := Some peer\<rparr> else a1) in
     case app_initiator a of
       Some initiator \<Rightarrow>
         if app_session a = None \<and> \<not> handshake_started then
           (case request_bundle (w_prims w) (w_json w) (w_now w) initiator (app_node a) of
              (r, node1) \<Rightarrow> then_st (r, a\<lparr>app_node := node1\<rparr>) (\<lambda>_ a2. (Inr True, a2)))
         else (Inr handshake_started, a)
     | None \<Rightarrow> (Inr handshake_started, a))"

definition on_gossip :: "world \<Rightarrow> peer_id \<Rightarrow> network_envelope \<Rightarrow> app \<Rightarrow> unit app_st" where
  "on_gossip w sender envelope a =
    (case group_decrypt (w_prims w) (w_json w) envelope (app_group a) of
       (Inl e, group1) \<Rightarrow> (Inr (), say (''[group] decrypt failed: '' @ w_show_error w e) (a\<lparr>app_group := group1\<rparr>))
     | (Inr plaintext, group1) \<Rightarrow>
         let a1 = say (''[group] '' @ short_peer sender @ '': '' @ lossy w plaintext) (a\<lparr>app_group := group1\<rparr>);
             from = (case app_session a1 of
               Some s \<Rightarrow> ch_peer_identity s
             | None \<Rightarrow> store_identity_public (w_prims w) (app_store a1)) in
         then_st (with_store (store_upsert_conversation (w_now w) (gc_conversation_id (app_group a1)) from True) a1) (\<lambda>_ a2.
         try_st (from_utf8 (ne_nonce envelope)) a2 (\<lambda>header_json.
         then_st (with_store (store_insert_message (w_now w) (gc_conversation_id (app_group a2))
             (message_id_bytes (w_message_nonce w) (ne_timestamp envelope)) from
             (ne_encrypted_payload envelope) header_json Incoming) a2) (\<lambda>_ a3. (Inr (), a3)))))"

text \<open>The status of the last outgoing message, once.\<close>

definition settle_outgoing :: "message_status \<Rightarrow> app \<Rightarrow> unit app_st" where
  "settle_outgoing status a =
    (let a1 = a\<lparr>app_last_outgoing := None\<rparr> in
     case app_last_outgoing a of
       None \<Rightarrow> (Inr (), a1)
     | Some row \<Rightarrow> with_store (store_update_message_status row status) a1)"

text \<open>The result: whether the handshake has been started.\<close>

fun handle_event :: "world \<Rightarrow> node_event \<Rightarrow> bool \<Rightarrow> app \<Rightarrow> bool app_st" where
  "handle_event w (Listen address) hs a = (Inr hs, say (''[net] listening on '' @ w_show_addr w address) a)"
| "handle_event w (PeerConnected peer) hs a = on_connected w peer hs a"
| "handle_event w (PeerDiscovered peer address) hs a = (Inr hs, say (''[net] discovered '' @ short_peer peer) a)"
| "handle_event w (DirectMessage sender envelope) hs a =
     then_st (handle_direct w sender envelope a) (\<lambda>_ a1. (Inr hs, a1))"
| "handle_event w (GossipMessage sender topic envelope) hs a =
     then_st (on_gossip w sender envelope a) (\<lambda>_ a1. (Inr hs, a1))"
| "handle_event w (DirectDelivered to conversation_id status) hs a =
    (let ok = nrs_status status = 1 in
     then_st (settle_outgoing (if ok then Delivered else Failed) a) (\<lambda>_ a1.
     (Inr hs, say (''[1:1] delivered to '' @ short_peer to @ '': '' @ (if ok then ''ok'' else ''failed'')) a1)))"
| "handle_event w (DirectFailed to error) hs a =
     then_st (settle_outgoing Failed a) (\<lambda>_ a1.
     (Inr hs, say (''[1:1] failed to '' @ short_peer to @ '': '' @ error) a1))"
| "handle_event w (PeerDisconnected peer) hs a = (Inr hs, say (''[net] disconnected '' @ short_peer peer) a)"

section \<open>Commands\<close>

definition print_banner :: "world \<Rightarrow> app \<Rightarrow> app" where
  "print_banner w a =
     say (''identity  : '' @ w_hex w (take 8 (ipk_classical (store_identity_public (w_prims w) (app_store a)))))
    (say (''peer id   : '' @ w_peer_id w)
    (say (''device id : '' @ ns_device_id (app_store a))
    (say ''=== presidium demo ==='' a)))"

definition print_all :: "string list \<Rightarrow> app \<Rightarrow> app" where
  "print_all lines a = a\<lparr>app_output := app_output a @ lines\<rparr>"

definition strip_prefix :: "string \<Rightarrow> string \<Rightarrow> string option" where
  "strip_prefix p s = (if take (length p) s = p then Some (drop (length p) s) else None)"

definition command_info :: "world \<Rightarrow> app \<Rightarrow> app" where
  "command_info w a =
    (let a1 = print_banner w a;
         a2 = say (''session : '' @ (if app_session a1 \<noteq> None then ''established'' else ''none'')) a1 in
     say (''group   : '' @ (if gc_sender (app_group a2) \<noteq> None \<or> gc_receiver (app_group a2) \<noteq> None
       then ''ready'' else ''not ready'')) a2)"

definition command_history :: "world \<Rightarrow> app \<Rightarrow> unit app_st" where
  "command_history w a =
     then_st (with_store (print_history (w_engine w) (ns_device_id (app_store a))) a) (\<lambda>lines a1.
     then_st (with_store (print_history (w_engine w) (gc_conversation_id (app_group a1))) (print_all lines a1)) (\<lambda>lines2 a2.
     (Inr (), print_all lines2 a2)))"

definition command_group :: "world \<Rightarrow> string \<Rightarrow> app \<Rightarrow> unit app_st" where
  "command_group w text a =
    (if gc_sender (app_group a) = None then (Inr (), say ''group sender keys not ready yet'' a)
     else case group_publish (w_prims w) (w_json w) (w_now w) (ns_identity (app_store a)) (ns_device_id (app_store a))
         (bstr text) (app_group a, app_node a) of
       (r, group1, node1) \<Rightarrow>
         then_st (r, a\<lparr>app_group := group1, app_node := node1\<rparr>) (\<lambda>_ a1. (Inr (), say (''[group] -> '' @ text) a1)))"

definition command_chat :: "world \<Rightarrow> string \<Rightarrow> app \<Rightarrow> unit app_st" where
  "command_chat w line a =
    (case app_session a of
       None \<Rightarrow> (Inr (), say ''no 1:1 session yet; wait for the handshake'' a)
     | Some session \<Rightarrow>
      (case app_peer a of
         None \<Rightarrow> (Inr (), say ''no remote peer known yet'' a)
       | Some peer \<Rightarrow>
        (case chat_encrypt (w_prims w) (w_json w) (w_now w) (ns_identity (app_store a)) (ns_device_id (app_store a))
            (bstr line) session of
           (r, session1) \<Rightarrow>
         let a1 = a\<lparr>app_session := Some session1\<rparr> in
         try_st r a1 (\<lambda>envelope.
         try_st (from_utf8 (ne_nonce envelope)) a1 (\<lambda>header_json.
         then_st (with_store (store_insert_message (w_now w) (ch_conversation_id session1)
             (message_id_bytes (w_message_nonce w) (ne_timestamp envelope))
             (store_identity_public (w_prims w) (app_store a1)) (ne_encrypted_payload envelope) header_json Outgoing) a1)
           (\<lambda>row a2.
         then_st (app_send peer envelope (a2\<lparr>app_last_outgoing := Some row\<rparr>)) (\<lambda>_ a3.
         (Inr (), say (''[1:1] -> '' @ line) (persist_quietly w a3)))))))))"

text \<open>The result: whether the loop goes on.\<close>

definition handle_command :: "world \<Rightarrow> string \<Rightarrow> app \<Rightarrow> bool app_st" where
  "handle_command w line a =
    (if line \<in> {''q'', ''@quit'', ''exit''} then (Inr False, a)
     else if line = ''@info'' then (Inr True, command_info w a)
     else if line = ''@history'' then then_st (command_history w a) (\<lambda>_ a1. (Inr True, a1))
     else case strip_prefix ''@group '' line of
         Some text \<Rightarrow> then_st (command_group w text a) (\<lambda>_ a1. (Inr True, a1))
       | None \<Rightarrow> then_st (command_chat w line a) (\<lambda>_ a1. (Inr True, a1)))"

section \<open>The loop\<close>

text \<open>
  \<open>str::trim\<close>: the UTF-8 encodings of the Unicode white space, taken off both ends. An encoding of
  a line never starts inside another, so the end is trimmed on the reversed bytes.
\<close>

definition white_space :: "string list" where
  "white_space = map (map (\<lambda>n. char_of (n :: nat)))
     ([[0x09], [0x0A], [0x0B], [0x0C], [0x0D], [0x20], [0xC2, 0x85], [0xC2, 0xA0], [0xE1, 0x9A, 0x80],
       [0xE2, 0x80, 0xA8], [0xE2, 0x80, 0xA9], [0xE2, 0x80, 0xAF], [0xE2, 0x81, 0x9F], [0xE3, 0x80, 0x80]]
      @ map (\<lambda>n. [0xE2, 0x80, n]) [0x80..<0x8B])"

fun strip_any :: "string list \<Rightarrow> string \<Rightarrow> string option" where
  "strip_any [] s = None"
| "strip_any (p # ps) s = (case strip_prefix p s of Some rest \<Rightarrow> Some rest | None \<Rightarrow> strip_any ps s)"

fun trim_start :: "nat \<Rightarrow> string list \<Rightarrow> string \<Rightarrow> string" where
  "trim_start 0 ws s = s"
| "trim_start (Suc n) ws s = (case strip_any ws s of Some rest \<Rightarrow> trim_start n ws rest | None \<Rightarrow> s)"

definition trim :: "string \<Rightarrow> string" where
  "trim s =
    (let front = trim_start (length s) white_space s in
     rev (trim_start (length front) (map rev white_space) (rev front)))"

text \<open>What the loop waits for: a line the end or an error of the input, an event, or the end of the events.\<close>

datatype app_input = Line string | EndOfInput | InputError | NodeEvent node_event | EventsClosed

text \<open>
  Each input comes with the draws of its step. \<^term>\<open>None\<close> means that the loop still waits.
\<close>

fun run_loop :: "(world \<times> app_input) list \<Rightarrow> bool \<Rightarrow> app \<Rightarrow> unit app_result option \<times> app" where
  "run_loop [] hs a = (None, a)"
| "run_loop ((w, Line line) # rest) hs a =
    (if trim line = [] then run_loop rest hs a
     else case handle_command w (trim line) a of
         (Inl e, a1) \<Rightarrow> (Some (Inl e), a1)
       | (Inr False, a1) \<Rightarrow> (Some (Inr ()), say ''bye'' a1)
       | (Inr True, a1) \<Rightarrow> run_loop rest hs a1)"
| "run_loop ((w, EndOfInput) # rest) hs a = (Some (Inr ()), say ''bye'' a)"
| "run_loop ((w, InputError) # rest) hs a = (Some (Inl AppIo), a)"
| "run_loop ((w, NodeEvent event) # rest) hs a =
    (case handle_event w event hs a of
       (Inl e, a1) \<Rightarrow> (Some (Inl e), a1)
     | (Inr hs1, a1) \<Rightarrow> run_loop rest hs1 a1)"
| "run_loop ((w, EventsClosed) # rest) hs a = (Some (Inr ()), say ''bye'' a)"

text \<open>The length of the text is fuel enough: nothing is left to be taken off.\<close>

lemma strip_prefix_shorter: "p \<noteq> [] \<Longrightarrow> strip_prefix p s = Some rest \<Longrightarrow> length rest < length s"
  by (cases p; cases s) (auto simp: strip_prefix_def split: if_splits)

lemma strip_any_shorter: "[] \<notin> set ps \<Longrightarrow> strip_any ps s = Some rest \<Longrightarrow> length rest < length s"
  by (induction ps) (auto dest: strip_prefix_shorter [rotated] split: option.splits)

lemma trim_start_done: "[] \<notin> set ws \<Longrightarrow> length s \<le> n \<Longrightarrow> strip_any ws (trim_start n ws s) = None"
proof (induction n arbitrary: s)
  case 0
  then show ?case using strip_any_shorter [of ws "[]"] by (cases "strip_any ws []") auto
next
  case (Suc n)
  then show ?case using strip_any_shorter [of ws s] by (cases "strip_any ws s") auto
qed

section \<open>Start-up\<close>

definition app_subscribe :: "app \<Rightarrow> unit app_st" where
  "app_subscribe a =
    (case node_subscribe (ph_running (app_node a)) (gc_topic (app_group a)) (ph_queue (app_node a)) of
       (r, queue) \<Rightarrow> (map_err AppNetwork r, a\<lparr>app_node := (app_node a)\<lparr>ph_queue := queue\<rparr>\<rparr>))"

definition app_new :: "world \<Rightarrow> node_store \<Rightarrow> p2p_handle \<Rightarrow> app app_result" where
  "app_new w store node =
     and_then (group_new (w_hex w)) (\<lambda>group.
     Inr (print_banner w \<lparr>app_store = store, app_node = node, app_initiator = None, app_responder = None,
       app_session = None, app_group = group, app_peer = None, app_last_outgoing = None, app_output = []\<rparr>))"

text \<open>\<open>str::replace\<close> of a pattern that is not empty, and the address that is shown to be dialled.\<close>

fun replace_all :: "nat \<Rightarrow> string \<Rightarrow> string \<Rightarrow> string \<Rightarrow> string" where
  "replace_all 0 p r s = s"
| "replace_all (Suc n) p r s =
    (case strip_prefix p s of
       Some rest \<Rightarrow> r @ replace_all n p r rest
     | None \<Rightarrow> (case s of [] \<Rightarrow> [] | c # cs \<Rightarrow> c # replace_all n p r cs))"

lemma replace_all_done: "p \<noteq> [] \<Longrightarrow> length s \<le> n \<Longrightarrow> replace_all n p r s = replace_all (length s) p r s"
proof (induction n arbitrary: s rule: less_induct)
  case (less n)
  show ?case
  proof (cases s)
    case Nil
    with less.prems show ?thesis by (cases n) (simp_all add: strip_prefix_def)
  next
    case (Cons c cs)
    then obtain m where n: "n = Suc m" "length cs \<le> m" using less.prems by (cases n) auto
    have r: "replace_all m p r rest = replace_all (length cs) p r rest" if "length rest \<le> length cs" for rest
      using less.IH [of m rest] less.IH [of "length cs" rest] n that less.prems by (cases "m = length cs") auto
    have "length rest \<le> length cs" if "strip_prefix p (c # cs) = Some rest" for rest
      using strip_prefix_shorter [OF less.prems(1) that] by simp
    with r show ?thesis by (auto simp: n Cons split: option.split)
  qed
qed

definition is_tcp :: "protocol \<Rightarrow> bool" where
  "is_tcp p = (case p of Tcp _ \<Rightarrow> True | _ \<Rightarrow> False)"

definition dialable_address :: "world \<Rightarrow> multiaddr list \<Rightarrow> peer_id \<Rightarrow> multiaddr app_result" where
  "dialable_address w addrs peer =
     and_then (case find (list_ex is_tcp) addrs of
         Some addr \<Rightarrow> Inr addr
       | None \<Rightarrow> ok_or (AppPanic ''static addr'') (w_parse_addr w ''/ip4/127.0.0.1/tcp/0'')) (\<lambda>addr.
     let text = replace_all (length (w_show_addr w addr)) ''/ip4/0.0.0.0'' ''/ip4/127.0.0.1'' (w_show_addr w addr) in
     ok_or (AppPanic ''dialable address'') (w_parse_addr w (text @ ''/p2p/'' @ peer)))"

definition ellipsis :: string where
  "ellipsis = map (\<lambda>n. char_of (n :: nat)) [0xE2, 0x80, 0xA6]"

definition start_responder :: "world \<Rightarrow> multiaddr list option \<Rightarrow> app \<Rightarrow> unit app_st" where
  "start_responder w answer a0 =
     then_st (app_subscribe a0) (\<lambda>_ a.
     then_st (with_store (store_prekey (w_prims w) (w_json w) (w_pretty w) (pd_classical (w_prekey_draws w))
         (pd_seed (w_prekey_draws w)) (w_now w)) a) (\<lambda>prekey a1.
     let a2 = say (''[responder] waiting for the initiator'' @ ellipsis) a1;
         (listening, queue) = node_listen_addrs (ph_running (app_node a2)) answer (ph_queue (app_node a2));
         a3 = say (''[responder] listening: '' @ w_debug_addrs w listening)
           (a2\<lparr>app_responder := Some (responder_new (ns_identity (app_store a2)) prekey),
              app_node := (app_node a2)\<lparr>ph_queue := queue\<rparr>\<rparr>) in
     try_st (dialable_address w listening (w_peer_id w)) a3 (\<lambda>dialable.
     (Inr (), say (''  presidium-demo --role initiator --dir <initiator-dir> --peer '' @ w_show_addr w dialable)
        (say ''[responder] connect with:'' a3)))))"

text \<open>The error of the address parser is not told apart from its message.\<close>

definition start_initiator :: "world \<Rightarrow> string option \<Rightarrow> app \<Rightarrow> unit app_st" where
  "start_initiator w cli_peer a0 =
     then_st (app_subscribe a0) (\<lambda>_ a.
     try_st (ok_or (AppMsg ''--peer is required for the initiator'') cli_peer) a (\<lambda>peer_text.
     try_st (ok_or (AppMsg ''invalid multiaddr'') (w_parse_addr w peer_text)) a (\<lambda>addr.
     try_st (peer_id_of addr) a (\<lambda>peer.
     then_st (with_store (resume (w_engine w) (w_json w) (ns_device_id (app_store a))) (a\<lparr>app_peer := Some peer\<rparr>)) (\<lambda>session a1.
     let a2 = (case session of
           None \<Rightarrow> a1
         | Some s \<Rightarrow> (say ''[initiator] resumed persisted session, skipping handshake'' a1)\<lparr>app_session := Some s\<rparr>);
         a3 = a2\<lparr>app_initiator := Some (initiator_new (ns_identity (app_store a2)) (ns_device_id (app_store a2)) peer)\<rparr> in
     case node_dial (ph_running (app_node a3)) addr (ph_queue (app_node a3)) of
       (r, queue) \<Rightarrow> (map_err AppNetwork r, a3\<lparr>app_node := (app_node a3)\<lparr>ph_queue := queue\<rparr>\<rparr>))))))"

text \<open>
  \<open>demo_main\<close> on a store that was opened and a node that was started with \<open>demo_config\<close>: the
  banner, the subscription and the role, then the loop.
\<close>

datatype role = Initiator | Responder

definition demo_config :: node_config where
  "demo_config = default_config\<lparr>nc_listen := [any_addr], nc_mdns_enabled := False, nc_auto_dial := False,
     nc_kad_mode := Disabled, nc_request_timeout := 30\<rparr>"

definition demo_main ::
    "world \<Rightarrow> role \<Rightarrow> string option \<Rightarrow> multiaddr list option \<Rightarrow> node_store \<Rightarrow> p2p_handle \<Rightarrow> (world \<times> app_input) list \<Rightarrow>
      unit app_result option \<times> app option"
where
  "demo_main w role cli_peer answer store node inputs =
    (case app_new w store node of
       Inl e \<Rightarrow> (Some (Inl e), None)
     | Inr a \<Rightarrow>
        (case (case role of Responder \<Rightarrow> start_responder w answer a | Initiator \<Rightarrow> start_initiator w cli_peer a) of
           (Inl e, a1) \<Rightarrow> (Some (Inl e), Some a1)
         | (Inr _, a1) \<Rightarrow> (case run_loop inputs False a1 of (r, a2) \<Rightarrow> (r, Some a2))))"

end
