(* ===== verification/Ratchet_Types.thy ===== *)
theory Ratchet_Types
  imports Session_State
begin

text \<open>
  The array types of a ratchet: every operation of \<open>DoubleRatchet\<close> keeps the lengths that
  the source fixes in its types, so that every reachable state has a snapshot that can be
  stored and restored; and how many message keys the operations may store.
\<close>

section \<open>Lengths of derived keys\<close>

lemma expand_length: "hkdf_law P \<Longrightarrow> n \<le> 8160 \<Longrightarrow> expand P salt ikm info n msg = Inr out \<Longrightarrow> length out = n"
  using expand_ok [of P n salt ikm info msg] by auto

lemma hmac_length: "hmac_law P \<Longrightarrow> hmac_sha256 P k d = Inr out \<Longrightarrow> length out = 32"
  using hmac_sha256_ok [of P k d] by auto

lemma chain_next_length: "hmac_law P \<Longrightarrow> chain_next P c = Inr c' \<Longrightarrow> length (ck_key c') = 32"
  by (auto simp: chain_next_def result_simps dest: hmac_length)

lemma message_key_length: "hmac_law P \<Longrightarrow> chain_message_key P c = Inr k \<Longrightarrow> length (mk_key k) = 32"
  by (auto simp: chain_message_key_def result_simps dest: hmac_length)

lemma ratchet_step_length:
  "hkdf_law P \<Longrightarrow> ratchet_step P rk dh = Inr (rk', c) \<Longrightarrow> length (rk_key rk') = 32 \<and> length (ck_key c) = 32"
  by (auto simp: ratchet_step_def result_simps dest: expand_length [where n = 32, simplified])

section \<open>Operations\<close>

lemma rc_wf_iff:
  "rc_wf c \<longleftrightarrow> len_opt 32 (rc_our_ratchet_key c) \<and> len_opt 32 (rc_their_ratchet_public c) \<and>
     (\<forall>k. rc_chain_key c = Some k \<longrightarrow> length (ck_key k) = 32) \<and>
     list_all (\<lambda>e. length (snd e) = 32) (rc_skipped_message_keys c)"
  by (cases "rc_chain_key c") (simp_all add: rc_wf_def cs_wf_def chain_from_def len_opt_def)

lemma len_opt_simps [simp]: "len_opt n None" "len_opt n (Some b) \<longleftrightarrow> length b = n"
  by (simp_all add: len_opt_def)

lemmas ratchet_wf_defs = dr_wf_def rc_wf_iff

lemma skip_to_length:
  shows "hmac_law P \<Longrightarrow> length (ck_key c) = 32 \<Longrightarrow> list_all (\<lambda>e. length (snd e) = 32) sk \<Longrightarrow> skip_to P n c sk = (res, c', sk') \<Longrightarrow>
    length (ck_key c') = 32 \<and> list_all (\<lambda>e. length (snd e) = 32) sk'"
proof (induction P n c sk rule: skip_to.induct)
  case (1 P n c sk)
  note prems = 1(2-4) and IH = 1(1) and run = 1(5)
  note keys = chain_next_length [OF prems(1)] message_key_length [OF prems(1)]
  show ?case
  proof (cases "ck_index c < n")
    case False
    with run prems show ?thesis by (auto simp: skip_to_done)
  next
    case True
    with run prems keys IH [OF True] show ?thesis
      by (subst (asm) skip_to.simps) (auto simp: Let_def split: if_splits st_splits_asm sum.splits, blast+)
  qed
qed

lemma dr_init_wf:
  assumes "hkdf_law P" "length our = 32" "length peer = 32" "dr_init P sid rk our peer ad = Inr r"
  shows "dr_wf r"
  using assms by (auto simp: dr_init_def result_simps ratchet_wf_defs Let_def dest: ratchet_step_length)

lemma dr_init_as_responder_wf:
  assumes "length (rk_key rk) = 32" "length our = 32" "dr_init_as_responder sid rk our ad = Inr r"
  shows "dr_wf r"
  using assms by (auto simp: dr_init_as_responder_def ratchet_wf_defs)

lemma ensure_sending_chain_wf:
  assumes "hkdf_law P" "dr_wf r" "ensure_sending_chain P r = (x, r')"
  shows "dr_wf r'"
  using assms by (auto simp: ensure_sending_chain_def ratchet_wf_defs split: if_splits st_splits_asm dest: ratchet_step_length)

lemma dr_encrypt_wf:
  assumes "hkdf_law P" "hmac_law P" "dr_wf r"
  shows "dr_wf (snd (dr_encrypt P J m r))"
proof -
  obtain x r1 where e: "ensure_sending_chain P r = (x, r1)" by (cases "ensure_sending_chain P r")
  have "dr_wf r1" by (rule ensure_sending_chain_wf [OF assms(1,3) e])
  then show ?thesis
    by (auto simp: dr_encrypt_def e ratchet_wf_defs Let_def split: st_splits dest: chain_next_length [OF assms(2)])
qed

lemma dr_decrypt_wf:
  assumes "hmac_law P" "dr_wf r"
  shows "dr_wf (snd (dr_decrypt P J ct h r))"
proof -
  have "length (ck_key c') = 32 \<and> list_all (\<lambda>e. length (snd e) = 32) sk'"
    if "rc_chain_key (dr_receiving_chain r) = Some c"
      "skip_to P (rh_message_number h) c (rc_skipped_message_keys (dr_receiving_chain r)) = (res, c', sk')" for c res c' sk'
    using skip_to_length [OF assms(1) _ _ that(2)] that(1) assms(2) by (auto simp: ratchet_wf_defs)
  with assms show ?thesis
    by (auto simp: dr_decrypt_def ratchet_wf_defs Let_def split: option.splits prod.splits st_splits
        dest: chain_next_length)
qed

lemma dr_dh_ratchet_wf:
  assumes "hkdf_law P" "dr_wf r" "length peer = 32"
  shows "dr_wf (snd (dr_dh_ratchet P peer r))"
  using assms by (auto simp: dr_dh_ratchet_def ratchet_wf_defs Let_def split: st_splits option.splits dest: ratchet_step_length)

section \<open>How many keys are stored\<close>

lemma skip_to_bound:
  "skip_to P n c sk = (res, c', sk') \<Longrightarrow> length sk' \<le> max (length sk) MAX_SKIP_MESSAGES + 1"
proof (induction P n c sk rule: skip_to.induct)
  case (1 P n c sk)
  from 1(2) show ?case
    by (subst (asm) skip_to.simps)
      (use 1(1) in \<open>auto simp: Let_def max_def split: if_splits st_splits_asm sum.splits\<close>)
qed

lemma decrypt_bound:
  assumes "dr_decrypt P J ct h r = (x, r')"
  shows "length (rc_skipped_message_keys (dr_receiving_chain r')) \<le>
    max (length (rc_skipped_message_keys (dr_receiving_chain r))) MAX_SKIP_MESSAGES + 1"
  using assms by (auto simp: dr_decrypt_def Let_def split: option.splits prod.splits st_splits_asm dest: skip_to_bound)

section \<open>Properties\<close>

text \<open>
  C40. Memory: the table of stored keys grows up to \<open>MAX_SKIP_MESSAGES\<close> by any number per
  message, and beyond that by at most one key for each message that is tried, accepted or
  not, however far ahead the numbers in their headers are.
\<close>

theorem skipped_keys_bound:
  "length (rc_skipped_message_keys (dr_receiving_chain (snd (dr_decrypt_all P J chs r)))) \<le>
    max (length (rc_skipped_message_keys (dr_receiving_chain r))) MAX_SKIP_MESSAGES + length chs"
proof (induction chs arbitrary: r)
  case Nil
  then show ?case by simp
next
  case (Cons ch chs)
  let ?n = "\<lambda>r. length (rc_skipped_message_keys (dr_receiving_chain r))"
  obtain x r1 where d: "dr_decrypt P J (fst ch) (snd ch) r = (x, r1)" by (cases "dr_decrypt P J (fst ch) (snd ch) r")
  have "?n (snd (dr_decrypt_all P J chs r1)) \<le> max (?n r1) MAX_SKIP_MESSAGES + length chs" by (rule Cons.IH)
  with decrypt_bound [OF d] show ?case by (simp add: d split_beta)
qed

text \<open>The skipping loop with its rounds counted: \<^term>\<open>None\<close> when it has not ended after \<open>k\<close> of them.\<close>

fun skip_rounds ::
    "nat \<Rightarrow> prims \<Rightarrow> u64 \<Rightarrow> chain_key \<Rightarrow> (u64 \<times> bytes) list \<Rightarrow>
      ((crypto_error + unit) \<times> chain_key \<times> (u64 \<times> bytes) list) option"
where
  "skip_rounds 0 P n chain skipped = (if ck_index chain < n then None else Some (Inr (), chain, skipped))"
| "skip_rounds (Suc k) P n chain skipped =
    (if ck_index chain < n then
       case chain_message_key P chain of
         Inl e \<Rightarrow> Some (Inl e, chain, skipped)
       | Inr msg_key \<Rightarrow>
           let skipped' = skipped @ [(mk_index msg_key, mk_key msg_key)] in
           if length skipped' > MAX_SKIP_MESSAGES
           then Some (Inl (RatchetError ''Too many skipped messages''), chain, skipped')
           else (case chain_next P chain of
               Inl e \<Rightarrow> Some (Inl e, chain, skipped')
             | Inr chain' \<Rightarrow> skip_rounds k P n chain' skipped')
     else Some (Inr (), chain, skipped))"

text \<open>
  C28. The loop that stores the keys of skipped messages always ends, and soon: whatever number
  up to \<open>u64::MAX\<close> a header announces, it has run to its result after \<open>MAX_SKIP_MESSAGES + 1\<close> rounds at
  the latest, and after one round less for every key that is already stored.
\<close>

theorem skip_loop_ends:
  "skip_rounds (Suc (MAX_SKIP_MESSAGES - length skipped)) P n chain skipped = Some (skip_to P n chain skipped)"
proof (induction "MAX_SKIP_MESSAGES - length skipped" arbitrary: chain skipped)
  case 0
  then show ?case by (subst skip_to.simps) (simp split: sum.splits)
next
  case (Suc k)
  then have k: "k = MAX_SKIP_MESSAGES - length (skipped @ [e])" for e by simp
  have "skip_rounds (Suc k) P n chain' (skipped @ [e]) = Some (skip_to P n chain' (skipped @ [e]))" for chain' e
    using Suc(1) [OF k, of e chain'] unfolding k [of e, symmetric] .
  then show ?case
    unfolding Suc(2) [symmetric]
    by (subst skip_rounds.simps(2), subst skip_to.simps) (simp add: Let_def del: skip_rounds.simps split: sum.splits)
qed

end
