(* ===== verification/Conversation.thy ===== *)
theory Conversation
  imports App Ratchet_Types
begin

text \<open>
  What the demo's one-to-one sessions guarantee: a handshake over the wire ends in sessions that deliver
  from the initiator to the responder, replies are refused, and sessions survive their persistence.
\<close>

section \<open>Envelopes\<close>

definition chat_laws :: "prims \<Rightarrow> json_text \<Rightarrow> bool" where
  "chat_laws P J \<longleftrightarrow> signature_laws P \<and> kem_laws P \<and> ratchet_laws P J"

lemma sample_chat_laws: "chat_laws sample_prims sample_json"
  by (simp add: chat_laws_def sample_identity_laws sample_ratchet_laws)

lemma chat_lawsD:
  assumes "chat_laws P J"
  shows "signature_laws P" "kem_laws P" "ratchet_laws P J" "dh_law P" "hkdf_law P" "hmac_law P" "aead_law P"
    "aead_total P" "json_law J"
  using assms by (simp_all add: chat_laws_def ratchet_laws_def)

text \<open>An envelope that a peer accepts, with its payload and its header or metadata.\<close>

definition genuine :: "prims \<Rightarrow> json_text \<Rightarrow> identity_public_key \<Rightarrow> network_envelope \<Rightarrow> bool" where
  "genuine P J peer envelope \<longleftrightarrow> verify_envelope P J peer envelope = Inr True"

definition carries :: "json_text \<Rightarrow> bytes \<times> ratchet_message_header \<Rightarrow> network_envelope \<Rightarrow> bool" where
  "carries J ch envelope \<longleftrightarrow> ne_encrypted_payload envelope = fst ch \<and> parse_header J (ne_nonce envelope) = Inr (snd ch)"

lemma build_raw_envelope_ok:
  assumes "signature_laws P" "json_law J" "ikp_wf identity"
  shows "\<exists>e. build_raw_envelope P J now identity device kind conversation payload header = Inr e \<and>
    genuine P J (identity_public P identity) e \<and> ne_kind e = kind \<and> ne_conversation_id e = conversation \<and>
    ne_sender_device_id e = bstr device \<and> ne_encrypted_payload e = payload \<and> ne_nonce e = header"
proof -
  obtain sig where sig: "sign_hybrid P identity (signed_bytes header payload) = Inr sig" "hs_wf sig"
      "verify_hybrid P (identity_public P identity) (signed_bytes header payload) sig = Inr ()"
    by (rule sign_hybrid_ok [OF assms(1,3)])
  obtain bs where "to_vec J hybrid_signature_to_json sig = Inr bs" "from_slice J hybrid_signature_of_json bs = Inr sig"
    using hs_json.wire_roundtrip [OF assms(2) sig(2)] by blast
  with sig show ?thesis
    by (simp add: build_raw_envelope_def genuine_def verify_envelope_def context_json_def is_ok_iff)
qed

lemma build_signed_envelope_ok:
  assumes "signature_laws P" "json_law J" "ikp_wf identity" "rh_wf h"
  shows "\<exists>e. build_signed_envelope P J now identity device kind conversation ct h = Inr e \<and>
    genuine P J (identity_public P identity) e \<and> carries J (ct, h) e"
proof -
  obtain bs where "to_vec J ratchet_header_to_json h = Inr bs" "from_slice J ratchet_header_of_json bs = Inr h"
    using rh_json.wire_roundtrip [OF assms(2,4)] by blast
  with build_raw_envelope_ok [OF assms(1-3), of now device kind conversation ct bs] show ?thesis
    by (auto simp: build_signed_envelope_def carries_def parse_header_def context_json_def)
qed

section \<open>Sending and reading in a session\<close>

lemma chat_encrypt_all:
  assumes laws: "signature_laws P" "json_law J" "ikp_wf identity"
  shows "run_all (dr_encrypt P J) ms (ch_ratchet s) = (map Inr msgs, r') \<Longrightarrow> \<forall>ch\<in>set msgs. rh_wf (snd ch) \<Longrightarrow>
    \<exists>es. run_all (chat_encrypt P J now identity device) ms s = (map Inr es, s\<lparr>ch_ratchet := r'\<rparr>) \<and>
      list_all2 (carries J) msgs es \<and> (\<forall>e\<in>set es. genuine P J (identity_public P identity) e)"
proof (induction ms arbitrary: s msgs)
  case Nil
  then show ?case by simp
next
  case (Cons m ms)
  obtain y r1 where e: "dr_encrypt P J m (ch_ratchet s) = (y, r1)" by (cases "dr_encrypt P J m (ch_ratchet s)")
  obtain ys r2 where es: "run_all (dr_encrypt P J) ms r1 = (ys, r2)" by (cases "run_all (dr_encrypt P J) ms r1")
  from Cons.prems(1) obtain ct h msgs' where m: "msgs = (ct, h) # msgs'" "y = Inr (ct, h)" "ys = map Inr msgs'" "r2 = r'"
    by (cases msgs) (auto simp: e es)
  have "\<exists>es. run_all (chat_encrypt P J now identity device) ms (s\<lparr>ch_ratchet := r1\<rparr>) =
      (map Inr es, (s\<lparr>ch_ratchet := r1\<rparr>)\<lparr>ch_ratchet := r'\<rparr>) \<and>
      list_all2 (carries J) msgs' es \<and> (\<forall>e\<in>set es. genuine P J (identity_public P identity) e)"
    using es m Cons.prems(2) by (intro Cons.IH) simp_all
  then obtain es where es: "run_all (chat_encrypt P J now identity device) ms (s\<lparr>ch_ratchet := r1\<rparr>) =
      (map Inr es, s\<lparr>ch_ratchet := r'\<rparr>)" "list_all2 (carries J) msgs' es"
      "\<forall>e\<in>set es. genuine P J (identity_public P identity) e"
    by auto
  have "rh_wf h" using Cons.prems(2) m(1) by simp
  then obtain e' where "build_signed_envelope P J now identity device KIND_DIRECT (bstr (ch_conversation_id s)) ct h = Inr e'"
      "genuine P J (identity_public P identity) e'" "carries J (ct, h) e'"
    using build_signed_envelope_ok [OF laws] by blast
  moreover from this(1) have "chat_encrypt P J now identity device m s = (Inr e', s\<lparr>ch_ratchet := r1\<rparr>)"
    using e m by (simp add: chat_encrypt_def context_crypto_def)
  ultimately show ?case using es m by (intro exI [of _ "e' # es"]) simp
qed

lemma chat_decrypt_known:
  assumes "genuine P J (ch_peer_identity s) e" "carries J (ct, h) e"
    and "known_ratchet (ch_ratchet s) = Some (rh_dh_public_key h)"
  shows "chat_decrypt P J e s = (context_crypto ''ratchet decrypt'' (fst (dr_decrypt P J ct h (ch_ratchet s))),
    s\<lparr>ch_ratchet := snd (dr_decrypt P J ct h (ch_ratchet s))\<rparr>)"
  using assms by (simp add: chat_decrypt_def genuine_def carries_def context_crypto_def split_beta Let_def)

lemma dr_decrypt_known: "known_ratchet (snd (dr_decrypt P J ct h r)) = known_ratchet r"
  by (auto simp: known_ratchet_def dr_decrypt_def Let_def split: option.splits prod.splits st_splits)

lemma chat_decrypt_all:
  "list_all2 (carries J) msgs es \<Longrightarrow> \<forall>e\<in>set es. genuine P J (ch_peer_identity s) e \<Longrightarrow>
    known_ratchet (ch_ratchet s) = Some k \<Longrightarrow> \<forall>ch\<in>set msgs. rh_dh_public_key (snd ch) = k \<Longrightarrow>
    fst (run_all (chat_decrypt P J) es s) =
      map (context_crypto ''ratchet decrypt'') (fst (dr_decrypt_all P J msgs (ch_ratchet s)))"
proof (induction msgs es arbitrary: s rule: list_all2_induct)
  case Nil
  then show ?case by simp
next
  case (Cons ch msgs e es)
  obtain ct h where ch: "ch = (ct, h)" by (cases ch)
  let ?s = "s\<lparr>ch_ratchet := snd (dr_decrypt P J ct h (ch_ratchet s))\<rparr>"
  have "fst (run_all (chat_decrypt P J) es ?s) =
      map (context_crypto ''ratchet decrypt'') (fst (dr_decrypt_all P J msgs (ch_ratchet ?s)))"
    using Cons.prems by (intro Cons.IH) (simp_all add: dr_decrypt_known)
  then show ?case
    using chat_decrypt_known [of P J s e ct h] Cons.prems Cons.hyps ch by (simp add: split_beta)
qed

text \<open>A session that meets a new ratchet key behaves as if it had taken the ratchet step before.\<close>

lemma chat_decrypt_all_step:
  assumes "dr_dh_ratchet P k (ch_ratchet s) = (Inr (), r')" "known_ratchet (ch_ratchet s) \<noteq> Some k"
    and "known_ratchet r' = Some k"
    and "list_all2 (carries J) msgs es" "\<forall>ch\<in>set msgs. rh_dh_public_key (snd ch) = k"
    and "\<forall>e\<in>set es. genuine P J (ch_peer_identity s) e"
  shows "fst (run_all (chat_decrypt P J) es s) = fst (run_all (chat_decrypt P J) es (s\<lparr>ch_ratchet := r'\<rparr>))"
proof (cases es)
  case Nil
  then show ?thesis by simp
next
  case (Cons e es')
  then obtain ch where "carries J ch e" "rh_dh_public_key (snd ch) = k"
    using assms(4,5) by (auto simp: list_all2_Cons2)
  moreover have "genuine P J (ch_peer_identity s) e" using assms(6) Cons by simp
  ultimately have "chat_decrypt P J e s = chat_decrypt P J e (s\<lparr>ch_ratchet := r'\<rparr>)"
    using assms(1-3) by (auto simp: chat_decrypt_def genuine_def carries_def context_crypto_def Let_def)
  with Cons show ?thesis by simp
qed

section \<open>The handshake\<close>

text \<open>Two sessions over one root key, with the ratchet keys \<open>a\<close> of the initiator and \<open>b\<close> of the responder.\<close>

definition paired ::
    "prims \<Rightarrow> identity_key_pair \<Rightarrow> identity_key_pair \<Rightarrow> bytes \<Rightarrow> bytes \<Rightarrow> chat_session \<Rightarrow> chat_session \<Rightarrow> bool"
where
  "paired P alice bob a b chat_a chat_b \<longleftrightarrow>
     ch_peer_identity chat_a = identity_public P bob \<and> ch_peer_identity chat_b = identity_public P alice \<and>
     (\<exists>rk. dr_init P SESSION_ID rk a (x25519_base P b) [] = Inr (ch_ratchet chat_a) \<and>
        dr_init_as_responder SESSION_ID rk b [] = Inr (ch_ratchet chat_b))"

text \<open>The ratchets of two sessions fit together, whoever each side takes its peer for.\<close>

definition linked :: "prims \<Rightarrow> bytes \<Rightarrow> bytes \<Rightarrow> chat_session \<Rightarrow> chat_session \<Rightarrow> bool" where
  "linked P a b chat_a chat_b \<longleftrightarrow>
     (\<exists>rk. dr_init P SESSION_ID rk a (x25519_base P b) [] = Inr (ch_ratchet chat_a) \<and>
        dr_init_as_responder SESSION_ID rk b [] = Inr (ch_ratchet chat_b))"

lemma paired_iff_linked: "paired P alice bob a b chat_a chat_b \<longleftrightarrow>
    ch_peer_identity chat_a = identity_public P bob \<and> ch_peer_identity chat_b = identity_public P alice \<and> linked P a b chat_a chat_b"
  by (simp add: paired_def linked_def)

text \<open>The prekey that a responder has published, with the private key \<open>k\<close>.\<close>

definition published :: "prims \<Rightarrow> hybrid_kem_private_key \<Rightarrow> prekey_material \<Rightarrow> bool" where
  "published P k m \<longleftrightarrow> pmat_wf m \<and> kpriv_wf k \<and> prekey_private_key m = Inr k \<and> pmat_public_key m = kem_public_key P k"

lemma sessions_linked:
  assumes "dh_law P" "hkdf_law P" "length b = 32"
  shows "\<exists>chat_a. build_initiator_session P a device out peer (x25519_base P b) = Inr chat_a \<and> ch_peer_identity chat_a = peer \<and>
    (\<forall>claimed. \<exists>keys ratchet. session_keys_new P False (po_shared_secret out) claimed = Inr keys \<and>
      session_to_ratchet P keys b None = Inr ratchet \<and>
      linked P a b chat_a \<lparr>ch_conversation_id = conv, ch_peer_identity = claimed,
        ch_is_initiator = False, ch_ratchet = ratchet, ch_session_keys = keys\<rparr>)"
proof -
  obtain ka where ka: "session_keys_new P True (po_shared_secret out) peer = Inr ka"
    using session_keys_new_ok [OF assms(2)] by metis
  obtain rk c where step: "ratchet_step P \<lparr>rk_key = sk_root_key ka\<rparr> (x25519 P a (x25519_base P b)) = Inr (rk, c)"
    using ratchet_step_ok [OF assms(2)] by blast
  obtain ra where ra: "dr_init P SESSION_ID \<lparr>rk_key = sk_root_key ka\<rparr> a (x25519_base P b) [] = Inr ra"
    using step by (simp add: dr_init_def Let_def)
  let ?a = "\<lparr>ch_conversation_id = device, ch_peer_identity = peer, ch_is_initiator = True, ch_ratchet = ra, ch_session_keys = ka\<rparr>"
  have a: "build_initiator_session P a device out peer (x25519_base P b) = Inr ?a"
    using ka ra session_keys_same_secret(2) [OF ka ka]
    by (simp add: build_initiator_session_def context_crypto_def session_to_ratchet_def SESSION_ID_def Let_def)
  have "\<exists>keys ratchet. session_keys_new P False (po_shared_secret out) claimed = Inr keys \<and>
      session_to_ratchet P keys b None = Inr ratchet \<and> dr_init_as_responder SESSION_ID \<lparr>rk_key = sk_root_key ka\<rparr> b [] = Inr ratchet" for claimed
  proof -
    obtain kb where kb: "session_keys_new P False (po_shared_secret out) claimed = Inr kb"
      using session_keys_new_ok [OF assms(2)] by metis
    then show ?thesis using session_keys_same_secret [OF ka kb] session_keys_same_secret [OF kb ka]
      by (simp add: session_to_ratchet_def dr_init_as_responder_def SESSION_ID_def Let_def)
  qed
  with a ra show ?thesis unfolding linked_def by (intro exI [of _ ?a]) force
qed

lemma initiator_message_wf:
  assumes "signature_laws P" "kem_laws P" "ikp_wf alice" "kpriv_wf eph"
    and "pqxdh_initiator P draw \<lparr>pik_identity = alice, pik_ephemeral = eph, pik_peer_bundle = bundle\<rparr> = Inr (out, m)"
  shows "pm_wf m"
proof -
  have "hkdf_law P" using assms(2) by (simp add: kem_laws_def)
  then obtain k where "kem_secret P alice = Inr k" "kpriv_wf k" by (rule kem_secret_ok [OF _ assms(3)])
  then show ?thesis
    using assms identity_public_wf [OF assms(1,3)] kem_public_key_wf [OF assms(2)]
    by (auto simp: pqxdh_initiator_def pm_wf_def result_simps Let_def)
qed

lemma bundle_on_wire:
  assumes "signature_laws P" "kem_laws P" "json_law J" "ikp_wf bob" "published P k prekey"
  shows "\<exists>pkb bs. responder_bundle P (responder_new bob prekey) = Inr pkb \<and>
    bundle_new P bob (prekey_signed_prekey prekey) [] = Inr pkb \<and> bundle_verify P pkb = Inr () \<and>
    pkb_identity_key pkb = identity_public P bob \<and>
    to_vec J pre_key_bundle_to_json pkb = Inr bs \<and> from_slice J pre_key_bundle_of_json bs = Inr pkb"
proof -
  obtain pkb q where b: "bundle_new P bob (prekey_signed_prekey prekey) [] = Inr pkb" "bundle_verify P pkb = Inr ()"
      "kpriv_wf q" "pkb_identity_kem_public pkb = kem_public_key P q" "pkb_identity_key pkb = identity_public P bob"
      "pkb_signed_prekey pkb = prekey_signed_prekey prekey" "pkb_one_time_prekeys pkb = []"
      "hs_wf (pkb_bundle_signature pkb)"
    by (rule bundle_new_ok [OF assms(1,2,4)])
  then have "pkb_wf pkb"
    using assms(5) identity_public_wf [OF assms(1,4)] kem_public_key_wf [OF assms(2)]
    by (simp add: pkb_wf_def spk_wf_def prekey_signed_prekey_def published_def pmat_wf_def)
  then obtain bs where "to_vec J pre_key_bundle_to_json pkb = Inr bs" "from_slice J pre_key_bundle_of_json bs = Inr pkb"
    using pkb_json.wire_roundtrip [OF assms(3)] by blast
  with b show ?thesis by (simp add: responder_bundle_def responder_new_def prekey_to_bundle_def)
qed

text \<open>What the initiator sends, and what it remembers.\<close>

definition prekey_sent ::
    "identity_public_key \<Rightarrow> pqxdh_output \<Rightarrow> initiator_handshake \<Rightarrow> initiator_handshake"
where
  "prekey_sent peer_identity out ih = ih\<lparr>ih_peer_identity := Some peer_identity, ih_pending := Some out\<rparr>"

lemma send_prekey_ok:
  assumes laws: "signature_laws P" "kem_laws P" "json_law J" and wf: "ikp_wf (ih_identity ih)" "kpriv_wf eph" "ph_running h"
    and draws: "pd_classical draws = kpriv_classical eph" "pd_seed draws = Some (kpriv_pq eph)"
    and "bundle_verify P pkb = Inr ()"
    and run: "pqxdh_initiator P (pd_encaps draws) \<lparr>pik_identity = ih_identity ih, pik_ephemeral = eph, pik_peer_bundle = pkb\<rparr>
      = Inr (out, m)"
  shows "\<exists>e body. send_prekey P J now draws pkb (ih, h) = (Inr (), prekey_sent (pkb_identity_key pkb) out ih,
      h\<lparr>ph_queue := ph_queue h @ [SendDirect (ih_peer ih) e]\<rparr>) \<and>
    ne_encrypted_payload e = MARKER_PREKEY # body \<and> from_slice J prekey_message_of_json body = Inr m"
proof -
  have "pm_wf m" by (rule initiator_message_wf [OF laws(1,2) wf(1,2) run])
  then obtain body where "to_vec J prekey_message_to_json m = Inr body" "from_slice J prekey_message_of_json body = Inr m"
    using pm_json.wire_roundtrip [OF laws(3)] by blast
  moreover obtain e where "sync_envelope P J now (ih_identity ih) (ih_device_id ih) MARKER_PREKEY body = Inr e"
      "ne_encrypted_payload e = MARKER_PREKEY # body"
    using build_raw_envelope_ok [OF laws(1,3) wf(1)] unfolding sync_envelope_def by blast
  moreover have "kem_generate P (pd_classical draws) (pd_seed draws) = Inr (kem_public_key P eph, eph)"
    by (simp add: kem_generate_ok_iff draws)
  ultimately show ?thesis
    using assms by (intro exI [of _ e] exI [of _ body]) (simp add: send_prekey_def context_crypto_def handle_send_def
        send_direct_def send_control_def prekey_sent_def)
qed

text \<open>
  The handshake, with the prekey message taken as it was sent or with another identity key put into
  it: the responder accepts either, and its session fits the initiator's.
\<close>

lemma handshake_claimed:
  assumes "chat_laws P J" "ikp_wf (ih_identity ih)" "ikp_wf bob" "published P k prekey" "kpriv_wf eph" "ph_running h"
    and draws: "pd_classical draws = kpriv_classical eph" "pd_seed draws = Some (kpriv_pq eph)"
    and b: "length b = 32"
  shows "\<exists>pkb bs e body m ih1 chat_a ih2.
    responder_bundle P (responder_new bob prekey) = Inr pkb \<and>
    to_vec J pre_key_bundle_to_json pkb = Inr bs \<and> from_slice J pre_key_bundle_of_json bs = Inr pkb \<and>
    send_prekey P J now draws pkb (ih, h) = (Inr (), ih1, h\<lparr>ph_queue := ph_queue h @ [SendDirect (ih_peer ih) e]\<rparr>) \<and>
    ne_encrypted_payload e = MARKER_PREKEY # body \<and> from_slice J prekey_message_of_json body = Inr m \<and> pm_wf m \<and>
    pm_identity_public m = identity_public P (ih_identity ih) \<and>
    establish P a (x25519_base P b) ih1 = (Inr chat_a, ih2) \<and> ch_peer_identity chat_a = identity_public P bob \<and>
    (\<forall>claimed body'. from_slice J prekey_message_of_json body' = Inr (m\<lparr>pm_identity_public := claimed\<rparr>) \<longrightarrow>
      (\<exists>chat_b rp2. on_prekey P J b body' conv (responder_new bob prekey) = (Inr (x25519_base P b, chat_b), rp2) \<and>
        ch_peer_identity chat_b = claimed \<and> linked P a b chat_a chat_b))"
proof -
  note laws = chat_lawsD [OF assms(1)]
  obtain pkb bs where pkb: "responder_bundle P (responder_new bob prekey) = Inr pkb"
      "bundle_new P bob (prekey_signed_prekey prekey) [] = Inr pkb" "bundle_verify P pkb = Inr ()"
      "pkb_identity_key pkb = identity_public P bob"
      "to_vec J pre_key_bundle_to_json pkb = Inr bs" "from_slice J pre_key_bundle_of_json bs = Inr pkb"
    using bundle_on_wire [OF laws(1,2,9) assms(3,4)] by blast
  let ?keys = "\<lparr>prk_identity = bob, prk_signed_prekey = k, prk_signed_prekey_id = pmat_key_id prekey,
    prk_one_time_prekey = None, prk_one_time_prekey_id = None\<rparr>"
  have "holds_prekeys P (prekey_signed_prekey prekey) [] ?keys"
    using assms(3,4) by (simp add: holds_prekeys_def published_def prekey_signed_prekey_def)
  then obtain out m where run: "pqxdh_initiator P (pd_encaps draws)
        \<lparr>pik_identity = ih_identity ih, pik_ephemeral = eph, pik_peer_bundle = pkb\<rparr> = Inr (out, m)"
      "pqxdh_responder P ?keys m = Inr out" "pm_identity_public m = identity_public P (ih_identity ih)"
    using pqxdh_agree [OF laws(1,2) assms(2), of "prekey_signed_prekey prekey" "[]" ?keys pkb] pkb(2) by fastforce
  obtain e body where sent: "send_prekey P J now draws pkb (ih, h) = (Inr (), prekey_sent (identity_public P bob) out ih,
        h\<lparr>ph_queue := ph_queue h @ [SendDirect (ih_peer ih) e]\<rparr>)"
      "ne_encrypted_payload e = MARKER_PREKEY # body" "from_slice J prekey_message_of_json body = Inr m"
    using send_prekey_ok [OF laws(1,2,9) assms(2,5,6) draws pkb(3) run(1), of now] pkb(4) by auto
  obtain chat_a where s: "build_initiator_session P a (ih_device_id ih) out (identity_public P bob) (x25519_base P b) = Inr chat_a"
      "ch_peer_identity chat_a = identity_public P bob"
      "\<forall>claimed. \<exists>keys ratchet. session_keys_new P False (po_shared_secret out) claimed = Inr keys \<and>
        session_to_ratchet P keys b None = Inr ratchet \<and>
        linked P a b chat_a \<lparr>ch_conversation_id = conv, ch_peer_identity = claimed,
          ch_is_initiator = False, ch_ratchet = ratchet, ch_session_keys = keys\<rparr>"
    using sessions_linked [OF laws(4,5) b] by blast
  have key: "prekey_private_key prekey = Inr k" using assms(4) by (simp add: published_def)
  have "\<exists>chat_b rp2. on_prekey P J b body' conv (responder_new bob prekey) = (Inr (x25519_base P b, chat_b), rp2) \<and>
      ch_peer_identity chat_b = claimed \<and> linked P a b chat_a chat_b"
    if m': "from_slice J prekey_message_of_json body' = Inr (m\<lparr>pm_identity_public := claimed\<rparr>)" for claimed body'
  proof -
    obtain keys ratchet where k: "session_keys_new P False (po_shared_secret out) claimed = Inr keys"
        "session_to_ratchet P keys b None = Inr ratchet"
        "linked P a b chat_a \<lparr>ch_conversation_id = conv, ch_peer_identity = claimed,
          ch_is_initiator = False, ch_ratchet = ratchet, ch_session_keys = keys\<rparr>"
      using s(3) by blast
    moreover have "pqxdh_responder P ?keys (m\<lparr>pm_identity_public := claimed\<rparr>) = Inr out"
      using run(2) by (simp add: pqxdh_identity_unbound)
    ultimately show ?thesis using m' key by (simp add: on_prekey_def responder_new_def context_defs Let_def)
  qed
  moreover have "\<exists>ih2. establish P a (x25519_base P b) (prekey_sent (identity_public P bob) out ih) = (Inr chat_a, ih2)"
    using s(1) length_x25519_base [OF laws(4) b] by (simp add: establish_def prekey_sent_def try_into_def Let_def)
  moreover have "pm_wf m" by (rule initiator_message_wf [OF laws(1,2) assms(2,5) run(1)])
  ultimately show ?thesis using pkb(1,5,6) sent run(3) s(2) by blast
qed

lemma handshake_ok:
  assumes "chat_laws P J" "ikp_wf (ih_identity ih)" "ikp_wf bob" "published P k prekey" "kpriv_wf eph" "ph_running h"
    and draws: "pd_classical draws = kpriv_classical eph" "pd_seed draws = Some (kpriv_pq eph)"
    and b: "length b = 32"
  shows "\<exists>pkb bs e body ih1 chat_a chat_b ih2 rp2.
    responder_bundle P (responder_new bob prekey) = Inr pkb \<and>
    to_vec J pre_key_bundle_to_json pkb = Inr bs \<and> from_slice J pre_key_bundle_of_json bs = Inr pkb \<and>
    send_prekey P J now draws pkb (ih, h) = (Inr (), ih1, h\<lparr>ph_queue := ph_queue h @ [SendDirect (ih_peer ih) e]\<rparr>) \<and>
    ne_encrypted_payload e = MARKER_PREKEY # body \<and>
    on_prekey P J b body conv (responder_new bob prekey) = (Inr (x25519_base P b, chat_b), rp2) \<and>
    establish P a (x25519_base P b) ih1 = (Inr chat_a, ih2) \<and>
    paired P (ih_identity ih) bob a b chat_a chat_b"
proof -
  obtain pkb bs e body m ih1 chat_a ih2 where h: "responder_bundle P (responder_new bob prekey) = Inr pkb"
    "to_vec J pre_key_bundle_to_json pkb = Inr bs" "from_slice J pre_key_bundle_of_json bs = Inr pkb"
    "send_prekey P J now draws pkb (ih, h) = (Inr (), ih1, h\<lparr>ph_queue := ph_queue h @ [SendDirect (ih_peer ih) e]\<rparr>)"
    "ne_encrypted_payload e = MARKER_PREKEY # body" "establish P a (x25519_base P b) ih1 = (Inr chat_a, ih2)"
    and m: "from_slice J prekey_message_of_json body = Inr m" "pm_identity_public m = identity_public P (ih_identity ih)"
    and peer: "ch_peer_identity chat_a = identity_public P bob"
    and r: "\<forall>claimed body'. from_slice J prekey_message_of_json body' = Inr (m\<lparr>pm_identity_public := claimed\<rparr>) \<longrightarrow>
      (\<exists>chat_b rp2. on_prekey P J b body' conv (responder_new bob prekey) = (Inr (x25519_base P b, chat_b), rp2) \<and>
        ch_peer_identity chat_b = claimed \<and> linked P a b chat_a chat_b)"
    using handshake_claimed [OF assms, where now = now and conv = conv and a = a] by blast
  have "m\<lparr>pm_identity_public := identity_public P (ih_identity ih)\<rparr> = m" using m(2) by simp
  then obtain chat_b rp2 where "on_prekey P J b body conv (responder_new bob prekey) = (Inr (x25519_base P b, chat_b), rp2)"
      "paired P (ih_identity ih) bob a b chat_a chat_b"
    using r m(1) peer unfolding paired_iff_linked by metis
  with h show ?thesis by blast
qed

section \<open>Delivery between paired sessions\<close>

lemma run_encrypt_header:
  assumes "rc_our_ratchet_key (dr_sending_chain r) = Some a" "run_all (dr_encrypt P J) ms r = (map Inr msgs, r')"
  shows "\<forall>ch\<in>set msgs. rh_dh_public_key (snd ch) = x25519_base P a"
proof -
  let ?I = "\<lambda>r. rc_our_ratchet_key (dr_sending_chain r) = Some a"
  let ?R = "\<lambda>(m :: bytes) y. \<forall>ch. y = Inr ch \<longrightarrow> rh_dh_public_key (snd ch) = x25519_base P a"
  have "list_all2 ?R ms (fst (run_all (dr_encrypt P J) ms r)) \<and> ?I (snd (run_all (dr_encrypt P J) ms r))"
  proof (rule run_all_invariant)
    fix m r1 y r2
    assume "?I r1" and e: "dr_encrypt P J m r1 = (y, r2)"
    with dr_encrypt_frame(2) [OF e] dr_encrypt_header [of P J m r1] show "?R m y \<and> ?I r2" by auto
  qed (use assms(1) in simp)
  with assms(2) show ?thesis by (auto simp: list_all2_conv_all_nth in_set_conv_nth)
qed

lemma dr_dh_ratchet_known:
  assumes "dr_dh_ratchet P k r = (Inr (), r')" "rc_their_ratchet_public (dr_receiving_chain r) = None"
  shows "known_ratchet r' = Some k"
  using assms by (auto simp: dr_dh_ratchet_def known_ratchet_def Let_def split: st_splits_asm if_splits)

lemma responder_knows_none:
  assumes "dr_init_as_responder sid rk b ad = Inr r"
  shows "rc_their_ratchet_public (dr_receiving_chain r) = None \<and> known_ratchet r = None"
  using assms by (auto simp: dr_init_as_responder_def known_ratchet_def)

lemma list_all2_nth_map: "list_all2 R xs ys \<Longrightarrow> set order \<subseteq> {..<length xs} \<Longrightarrow> list_all2 R (map ((!) xs) order) (map ((!) ys) order)"
  by (auto simp: list_all2_conv_all_nth subset_iff)

text \<open>An envelope with the same sealed message in it; its sender and signature may be others.\<close>

definition same_content :: "network_envelope \<Rightarrow> network_envelope \<Rightarrow> bool" where
  "same_content e f \<longleftrightarrow> ne_encrypted_payload f = ne_encrypted_payload e \<and> ne_nonce f = ne_nonce e"

lemma linked_delivers:
  assumes "chat_laws P J" "linked P a b chat_a chat_b" "ikp_wf alice" "length a = 32"
    and ms: "length ms \<le> MAX_SKIP_MESSAGES + 1" "\<forall>m\<in>set ms. length m < 2 ^ 32"
  shows "\<exists>es chat_a'. run_all (chat_encrypt P J now alice device) ms chat_a = (map Inr es, chat_a') \<and>
    length es = length ms \<and> (\<forall>e\<in>set es. genuine P J (identity_public P alice) e) \<and>
    (\<forall>fs order. list_all2 same_content es fs \<and> (\<forall>e\<in>set fs. genuine P J (ch_peer_identity chat_b) e) \<and>
        distinct order \<and> set order \<subseteq> {..<length ms} \<longrightarrow>
      fst (run_all (chat_decrypt P J) (map ((!) fs) order) chat_b) = map (\<lambda>n. Inr (ms ! n)) order)"
proof -
  note laws = chat_lawsD [OF assms(1)]
  obtain rk where rk: "dr_init P SESSION_ID rk a (x25519_base P b) [] = Inr (ch_ratchet chat_a)"
      "dr_init_as_responder SESSION_ID rk b [] = Inr (ch_ratchet chat_b)"
    using assms(2) by (auto simp: linked_def)
  obtain r where r: "dr_dh_ratchet P (x25519_base P a) (ch_ratchet chat_b) = (Inr (), r)"
      "chain_shared P (ch_ratchet chat_a) r" "rc_our_ratchet_key (dr_sending_chain (ch_ratchet chat_a)) = Some a"
    by (rule init_shared [OF laws(4,5) rk(1,2)])
  have unknown: "rc_their_ratchet_public (dr_receiving_chain (ch_ratchet chat_b)) = None"
      "known_ratchet (ch_ratchet chat_b) = None"
    using responder_knows_none [OF rk(2)] by simp_all
  obtain msgs ra where sent: "run_all (dr_encrypt P J) ms (ch_ratchet chat_a) = (map Inr msgs, ra)" "length msgs = length ms"
      "\<forall>order. distinct order \<and> set order \<subseteq> {..<length ms} \<longrightarrow>
        fst (dr_decrypt_all P J (map ((!) msgs) order) r) = map (\<lambda>n. Inr (ms ! n)) order"
    using shared_chain_delivers [OF laws(6-9) r(2) ms] by blast
  have keys: "\<forall>ch\<in>set msgs. rh_dh_public_key (snd ch) = x25519_base P a" by (rule run_encrypt_header [OF r(3) sent(1)])
  then have "\<forall>ch\<in>set msgs. rh_wf (snd ch)" using length_x25519_base [OF laws(4) assms(4)] by (simp add: rh_wf_def)
  then obtain es where es: "run_all (chat_encrypt P J now alice device) ms chat_a = (map Inr es, chat_a\<lparr>ch_ratchet := ra\<rparr>)"
      "list_all2 (carries J) msgs es" "\<forall>e\<in>set es. genuine P J (identity_public P alice) e"
    using chat_encrypt_all [OF laws(1,9) assms(3) sent(1)] by blast
  have len: "length es = length ms" using list_all2_lengthD [OF es(2)] sent(2) by simp
  have "fst (run_all (chat_decrypt P J) (map ((!) fs) order) chat_b) = map (\<lambda>n. Inr (ms ! n)) order"
    if f: "list_all2 same_content es fs" "\<forall>e\<in>set fs. genuine P J (ch_peer_identity chat_b) e"
      and o: "distinct order" "set order \<subseteq> {..<length ms}" for fs order
  proof -
    have fs: "list_all2 (carries J) msgs fs" "length fs = length ms"
      using es(2) f(1) len by (auto simp: list_all2_conv_all_nth carries_def same_content_def)
    let ?m = "map ((!) msgs) order" let ?e = "map ((!) fs) order"
    have "list_all2 (carries J) ?m ?e" "\<forall>ch\<in>set ?m. rh_dh_public_key (snd ch) = x25519_base P a"
        "\<forall>e\<in>set ?e. genuine P J (ch_peer_identity chat_b) e"
      using list_all2_nth_map [OF fs(1)] o(2) keys f(2) sent(2) fs(2) by (auto simp: subset_iff)
    note c = this
    have "fst (run_all (chat_decrypt P J) ?e chat_b) = fst (run_all (chat_decrypt P J) ?e (chat_b\<lparr>ch_ratchet := r\<rparr>))"
      using chat_decrypt_all_step [OF r(1) _ dr_dh_ratchet_known [OF r(1) unknown(1)] c] unknown(2) by simp
    also have "\<dots> = map (context_crypto ''ratchet decrypt'') (fst (dr_decrypt_all P J ?m r))"
      using chat_decrypt_all [OF c(1), of P "chat_b\<lparr>ch_ratchet := r\<rparr>" "x25519_base P a"] c(2,3)
        dr_dh_ratchet_known [OF r(1) unknown(1)] by simp
    finally show ?thesis using sent(3) o by (simp add: context_crypto_def)
  qed
  with es(1,3) len show ?thesis by blast
qed

lemma paired_delivers:
  assumes "chat_laws P J" "paired P alice bob a b chat_a chat_b" "ikp_wf alice" "length a = 32"
    and ms: "length ms \<le> MAX_SKIP_MESSAGES + 1" "\<forall>m\<in>set ms. length m < 2 ^ 32"
  shows "\<exists>es chat_a'. run_all (chat_encrypt P J now alice device) ms chat_a = (map Inr es, chat_a') \<and>
    length es = length ms \<and>
    (\<forall>order. distinct order \<and> set order \<subseteq> {..<length ms} \<longrightarrow>
      fst (run_all (chat_decrypt P J) (map ((!) es) order) chat_b) = map (\<lambda>n. Inr (ms ! n)) order)"
proof -
  have l: "linked P a b chat_a chat_b" "ch_peer_identity chat_b = identity_public P alice"
    using assms(2) by (simp_all add: paired_iff_linked)
  obtain es chat_a' where "run_all (chat_encrypt P J now alice device) ms chat_a = (map Inr es, chat_a')" "length es = length ms"
      "\<forall>e\<in>set es. genuine P J (identity_public P alice) e"
      "\<forall>fs order. list_all2 same_content es fs \<and> (\<forall>e\<in>set fs. genuine P J (ch_peer_identity chat_b) e) \<and>
          distinct order \<and> set order \<subseteq> {..<length ms} \<longrightarrow>
        fst (run_all (chat_decrypt P J) (map ((!) fs) order) chat_b) = map (\<lambda>n. Inr (ms ! n)) order"
    using linked_delivers [OF assms(1) l(1) assms(3,4) ms, of now device] by blast
  moreover have "list_all2 same_content es es" by (simp add: list_all2_conv_all_nth same_content_def)
  ultimately show ?thesis using l(2) by metis
qed

text \<open>
  C3. A conversation over the wire: the responder's bundle survives its way as JSON, the
  initiator verifies it and sends a prekey message, the responder accepts that message and answers
  with its ratchet key, and the initiator establishes its session. From then on up to
  \<open>MAX_SKIP_MESSAGES + 1\<close> messages of the initiator are all sealed, signed and put into
  envelopes, and the responder reads any selection of them in any order, each as it was written.
\<close>

theorem chat_delivery:
  assumes "chat_laws P J" "ikp_wf (ih_identity ih)" "ikp_wf bob" "published P k prekey" "kpriv_wf eph" "ph_running h"
    and "pd_classical draws = kpriv_classical eph" "pd_seed draws = Some (kpriv_pq eph)"
    and "length a = 32" "length b = 32"
    and "length ms \<le> MAX_SKIP_MESSAGES + 1" "\<forall>m\<in>set ms. length m < 2 ^ 32"
  shows "\<exists>pkb bs e body ih1 chat_a chat_b ih2 rp2 es chat_a'.
    responder_bundle P (responder_new bob prekey) = Inr pkb \<and>
    to_vec J pre_key_bundle_to_json pkb = Inr bs \<and> from_slice J pre_key_bundle_of_json bs = Inr pkb \<and>
    send_prekey P J now draws pkb (ih, h) = (Inr (), ih1, h\<lparr>ph_queue := ph_queue h @ [SendDirect (ih_peer ih) e]\<rparr>) \<and>
    ne_encrypted_payload e = MARKER_PREKEY # body \<and>
    on_prekey P J b body conv (responder_new bob prekey) = (Inr (x25519_base P b, chat_b), rp2) \<and>
    establish P a (x25519_base P b) ih1 = (Inr chat_a, ih2) \<and>
    run_all (chat_encrypt P J now (ih_identity ih) device) ms chat_a = (map Inr es, chat_a') \<and> length es = length ms \<and>
    (\<forall>order. distinct order \<and> set order \<subseteq> {..<length ms} \<longrightarrow>
      fst (run_all (chat_decrypt P J) (map ((!) es) order) chat_b) = map (\<lambda>n. Inr (ms ! n)) order)"
proof -
  obtain pkb bs e body ih1 chat_a chat_b ih2 rp2 where hs: "responder_bundle P (responder_new bob prekey) = Inr pkb"
    "to_vec J pre_key_bundle_to_json pkb = Inr bs" "from_slice J pre_key_bundle_of_json bs = Inr pkb"
    "send_prekey P J now draws pkb (ih, h) = (Inr (), ih1, h\<lparr>ph_queue := ph_queue h @ [SendDirect (ih_peer ih) e]\<rparr>)"
    "ne_encrypted_payload e = MARKER_PREKEY # body"
    "on_prekey P J b body conv (responder_new bob prekey) = (Inr (x25519_base P b, chat_b), rp2)"
    "establish P a (x25519_base P b) ih1 = (Inr chat_a, ih2)" "paired P (ih_identity ih) bob a b chat_a chat_b"
    using handshake_ok [OF assms(1-8,10), where now = now and conv = conv and a = a] by blast
  obtain es chat_a' where "run_all (chat_encrypt P J now (ih_identity ih) device) ms chat_a = (map Inr es, chat_a')"
    "length es = length ms" "\<forall>order. distinct order \<and> set order \<subseteq> {..<length ms} \<longrightarrow>
      fst (run_all (chat_decrypt P J) (map ((!) es) order) chat_b) = map (\<lambda>n. Inr (ms ! n)) order"
    using paired_delivers [OF assms(1) hs(8) assms(2,9,11,12)] by blast
  with hs(1-7) show ?thesis by (intro exI conjI) assumption+
qed

definition sample_draws :: prekey_draws where
  "sample_draws = \<lparr>pd_classical = kpriv_classical (sample_kem 5), pd_seed = Some (kpriv_pq (sample_kem 5)),
     pd_encaps = (\<lambda>i. [word_of_nat i])\<rparr>"

definition sample_initiator :: initiator_handshake where
  "sample_initiator = initiator_new (sample_identity 1) ''alice'' ''peer-bob''"

lemma sample_published: obtains m where "published sample_prims (sample_kem 3) m"
  using prekey_generate_ok [OF sample_identity_laws(1,2) sample_identity_laws(3) [of 2] sample_identity_laws(4) [of 3]]
    sample_identity_laws(4) [of 3]
  by (auto simp: published_def)

lemma sample_handshake_wf:
  "ikp_wf (ih_identity sample_initiator)" "pd_classical sample_draws = kpriv_classical (sample_kem 5)"
  "pd_seed sample_draws = Some (kpriv_pq (sample_kem 5))"
  by (simp_all add: sample_initiator_def initiator_new_def sample_identity_laws sample_draws_def)

theorem chat_delivery_witness:
  "\<exists>prekey pkb bs e body ih1 chat_a chat_b ih2 rp2 es chat_a'.
    published sample_prims (sample_kem 3) prekey \<and>
    responder_bundle sample_prims (responder_new (sample_identity 2) prekey) = Inr pkb \<and>
    to_vec sample_json pre_key_bundle_to_json pkb = Inr bs \<and>
    send_prekey sample_prims sample_json 5 sample_draws pkb (sample_initiator, \<lparr>ph_running = True, ph_queue = []\<rparr>) =
      (Inr (), ih1, \<lparr>ph_running = True, ph_queue = [SendDirect ''peer-bob'' e]\<rparr>) \<and>
    ne_encrypted_payload e = MARKER_PREKEY # body \<and>
    on_prekey sample_prims sample_json (replicate 32 2) body ''alice'' (responder_new (sample_identity 2) prekey) =
      (Inr (x25519_base sample_prims (replicate 32 2), chat_b), rp2) \<and>
    establish sample_prims (replicate 32 1) (x25519_base sample_prims (replicate 32 2)) ih1 = (Inr chat_a, ih2) \<and>
    run_all (chat_encrypt sample_prims sample_json 5 (sample_identity 1) ''alice'') [[1], [2], [3]] chat_a = (map Inr es, chat_a') \<and>
    fst (run_all (chat_decrypt sample_prims sample_json) (map ((!) es) [2, 0, 1]) chat_b) = [Inr [3], Inr [1], Inr [2]]"
proof -
  obtain prekey where prekey: "published sample_prims (sample_kem 3) prekey" by (rule sample_published)
  let ?ms = "[[1], [2], [3]] :: bytes list"
  have "length ?ms \<le> MAX_SKIP_MESSAGES + 1" "\<forall>m\<in>set ?ms. length m < 2 ^ 32" "length (replicate 32 1 :: bytes) = 32"
    "length (replicate 32 2 :: bytes) = 32" "ph_running \<lparr>ph_running = True, ph_queue = []\<rparr>"
    by (simp_all add: MAX_SKIP_MESSAGES_def)
  note c = chat_delivery [OF sample_chat_laws sample_handshake_wf(1) sample_identity_laws(3) prekey
    sample_identity_laws(4) this(5) sample_handshake_wf(2,3) this(3,4,1,2), of 2 5 "''alice''" "''alice''"]
  have id: "ih_identity sample_initiator = sample_identity 1" "ih_peer sample_initiator = ''peer-bob''"
    by (simp_all add: sample_initiator_def initiator_new_def)
  have "distinct [2, 0, 1 :: nat] \<and> set [2, 0, 1] \<subseteq> {..<length ?ms}" by simp
  moreover have "map (\<lambda>n. Inr (?ms ! n) :: bytes app_result) [2, 0, 1] = [Inr [3], Inr [1], Inr [2]]" by simp
  ultimately show ?thesis using prekey c unfolding id by (simp only: p2p_handle.simps append_Nil) metis
qed

section \<open>The identity in the handshake\<close>





section \<open>Replies\<close>

text \<open>A session that has no receiving chain and takes \<open>k\<close> for the peer's current ratchet key.\<close>

definition deaf :: "bytes \<Rightarrow> double_ratchet \<Rightarrow> bool" where
  "deaf k r \<longleftrightarrow> rc_their_ratchet_public (dr_receiving_chain r) = Some k \<and> rc_chain_key (dr_receiving_chain r) = None \<and>
     rc_skipped_message_keys (dr_receiving_chain r) = []"

lemma chat_encrypt_frame:
  assumes "chat_encrypt P J now identity device m s = (x, s')"
  shows "s' = s\<lparr>ch_ratchet := snd (dr_encrypt P J m (ch_ratchet s))\<rparr>"
  using assms by (auto simp: chat_encrypt_def Let_def split: prod.splits st_splits_asm)

lemma deaf_encrypt_all:
  assumes "deaf k (ch_ratchet s)"
  shows "deaf k (ch_ratchet (snd (run_all (chat_encrypt P J now identity device) ms s))) \<and>
    ch_peer_identity (snd (run_all (chat_encrypt P J now identity device) ms s)) = ch_peer_identity s"
proof -
  let ?I = "\<lambda>s'. deaf k (ch_ratchet s') \<and> ch_peer_identity s' = ch_peer_identity s"
  have "list_all2 (\<lambda>_ _. True) ms (fst (run_all (chat_encrypt P J now identity device) ms s)) \<and>
      ?I (snd (run_all (chat_encrypt P J now identity device) ms s))"
  proof (rule run_all_invariant)
    fix m s1 y s2
    assume "?I s1" and e: "chat_encrypt P J now identity device m s1 = (y, s2)"
    obtain z r where d: "dr_encrypt P J m (ch_ratchet s1) = (z, r)" by (cases "dr_encrypt P J m (ch_ratchet s1)")
    with \<open>?I s1\<close> chat_encrypt_frame [OF e] dr_encrypt_frame(1) [OF d] show "True \<and> ?I s2" by (simp add: deaf_def)
  qed (use assms in simp)
  then show ?thesis by blast
qed

lemma chat_decrypt_inv:
  assumes "ratchet_inv b (ch_ratchet s)" "chat_decrypt P J e s = (x, s')"
  shows "ratchet_inv b (ch_ratchet s')"
proof -
  have step: "ratchet_inv b (snd (dr_dh_ratchet P k (ch_ratchet s)))" for k by (rule dr_dh_ratchet_inv [OF assms(1)])
  have dec: "ratchet_inv b (snd (dr_decrypt P J ct h r))" if "ratchet_inv b r" for ct h r
    using dr_machine.exec_inv [OF that, of P J "OpDecrypt ct h"] by simp
  from assms(2) show ?thesis
    using assms(1) step dec
    by (auto simp: chat_decrypt_def Let_def split: st_splits_asm if_splits prod.splits)
      (metis snd_conv)+
qed

lemma chat_decrypt_all_inv:
  assumes "ratchet_inv b (ch_ratchet s)"
  shows "ratchet_inv b (ch_ratchet (snd (run_all (chat_decrypt P J) es s)))"
  using run_all_invariant [of "\<lambda>s. ratchet_inv b (ch_ratchet s)" s es "chat_decrypt P J" "\<lambda>_ _. True"]
    assms chat_decrypt_inv by blast

lemma paired_start:
  assumes "paired P alice bob a b chat_a chat_b"
  shows "deaf (x25519_base P b) (ch_ratchet chat_a)" "ratchet_inv b (ch_ratchet chat_b)"
proof -
  obtain rk where rk: "dr_init P SESSION_ID rk a (x25519_base P b) [] = Inr (ch_ratchet chat_a)"
      "dr_init_as_responder SESSION_ID rk b [] = Inr (ch_ratchet chat_b)"
    using assms by (auto simp: paired_def)
  have "deaf (x25519_base P b) r" if "dr_init P SESSION_ID rk a (x25519_base P b) [] = Inr r" for r
    using that by (auto simp: dr_init_def deaf_def result_simps Let_def)
  with rk(1) show "deaf (x25519_base P b) (ch_ratchet chat_a)" by blast
  show "ratchet_inv b (ch_ratchet chat_b)"
    using rk(2) by (intro session_start_inv [where P = P]) (auto simp: session_start_def)
qed

lemma deaf_decrypt:
  assumes "deaf k (ch_ratchet s)" "genuine P J (ch_peer_identity s) e" "carries J (ct, h) e" "rh_dh_public_key h = k"
  shows "chat_decrypt P J e s =
    (Inl (AppContext ''ratchet decrypt'' (AppCrypto (RatchetError ''No receiving chain established''))), s)"
proof -
  have "known_ratchet (ch_ratchet s) = Some (rh_dh_public_key h)" using assms by (simp add: deaf_def known_ratchet_def)
  from chat_decrypt_known [OF assms(2,3) this] show ?thesis
    using assms(1) by (simp add: deaf_def dr_decrypt_def context_crypto_def)
qed

text \<open>
  C25. Replies cannot be read: whatever the initiator has sent and the responder has read of
  it, a reply of the responder is refused by the initiator for want of a receiving chain, and the
  session is as before. The initiator was set up with the responder's ratchet key as its
  peer's key, so that the key in the header is not new and no ratchet step is made.
\<close>

theorem replies_unreadable:
  assumes "chat_laws P J" "paired P alice bob a b chat_a chat_b" "ikp_wf bob" "length b = 32"
    and "alice_now = snd (run_all (chat_encrypt P J now alice device) ms chat_a)"
    and "bob_now = snd (run_all (chat_decrypt P J) received chat_b)"
    and reply: "chat_encrypt P J now' bob device' m bob_now = (Inr e, bob_next)"
  shows "chat_decrypt P J e alice_now =
    (Inl (AppContext ''ratchet decrypt'' (AppCrypto (RatchetError ''No receiving chain established''))), alice_now)"
proof -
  note laws = chat_lawsD [OF assms(1)] and start = paired_start [OF assms(2)]
  have a: "deaf (x25519_base P b) (ch_ratchet alice_now)" "ch_peer_identity alice_now = identity_public P bob"
    using deaf_encrypt_all [OF start(1)] assms(2,5) by (simp_all add: paired_def)
  have our: "rc_our_ratchet_key (dr_sending_chain (ch_ratchet bob_now)) = Some b"
    using chat_decrypt_all_inv [OF start(2)] assms(6) by (simp add: ratchet_inv_def)
  obtain ct h r where enc: "dr_encrypt P J m (ch_ratchet bob_now) = (Inr (ct, h), r)"
      "build_signed_envelope P J now' bob device' KIND_DIRECT (bstr (ch_conversation_id bob_now)) ct h = Inr e"
    using reply by (auto simp: chat_encrypt_def context_crypto_def Let_def split: prod.splits st_splits_asm)
  have h: "rh_dh_public_key h = x25519_base P b" using dr_encrypt_header [OF enc(1) our] by simp
  then have "rh_wf h" using length_x25519_base [OF laws(4) assms(4)] by (simp add: rh_wf_def)
  then have "genuine P J (ch_peer_identity alice_now) e" "carries J (ct, h) e"
    using build_signed_envelope_ok [OF laws(1,9) assms(3), of h now' device' KIND_DIRECT
        "bstr (ch_conversation_id bob_now)" ct] enc(2) a(2) by simp_all
  then show ?thesis by (rule deaf_decrypt [OF a(1) _ _ h])
qed

lemma dr_encrypt_first:
  assumes "ratchet_laws P J" "rc_our_ratchet_key (dr_sending_chain r) = Some b"
    and "rc_their_ratchet_public (dr_sending_chain r) = Some k" "rc_chain_key (dr_sending_chain r) = None"
    and "length m < 2 ^ 32"
  shows "\<exists>ct h r'. dr_encrypt P J m r = (Inr (ct, h), r') \<and> rh_dh_public_key h = x25519_base P b"
proof -
  have laws: "hkdf_law P" "hmac_law P" "aead_total P" "json_law J" using assms(1) by (simp_all add: ratchet_laws_def)
  obtain rk c where step: "ratchet_step P (dr_root_key r) (x25519 P b k) = Inr (rk, c)" "ck_index c = 0"
    using ratchet_step_ok [OF laws(1)] by blast
  let ?r = "r\<lparr>dr_root_key := rk, dr_sending_chain := (dr_sending_chain r)\<lparr>rc_chain_key := Some c\<rparr>\<rparr>"
  have e: "ensure_sending_chain P r = (Inr (), ?r)" using assms(2-4) step(1) by (simp add: ensure_sending_chain_def)
  have "fresh_chain P c" using laws(2) step(2) by (simp add: fresh_chain_def)
  moreover have "rc_chain_key (dr_sending_chain ?r) = Some (link P c 0)" by simp
  ultimately obtain ct h r' where "dr_encrypt P J m ?r = (Inr (ct, h), r')"
    using dr_encrypt_link [OF _ laws(3,4) _ _ assms(5), of c ?r 0] by auto
  then have d: "dr_encrypt P J m r = (Inr (ct, h), r')" using dr_encrypt_ensured [OF e] by metis
  with dr_encrypt_header [OF d assms(2)] show ?thesis by blast
qed

lemma reply_exists:
  assumes "chat_laws P J" "paired P alice bob a b chat_a chat_b" "ikp_wf alice" "ikp_wf bob" "length a = 32" "length b = 32"
  shows "\<exists>e0 e bob_next. chat_encrypt P J now' bob device' [2] (snd (run_all (chat_decrypt P J) [e0] chat_b)) = (Inr e, bob_next)"
proof -
  note laws = chat_lawsD [OF assms(1)]
  obtain rk where rk: "dr_init P SESSION_ID rk a (x25519_base P b) [] = Inr (ch_ratchet chat_a)"
      "dr_init_as_responder SESSION_ID rk b [] = Inr (ch_ratchet chat_b)" "ch_peer_identity chat_b = identity_public P alice"
    using assms(2) by (auto simp: paired_def)
  obtain r where r: "dr_dh_ratchet P (x25519_base P a) (ch_ratchet chat_b) = (Inr (), r)"
      "rc_our_ratchet_key (dr_sending_chain r) = Some b"
      "rc_their_ratchet_public (dr_sending_chain r) = Some (x25519_base P a)" "rc_chain_key (dr_sending_chain r) = None"
    by (rule init_shared [OF laws(4,5) rk(1,2)])
  let ?h = "\<lparr>rh_dh_public_key = x25519_base P a, rh_message_number = 0, rh_previous_message_number = 0\<rparr>"
  have "rh_wf ?h" using length_x25519_base [OF laws(4) assms(5)] by (simp add: rh_wf_def)
  then obtain e0 where e0: "genuine P J (ch_peer_identity chat_b) e0" "carries J ([], ?h) e0"
    using build_signed_envelope_ok [OF laws(1,9) assms(3)] rk(3) by metis
  let ?s = "snd (chat_decrypt P J e0 chat_b)"
  have s: "?s = chat_b\<lparr>ch_ratchet := snd (dr_decrypt P J [] ?h r)\<rparr>"
    using e0 r(1) responder_knows_none [OF rk(2)]
    by (simp add: chat_decrypt_def genuine_def carries_def context_crypto_def Let_def split_beta)
  have f: "dr_sending_chain (ch_ratchet ?s) = dr_sending_chain r"
    using dr_decrypt_frame(2) [of P J "[]" ?h r] by (simp add: s prod_eq_iff)
  obtain ct h r' where enc: "dr_encrypt P J [2] (ch_ratchet ?s) = (Inr (ct, h), r')" "rh_dh_public_key h = x25519_base P b"
    using dr_encrypt_first [OF laws(3), of "ch_ratchet ?s" b "x25519_base P a" "[2]"] r f by auto
  then have "rh_wf h" using length_x25519_base [OF laws(4) assms(6)] by (simp add: rh_wf_def)
  then obtain e where "build_signed_envelope P J now' bob device' KIND_DIRECT (bstr (ch_conversation_id ?s)) ct h = Inr e"
    using build_signed_envelope_ok [OF laws(1,9) assms(4)] by metis
  then have "chat_encrypt P J now' bob device' [2] ?s = (Inr e, ?s\<lparr>ch_ratchet := r'\<rparr>)"
    using enc(1) by (simp add: chat_encrypt_def context_crypto_def Let_def)
  moreover have "snd (run_all (chat_decrypt P J) [e0] chat_b) = ?s" by (simp add: split_beta)
  ultimately show ?thesis by metis
qed

lemma sample_paired:
  obtains chat_a chat_b where
    "paired sample_prims (sample_identity 1) (sample_identity 2) (replicate 32 1) (replicate 32 2) chat_a chat_b"
proof -
  obtain prekey where "published sample_prims (sample_kem 3) prekey" by (rule sample_published)
  then show thesis
    using handshake_ok [OF sample_chat_laws sample_handshake_wf(1) sample_identity_laws(3) [of 2] _ sample_identity_laws(4) [of 5] _
        sample_handshake_wf(2,3), of "sample_kem 3" prekey "\<lparr>ph_running = True, ph_queue = []\<rparr>" "replicate 32 2"] that
    by (simp add: sample_initiator_def initiator_new_def) metis
qed

theorem replies_unreadable_witness:
  "\<exists>chat_a chat_b e0 e bob_next.
    paired sample_prims (sample_identity 1) (sample_identity 2) (replicate 32 1) (replicate 32 2) chat_a chat_b \<and>
    chat_encrypt sample_prims sample_json 7 (sample_identity 2) ''bob'' [2]
      (snd (run_all (chat_decrypt sample_prims sample_json) [e0] chat_b)) = (Inr e, bob_next) \<and>
    fst (chat_decrypt sample_prims sample_json e
      (snd (run_all (chat_encrypt sample_prims sample_json 5 (sample_identity 1) ''alice'') [[1]] chat_a))) =
    Inl (AppContext ''ratchet decrypt'' (AppCrypto (RatchetError ''No receiving chain established'')))"
proof -
  obtain chat_a chat_b where p:
    "paired sample_prims (sample_identity 1) (sample_identity 2) (replicate 32 1) (replicate 32 2) chat_a chat_b"
    by (rule sample_paired)
  have len: "length (replicate 32 1 :: bytes) = 32" "length (replicate 32 2 :: bytes) = 32" by simp_all
  obtain e0 e bob_next where r: "chat_encrypt sample_prims sample_json 7 (sample_identity 2) ''bob'' [2]
      (snd (run_all (chat_decrypt sample_prims sample_json) [e0] chat_b)) = (Inr e, bob_next)"
    using reply_exists [OF sample_chat_laws p sample_identity_laws(3,3) len] by blast
  from replies_unreadable [OF sample_chat_laws p sample_identity_laws(3) len(2) refl refl r, of 5 "''alice''" "[[1]]"] p r
  show ?thesis by (metis fst_conv)
qed

section \<open>Persistence\<close>

definition chat_wf :: "chat_session \<Rightarrow> bool" where
  "chat_wf s \<longleftrightarrow> dr_wf (ch_ratchet s) \<and> dr_session_id (ch_ratchet s) = SESSION_ID \<and> dr_associated_data (ch_ratchet s) = [] \<and>
     sk_wf (ch_session_keys s) \<and> sk_peer_identity (ch_session_keys s) = ch_peer_identity s"

text \<open>The ratchet operations leave the session's name and associated data alone.\<close>

lemma ratchet_names:
  "dr_session_id (snd (dr_encrypt P J m r)) = dr_session_id r" "dr_associated_data (snd (dr_encrypt P J m r)) = dr_associated_data r"
  "dr_session_id (snd (dr_decrypt P J ct h r)) = dr_session_id r" "dr_associated_data (snd (dr_decrypt P J ct h r)) = dr_associated_data r"
  "dr_session_id (snd (dr_dh_ratchet P k r)) = dr_session_id r" "dr_associated_data (snd (dr_dh_ratchet P k r)) = dr_associated_data r"
  by (auto simp: dr_encrypt_def ensure_sending_chain_def dr_decrypt_def dr_dh_ratchet_def Let_def
      split: st_splits option.splits prod.splits if_splits)

lemma parse_header_length: "parse_header J bs = Inr h \<Longrightarrow> length (rh_dh_public_key h) = 32"
  by (auto simp: parse_header_def context_json_def rh_wf_def result_simps dest!: rh_strict.from_slice_valid)

datatype chat_op = ChatSend int identity_key_pair string bytes | ChatReceive network_envelope

fun chat_exec :: "prims \<Rightarrow> json_text \<Rightarrow> chat_op \<Rightarrow> chat_session \<Rightarrow> chat_session" where
  "chat_exec P J (ChatSend now identity device m) s = snd (chat_encrypt P J now identity device m s)"
| "chat_exec P J (ChatReceive e) s = snd (chat_decrypt P J e s)"

lemma chat_encrypt_wf:
  assumes "hkdf_law P" "hmac_law P" "chat_wf s"
  shows "chat_wf (snd (chat_encrypt P J now identity device m s))"
proof -
  obtain x s' where e: "chat_encrypt P J now identity device m s = (x, s')"
    by (cases "chat_encrypt P J now identity device m s")
  show ?thesis
    using assms(3) dr_encrypt_wf [OF assms(1,2), of "ch_ratchet s" J m]
    by (simp add: e chat_encrypt_frame [OF e] chat_wf_def ratchet_names)
qed

lemma chat_decrypt_frame:
  assumes "chat_decrypt P J e s = (x, s')"
  obtains "s' = s" | r h where "s' = s\<lparr>ch_ratchet := r\<rparr>" "parse_header J (ne_nonce e) = Inr h"
    "r = snd (dr_dh_ratchet P (rh_dh_public_key h) (ch_ratchet s)) \<or>
     (\<exists>r0. r0 \<in> {ch_ratchet s, snd (dr_dh_ratchet P (rh_dh_public_key h) (ch_ratchet s))} \<and>
       r = snd (dr_decrypt P J (ne_encrypted_payload e) h r0))"
  using assms
  by (auto simp: chat_decrypt_def Let_def split: st_splits_asm if_splits prod.splits) (metis snd_conv)+

lemma chat_decrypt_wf:
  assumes "hkdf_law P" "hmac_law P" "chat_wf s"
  shows "chat_wf (snd (chat_decrypt P J e s))"
proof -
  obtain x s' where d: "chat_decrypt P J e s = (x, s')" by (cases "chat_decrypt P J e s")
  from d show ?thesis
  proof (cases rule: chat_decrypt_frame)
    case 1
    with d assms(3) show ?thesis by simp
  next
    case (2 r h)
    let ?r = "snd (dr_dh_ratchet P (rh_dh_public_key h) (ch_ratchet s))"
    have "dr_wf ?r" using dr_dh_ratchet_wf [OF assms(1) _ parse_header_length [OF 2(2)]] assms(3) by (simp add: chat_wf_def)
    then have "dr_wf r" "dr_session_id r = SESSION_ID" "dr_associated_data r = []"
      using 2(3) assms(3) dr_decrypt_wf [OF assms(2)] by (auto simp: chat_wf_def ratchet_names)
    with d 2(1) assms(3) show ?thesis by (simp add: chat_wf_def)
  qed
qed

interpretation chat_machine: machine "chat_exec P J" "\<lambda>s. hkdf_law P \<and> hmac_law P \<and> chat_wf s" for P J
proof (unfold_locales, goal_cases)
  case (1 s op)
  then show ?case by (cases op) (simp_all add: chat_encrypt_wf chat_decrypt_wf)
qed

text \<open>A session that has just been set up, on either side.\<close>

lemma chat_start_wf:
  assumes "hkdf_law P" "length d = 32" "ipk_wf peer"
    and "session_keys_new P i secret peer = Inr keys" "session_to_ratchet P keys d peer_public = Inr r"
    and "peer_public = None \<or> (\<exists>k. peer_public = Some k \<and> length k = 32)"
  shows "chat_wf \<lparr>ch_conversation_id = conv, ch_peer_identity = peer, ch_is_initiator = i, ch_ratchet = r, ch_session_keys = keys\<rparr>"
proof -
  have keys: "sk_wf keys" "sk_peer_identity keys = peer" "length (sk_root_key keys) = 32"
    using session_keys_new_ok [OF assms(1), of i secret peer] assms(3,4)
    by (auto simp: sk_wf_def session_keys_new_def result_simps)
  have "dr_wf r \<and> dr_session_id r = SESSION_ID \<and> dr_associated_data r = []"
  proof (cases "sk_is_initiator keys")
    case True
    then obtain k where "peer_public = Some k" "length k = 32"
        "dr_init P ''presidium-session'' \<lparr>rk_key = sk_root_key keys\<rparr> d k [] = Inr r"
      using assms(5,6) by (auto simp: session_to_ratchet_def result_simps)
    with dr_init_wf [OF assms(1,2)] show ?thesis
      by (auto simp: dr_init_def SESSION_ID_def result_simps Let_def)
  next
    case False
    then have r: "dr_init_as_responder ''presidium-session'' \<lparr>rk_key = sk_root_key keys\<rparr> d [] = Inr r"
      using assms(5) by (simp add: session_to_ratchet_def)
    have "dr_wf r" using dr_init_as_responder_wf [OF _ assms(2) r] keys(3) by simp
    with r show ?thesis by (auto simp: dr_init_as_responder_def SESSION_ID_def)
  qed
  with keys show ?thesis by (simp add: chat_wf_def)
qed

text \<open>Sessions as the two drivers of the handshake make them.\<close>

definition chat_established :: "prims \<Rightarrow> json_text \<Rightarrow> bytes \<Rightarrow> chat_session \<Rightarrow> bool" where
  "chat_established P J d s \<longleftrightarrow>
     (\<exists>ih ih' pub. establish P d pub ih = (Inr s, ih') \<and> (\<forall>k. ih_peer_identity ih = Some k \<longrightarrow> ipk_wf k)) \<or>
     (\<exists>body conv rp rp' pub. on_prekey P J d body conv rp = (Inr (pub, s), rp'))"

lemma establish_wf:
  assumes "hkdf_law P" "length d = 32" "establish P d pub ih = (Inr s, ih')" "\<forall>k. ih_peer_identity ih = Some k \<longrightarrow> ipk_wf k"
  shows "chat_wf s"
proof -
  obtain out peer keys r where "ih_pending ih = Some out" "ih_peer_identity ih = Some peer" "length pub = 32" "session_keys_new P True (po_shared_secret out) peer = Inr keys"
      "session_to_ratchet P keys d (Some pub) = Inr r"
      "s = \<lparr>ch_conversation_id = ih_device_id ih, ch_peer_identity = peer, ch_is_initiator = True, ch_ratchet = r, ch_session_keys = keys\<rparr>"
    using assms(3,4) by (auto simp: establish_def build_initiator_session_def context_crypto_def result_simps Let_def
        split: st_splits_asm)
  with chat_start_wf [OF assms(1,2)] assms(4) show ?thesis by blast
qed

lemma on_prekey_wf:
  assumes "hkdf_law P" "length d = 32" "on_prekey P J d body conv rp = (Inr (pub, s), rp')"
  shows "chat_wf s"
proof -
  obtain m k out keys r where "from_slice J prekey_message_of_json body = Inr m"
      "prekey_private_key (rp_prekey rp) = Inr k"
      "pqxdh_responder P \<lparr>prk_identity = rp_identity rp, prk_signed_prekey = k,
        prk_signed_prekey_id = pmat_key_id (rp_prekey rp), prk_one_time_prekey = None, prk_one_time_prekey_id = None\<rparr> m = Inr out"
      "session_keys_new P False (po_shared_secret out) (pm_identity_public m) = Inr keys"
      "session_to_ratchet P keys d None = Inr r"
      "s = \<lparr>ch_conversation_id = conv, ch_peer_identity = pm_identity_public m, ch_is_initiator = False, ch_ratchet = r,
        ch_session_keys = keys\<rparr>"
    using assms(3) by (auto simp: on_prekey_def context_crypto_def context_json_def result_simps Let_def split: st_splits_asm)
  moreover from this(1) have "ipk_wf (pm_identity_public m)"
    by (auto simp: pm_wf_def dest: pm_strict.from_slice_valid)
  ultimately show ?thesis using chat_start_wf [OF assms(1,2)] by blast
qed

lemma established_wf: "hkdf_law P \<Longrightarrow> length d = 32 \<Longrightarrow> chat_established P J d s \<Longrightarrow> chat_wf s"
  unfolding chat_established_def using establish_wf on_prekey_wf by blast

lemma resume_persisted:
  assumes "json_law J" "json_nul_free J" "chat_wf s" "cn_faults (ns_db store) = []" "plain (ch_conversation_id s)"
    and "session_key_known (ch_conversation_id s) (cn_tables (ns_db store))"
  shows "\<exists>store1. chat_persist J now s store = (Inr (), store1) \<and>
    resume E J (ch_conversation_id s) store1 = (Inr (Some s), store1)"
proof -
  have r: "to_ratchet (from_ratchet (ch_ratchet s)) SESSION_ID [] = Inr (ch_ratchet s)"
    using to_ratchet_from [of "ch_ratchet s"] assms(3) by (simp add: chat_wf_def)
  have "ss_wf (session_state_of now s)"
    using assms(3) from_ratchet_wf [of "ch_ratchet s"] by (simp add: ss_wf_def session_state_of_def chat_wf_def)
  then obtain c where c: "save_session J (ch_conversation_id s) (session_state_of now s) (ns_db store) = (Inr (), c)"
      "load_session E J (ch_conversation_id s) c = (Inr (Some (session_state_of now s)), c)"
    using session_save_load [OF assms(1,2) _ assms(4,5,5,6)] by blast
  let ?store = "store\<lparr>ns_db := c\<rparr>"
  have "chat_persist J now s store = (Inr (), ?store)"
    using c(1) by (simp add: chat_persist_def store_save_session_def on_db_def context_storage_def)
  moreover have "resume E J (ch_conversation_id s) ?store = (Inr (Some s), ?store)"
    using c(2) r assms(3)
    by (simp add: resume_def store_load_session_def on_db_def context_storage_def rebuild_ratchet_def session_state_of_def
        chat_wf_def)
  ultimately show ?thesis by blast
qed

text \<open>
  C13. A session survives a restart: a session that the handshake set up on either side, after
  any messages sent and any envelopes received (genuine, forged or broken), is written to the
  database without error, and what is resumed from there is the same session, with its
  chains, counters and stored keys.
\<close>

theorem session_survives_restart:
  assumes "json_law J" "json_nul_free J" "hkdf_law P" "hmac_law P" "length d = 32" "chat_established P J d s0"
    and "s = fold (chat_exec P J) ops s0"
    and "cn_faults (ns_db store) = []" "plain (ch_conversation_id s)"
      "session_key_known (ch_conversation_id s) (cn_tables (ns_db store))"
  shows "\<exists>store1. chat_persist J now s store = (Inr (), store1) \<and>
    resume E J (ch_conversation_id s) store1 = (Inr (Some s), store1)"
proof -
  have "chat_wf s"
    using chat_machine.run_inv [of P s0 J ops] established_wf [OF assms(3,5,6)] assms(3,4,7) by simp
  then show ?thesis by (rule resume_persisted [OF assms(1,2) _ assms(8-10)])
qed

lemma chat_exec_conversation: "ch_conversation_id (chat_exec P J op s) = ch_conversation_id s"
proof (cases op)
  case (ChatSend now identity device m)
  obtain x s' where e: "chat_encrypt P J now identity device m s = (x, s')"
    by (cases "chat_encrypt P J now identity device m s")
  show ?thesis by (simp add: ChatSend e chat_encrypt_frame [OF e])
next
  case (ChatReceive e)
  obtain x s' where d: "chat_decrypt P J e s = (x, s')" by (cases "chat_decrypt P J e s")
  from d show ?thesis by (cases rule: chat_decrypt_frame) (simp_all add: ChatReceive d)
qed

lemma chat_run_conversation: "ch_conversation_id (fold (chat_exec P J) ops s) = ch_conversation_id s"
  by (induction ops arbitrary: s) (simp_all add: chat_exec_conversation del: chat_exec.simps)

definition sample_store :: node_store where
  "sample_store = \<lparr>ns_db = sample_chat_db, ns_fs = \<lparr>fs_directory = True, fs_files = Map.empty, fs_readable = (\<lambda>_. True), fs_writes = (\<lambda>_. Written)\<rparr>,
     ns_identity = sample_identity 2, ns_device_id = ''dev-bob''\<rparr>"

lemma sample_store_ready:
  "cn_faults (ns_db sample_store) = []" "plain ''dev-b''" "session_key_known ''dev-b'' (cn_tables (ns_db sample_store))"
  by (simp_all add: sample_store_def sample_chat_db_def sample_db_def plain_def NUL_def session_key_known_def)

definition sample_garbage :: network_envelope where
  "sample_garbage = \<lparr>ne_kind = 1, ne_conversation_id = [], ne_sender_device_id = [], ne_timestamp = 0,
     ne_encrypted_payload = [9], ne_mac = [], ne_protocol_version = 1, ne_nonce = [], ne_signature = []\<rparr>"

theorem session_survives_restart_witness:
  "\<exists>s0 store1. chat_established sample_prims sample_json (replicate 32 2) s0 \<and>
    chat_persist sample_json 5 (fold (chat_exec sample_prims sample_json)
      [ChatReceive sample_garbage, ChatSend 3 (sample_identity 2) ''dev-bob'' [1]] s0) sample_store = (Inr (), store1) \<and>
    resume sample_engine sample_json ''dev-b'' store1 = (Inr (Some (fold (chat_exec sample_prims sample_json)
      [ChatReceive sample_garbage, ChatSend 3 (sample_identity 2) ''dev-bob'' [1]] s0)), store1)"
proof -
  obtain prekey where p: "published sample_prims (sample_kem 3) prekey" by (rule sample_published)
  obtain body chat_b rp2 where b: "on_prekey sample_prims sample_json (replicate 32 2) body ''dev-b''
      (responder_new (sample_identity 2) prekey) = (Inr (x25519_base sample_prims (replicate 32 2), chat_b), rp2)"
    using handshake_ok [OF sample_chat_laws sample_handshake_wf(1) sample_identity_laws(3) [of 2] p sample_identity_laws(4) [of 5] _
        sample_handshake_wf(2,3), where h = "\<lparr>ph_running = True, ph_queue = []\<rparr>" and b = "replicate 32 2"
          and now = 5 and conv = "''dev-b''" and a = "replicate 32 1"] by auto
  then have est: "chat_established sample_prims sample_json (replicate 32 2) chat_b" by (auto simp: chat_established_def)
  let ?ops = "[ChatReceive sample_garbage, ChatSend 3 (sample_identity 2) ''dev-bob'' [1]]"
  let ?s = "fold (chat_exec sample_prims sample_json) ?ops chat_b"
  have "ch_conversation_id chat_b = ''dev-b''" using b by (auto simp: on_prekey_def Let_def split: st_splits_asm)
  then have conv: "ch_conversation_id ?s = ''dev-b''" by (simp only: chat_run_conversation)
  have "length (replicate 32 2 :: bytes) = 32" by simp
  from session_survives_restart [OF sample_json_law sample_json_nul_free sample_hkdf sample_hmac this est refl,
      where store = sample_store and ops = ?ops and now = 5 and E = sample_engine, unfolded conv, OF sample_store_ready] est
  show ?thesis by (elim exE conjE) (intro exI conjI)
qed

end
