(* ===== verification/App_Properties.thy ===== *)
theory App_Properties
  imports Conversation
begin

text \<open>
  Groups from the distribution of a sender key on, and the application loop: which messages are
  acted upon without a check of their signature, and which end the loop.
\<close>

section \<open>Groups\<close>

text \<open>A reader in step with the sender of a group.\<close>

definition group_in_step :: "prims \<Rightarrow> identity_key_pair \<Rightarrow> group_chat \<Rightarrow> group_chat \<Rightarrow> bool" where
  "group_in_step P sender ga gb \<longleftrightarrow> gc_group_id gb = gc_group_id ga \<and>
     gc_peer_identity gb = Some (identity_public P sender) \<and>
     (case (gc_sender ga, gc_receiver gb) of (Some s, Some r) \<Rightarrow> in_step s r | _ \<Rightarrow> False)"

lemma group_step:
  assumes "chat_laws P J" "ikp_wf sender" "group_in_step P sender ga gb"
    and "gc_sender ga = Some s" "unat (snd_message_index s) + 1 < 2 ^ 64" "length m < 2 ^ 32"
  shows "\<exists>e ga1 gb1 s1. group_envelope P J now sender device m ga = (Inr e, ga1) \<and>
    group_decrypt P J e gb = (Inr m, gb1) \<and> group_in_step P sender ga1 gb1 \<and>
    gc_sender ga1 = Some s1 \<and> unat (snd_message_index s1) = unat (snd_message_index s) + 1"
proof -
  note laws = chat_lawsD [OF assms(1)]
  obtain r where r: "gc_receiver gb = Some r" "in_step s r" "gc_group_id gb = gc_group_id ga"
      "gc_peer_identity gb = Some (identity_public P sender)"
    using assms(3,4) by (auto simp: group_in_step_def split: option.splits)
  obtain k ct s1 where step: "sender_message_key P s = Inr k" "sender_next P s = Inr s1"
      "sender_encrypt P m (gc_group_id ga) s = (Inr ct, s1)"
      "chacha_seal P k (counter_nonce_le (snd_message_index s)) (gc_group_id ga) m = Some ct"
    using sender_encrypt_ok [OF laws(6,8) assms(5,6)] by blast
  obtain r1 where r1: "sender_receive P (gc_group_id ga) (ct, snd_message_index s) r = (Inr m, r1)" "in_step s1 r1"
    using sender_receive_ok [OF laws(7) r(2) step(1,2,4)] by blast
  have idx: "unat (snd_message_index s1) = unat (snd_message_index s) + 1"
    using sender_chain.advance_counter [OF step(2)] assms(5) by simp
  then have "snd_message_index s1 = snd_message_index s + 1"
    using assms(5) by (simp add: word_unat_eq_iff unat_word_ariths)
  then have prev: "snd_message_index s1 - 1 = snd_message_index s" by simp
  let ?msg = "\<lparr>skm_group_id = gc_group_id ga, skm_sender_identity = \<lparr>idk_public = ipk_classical (identity_public P sender)\<rparr>,
    skm_message_index = snd_message_index s, skm_ciphertext = ct\<rparr>"
  obtain bs where bs: "to_vec J sender_key_message_to_json ?msg = Inr bs" "from_slice J sender_key_message_of_json bs = Inr ?msg"
    using skm_json.wire_roundtrip [OF laws(9)] by blast
  obtain e where e: "build_raw_envelope P J now sender device KIND_GROUP (bstr (gc_conversation_id ga)) ct bs = Inr e"
      "genuine P J (identity_public P sender) e" "ne_encrypted_payload e = ct" "ne_nonce e = bs"
    using build_raw_envelope_ok [OF laws(1,9) assms(2)] by metis
  have "group_envelope P J now sender device m ga = (Inr e, ga\<lparr>gc_sender := Some s1\<rparr>)"
    using assms(4) step(3) prev bs(1) e(1) by (simp add: group_envelope_def)
  moreover have "group_decrypt P J e gb = (Inr m, gb\<lparr>gc_receiver := Some r1\<rparr>)"
    using r e bs(2) r1(1) by (simp add: group_decrypt_def genuine_def context_json_def)
  moreover have "group_in_step P sender (ga\<lparr>gc_sender := Some s1\<rparr>) (gb\<lparr>gc_receiver := Some r1\<rparr>)"
    using r r1(2) by (simp add: group_in_step_def)
  ultimately show ?thesis using idx by (intro exI conjI) (assumption | simp)+
qed

lemma group_stream:
  assumes "chat_laws P J" "ikp_wf sender"
  shows "group_in_step P sender ga gb \<Longrightarrow> gc_sender ga = Some s \<Longrightarrow> unat (snd_message_index s) + length ms < 2 ^ 64 \<Longrightarrow>
    \<forall>m\<in>set ms. length m < 2 ^ 32 \<Longrightarrow>
    \<exists>es ga1 gb1. run_all (group_envelope P J now sender device) ms ga = (map Inr es, ga1) \<and>
      run_all (group_decrypt P J) es gb = (map Inr ms, gb1) \<and> group_in_step P sender ga1 gb1"
proof (induction ms arbitrary: ga gb s)
  case Nil
  then show ?case by (intro exI [of _ "[]"]) simp
next
  case (Cons m ms)
  obtain e ga1 gb1 s1 where step: "group_envelope P J now sender device m ga = (Inr e, ga1)"
      "group_decrypt P J e gb = (Inr m, gb1)" "group_in_step P sender ga1 gb1" "gc_sender ga1 = Some s1"
      "unat (snd_message_index s1) = unat (snd_message_index s) + 1"
    using group_step [OF assms Cons.prems(1,2), where m = m and now = now and device = device] Cons.prems(3,4) by auto
  obtain es ga2 gb2 where "run_all (group_envelope P J now sender device) ms ga1 = (map Inr es, ga2)"
      "run_all (group_decrypt P J) es gb1 = (map Inr ms, gb2)" "group_in_step P sender ga2 gb2"
    using Cons.IH [OF step(3,4)] Cons.prems(3,4) step(5) by auto
  with step(1,2) show ?case by (intro exI [of _ "e # es"] exI [of _ ga2] exI [of _ gb2]) simp
qed

text \<open>
  C12. Group delivery: a sender key made by one member travels as JSON to another, who takes it
  as the key of the peer it has a session with. Everything the first member publishes from then on, in the
  order it was published, is accepted by the other and read as it was written.
\<close>

theorem group_delivery:
  assumes "chat_laws P J" "ikp_wf sender" "length draw = 32" "gc_group_id gb = gc_group_id ga"
    and "length ms < 2 ^ 64" "\<forall>m\<in>set ms. length m < 2 ^ 32"
  shows "\<exists>d ga1 bs es ga2 gb2. create_sender P draw sender ga = (Inr d, ga1) \<and>
    to_vec J distribution_to_json d = Inr bs \<and> from_slice J distribution_of_json bs = Inr d \<and>
    run_all (group_envelope P J now sender device) ms ga1 = (map Inr es, ga2) \<and>
    run_all (group_decrypt P J) es (apply_group_key d (identity_public P sender) gb) = (map Inr ms, gb2)"
proof -
  let ?s = "\<lparr>snd_chain_key = draw, snd_group_id = gc_group_id ga,
    snd_sender_identity = \<lparr>idk_public = ipk_classical (identity_public P sender)\<rparr>, snd_message_index = 0, snd_key_id = 1\<rparr>"
  let ?d = "\<lparr>gd_chain_key = draw, gd_key_id = 1, gd_message_index = 0\<rparr>"
  let ?ga = "ga\<lparr>gc_sender := Some ?s\<rparr>"
  have c: "create_sender P draw sender ga = (Inr ?d, ?ga)" by (simp add: create_sender_def sender_keys_new_def)
  have "gd_wf ?d" using assms(3) by (simp add: gd_wf_def)
  then obtain bs where bs: "to_vec J distribution_to_json ?d = Inr bs" "from_slice J distribution_of_json bs = Inr ?d"
    using gd_json.wire_roundtrip [OF chat_lawsD(9) [OF assms(1)]] by blast
  have step: "group_in_step P sender ?ga (apply_group_key ?d (identity_public P sender) gb)"
    using assms(4) by (simp add: group_in_step_def apply_group_key_def in_step_def)
  obtain es ga2 gb2 where es: "run_all (group_envelope P J now sender device) ms ?ga = (map Inr es, ga2)"
      "run_all (group_decrypt P J) es (apply_group_key ?d (identity_public P sender) gb) = (map Inr ms, gb2)"
    using group_stream [OF assms(1,2) step, of ?s ms now device] assms(5,6) by auto
  show ?thesis by (intro exI conjI) (rule c bs es)+
qed

theorem group_delivery_witness:
  "\<exists>ga gb d ga1 es ga2 gb2. group_new sample_hex = Inr ga \<and> group_new sample_hex = Inr gb \<and>
    create_sender sample_prims (replicate 32 6) (sample_identity 1) ga = (Inr d, ga1) \<and>
    run_all (group_envelope sample_prims sample_json 5 (sample_identity 1) ''alice'') [[1], [2, 3]] ga1 = (map Inr es, ga2) \<and>
    run_all (group_decrypt sample_prims sample_json) es
      (apply_group_key d (identity_public sample_prims (sample_identity 1)) gb) = (map Inr [[1], [2, 3]], gb2)"
proof -
  obtain g where g: "group_new sample_hex = Inr g"
    by (auto simp: group_new_def group_topic_def topic_for_def DEMO_GROUP_def bstr_def)
  let ?ms = "[[1], [2, 3]] :: bytes list"
  have "length (replicate 32 6 :: bytes) = 32" "length ?ms < 2 ^ 64" "\<forall>m\<in>set ?ms. length m < 2 ^ 32" by simp_all
  from group_delivery [OF sample_chat_laws sample_identity_laws(3) this(1) refl this(2,3),
      where ga = g and now = 5 and device = "''alice''"] g
  show ?thesis by blast
qed

section \<open>The application\<close>

text \<open>
  C27. Handshake messages are not authenticated: when the first byte of the payload is one of the five
  markers, what the application does depends on the payload, the sender's device id and the
  connection it came from only. Neither the kind of the envelope, nor its signature, header, mac,
  conversation or time change anything, so that any peer may send them.
\<close>

theorem sync_unauthenticated:
  assumes "ne_encrypted_payload e = marker # body"
    and "marker \<in> {MARKER_BUNDLE_REQ, MARKER_BUNDLE, MARKER_PREKEY, MARKER_RATCHET_PUB, MARKER_GROUP_KEY}"
  shows "handle_direct w peer (e\<lparr>ne_kind := kind, ne_conversation_id := conversation, ne_timestamp := time, ne_mac := mac,
      ne_protocol_version := version, ne_nonce := nonce, ne_signature := signature\<rparr>) a = handle_direct w peer e a"
  using assms by (auto simp: handle_direct_def on_prekey_message_def Let_def)

theorem sync_unauthenticated_witness:
  "\<forall>w peer a. handle_direct w peer (sample_garbage\<lparr>ne_encrypted_payload := [MARKER_GROUP_KEY, 5], ne_kind := KIND_DIRECT,
      ne_conversation_id := [], ne_timestamp := 9, ne_mac := [], ne_protocol_version := 7, ne_nonce := [1], ne_signature := [2]\<rparr>) a =
    handle_direct w peer (sample_garbage\<lparr>ne_encrypted_payload := [MARKER_GROUP_KEY, 5]\<rparr>) a"
  by (intro allI sync_unauthenticated [where marker = MARKER_GROUP_KEY and body = "[5]"]) (simp_all add: sample_garbage_def)

lemma handle_direct_refused:
  assumes "app_session a = Some s" "\<forall>marker body. ne_encrypted_payload e = marker # body \<longrightarrow> marker > MARKER_GROUP_KEY"
    and "fst (chat_decrypt (w_prims w) (w_json w) e s) = Inl error"
  shows "\<exists>error a'. handle_direct w peer e a = (Inl error, a')"
proof -
  let ?a = "if app_peer a = None then a\<lparr>app_peer := Some peer\<rparr> else a"
  have "app_session ?a = Some s" using assms(1) by simp
  moreover have "handle_direct w peer e a = on_chat_message w peer e ?a"
    using assms(2) by (cases "ne_encrypted_payload e") (auto simp: handle_direct_def marker_defs)
  ultimately show ?thesis
    using assms(3) by (auto simp: on_chat_message_def ensure_session_def with_store_def split_beta split: st_splits)
qed

text \<open>
  C26. One message ends the application. A request for a bundle that reaches an initiator, a
  ratchet key that reaches a responder, or a chat message that the session refuses, from
  whatever peer, makes the loop return an error; nothing that is still waiting is handled.
\<close>

theorem direct_message_ends_app:
  assumes "app_responder a = None \<and> ne_encrypted_payload e = MARKER_BUNDLE_REQ # body \<or>
    app_initiator a = None \<and> ne_encrypted_payload e = MARKER_RATCHET_PUB # body \<or>
    app_session a = Some s \<and> ne_encrypted_payload e = first # body \<and> first > MARKER_GROUP_KEY \<and>
      fst (chat_decrypt (w_prims w) (w_json w) e s) = Inl error"
  shows "\<exists>error a'. run_loop ((w, NodeEvent (DirectMessage peer e)) # rest) hs a = (Some (Inl error), a')"
proof -
  have "\<exists>error a'. handle_direct w peer e a = (Inl error, a')"
    using assms
  proof (elim disjE conjE, goal_cases)
    case 3
    then show ?case by (intro handle_direct_refused) auto
  qed (auto simp: handle_direct_def on_bundle_request_def on_ratchet_public_def marker_defs Let_def)
  then show ?thesis by auto
qed

definition sample_app :: app where
  "sample_app = \<lparr>app_store = sample_store, app_node = \<lparr>ph_running = True, ph_queue = []\<rparr>,
     app_initiator = Some sample_initiator, app_responder = None, app_session = None,
     app_group = \<lparr>gc_topic = [], gc_group_id = [], gc_conversation_id = [], gc_sender = None, gc_receiver = None,
       gc_peer_identity = None\<rparr>, app_peer = None, app_last_outgoing = None, app_output = []\<rparr>"

theorem direct_message_ends_app_witness:
  "\<forall>w. \<exists>error a'. run_loop ((w, NodeEvent (DirectMessage ''mallory'' (sample_garbage\<lparr>ne_encrypted_payload := [0]\<rparr>)))
    # [(w, Line ''hello'')]) False sample_app = (Some (Inl error), a')"
  using direct_message_ends_app [of sample_app "sample_garbage\<lparr>ne_encrypted_payload := [0]\<rparr>" "[]"]
  by (simp add: sample_app_def sample_garbage_def marker_defs)

end
