(* ===== verification/Exchange.thy ===== *)
theory Exchange
  imports App_Properties
begin

text \<open>
  Two applications that talk to each other: the lines that are typed at an initiator
  with an established session, as envelopes in the queue of its node, and what the
  responder's application does with these envelopes. The sender and the receiver are followed
  separately along the chain that their sessions share.
\<close>

section \<open>Text of JSON\<close>

text \<open>\<open>serde_json\<close> writes UTF-8.\<close>

definition json_utf8 :: "json_text \<Rightarrow> bool" where
  "json_utf8 J \<longleftrightarrow> (\<forall>j bs. json_to_vec J j = Inr bs \<longrightarrow> utf8 bs)"

lemma sample_json_utf8: "json_utf8 sample_json"
proof -
  have "unat (word_of_nat (unat b div 16 + 1) :: byte) < 128 \<and> unat (word_of_nat (unat b mod 16 + 1) :: byte) < 128" for b :: byte
  proof -
    have "unat b div 16 < 16" "unat b mod 16 < 16" using unat_byte_lt [of b] by (simp_all add: less_mult_imp_div_less)
    then show ?thesis by (simp add: unat_of_nat del: of_nat_add of_nat_Suc)
  qed
  then have "\<forall>x\<in>set (concat (map digits bs)). unat x < 128" for bs by (auto simp: digits_def)
  then show ?thesis by (auto simp: json_utf8_def sample_json_def intro!: utf8_ascii)
qed

lemma json_text_plain:
  assumes "json_nul_free J" "json_utf8 J" "to_vec J f x = Inr bs"
  shows "from_utf8 bs = Inr (string_of_bytes bs)" "plain (string_of_bytes bs)"
  using assms by (auto simp: from_utf8_def json_utf8_def json_nul_free_def to_vec_def plain_def NUL_def string_of_bytes_NUL)

section \<open>The store of a conversation\<close>

definition store_open :: "string \<Rightarrow> node_store \<Rightarrow> bool" where
  "store_open cid store \<longleftrightarrow> cn_faults (ns_db store) = [] \<and> cid \<in> fst ` set (t_conversations (cn_tables (ns_db store)))"

text \<open>There is room for messages with these ids, one after the other.\<close>

definition room_for :: "string \<Rightarrow> bytes list \<Rightarrow> node_store \<Rightarrow> bool" where
  "room_for cid uids store \<longleftrightarrow>
     (let t = cn_tables (ns_db store) in t_message_seq t + int (length uids) \<le> MAX_ROWID \<and> distinct uids \<and>
        (\<forall>uid\<in>set uids. \<not> list_ex (\<lambda>e. column (snd e) 1 = PText cid \<and> column (snd e) 2 = PBlob uid) (t_messages t)))"

text \<open>The session of a conversation as the database has it.\<close>

definition saved :: "json_text \<Rightarrow> string \<Rightarrow> chat_session \<Rightarrow> node_store \<Rightarrow> bool" where
  "saved J cid s store \<longleftrightarrow> cn_faults (ns_db store) = [] \<and> ch_conversation_id s = cid \<and> chat_wf s \<and>
     (\<exists>row now. map_of (t_sessions (cn_tables (ns_db store))) cid = Some row \<and>
        (\<forall>E. session_of_cols E J (drop 1 row) = Inr (Some (session_state_of now s))))"

lemma saved_frame:
  assumes "saved J cid s store" "cn_faults (ns_db store') = []"
    and "t_sessions (cn_tables (ns_db store')) = t_sessions (cn_tables (ns_db store))"
  shows "saved J cid s store'"
  using assms by (simp add: saved_def)

lemma saved_resume:
  assumes "saved J cid s store" "plain cid"
  shows "resume E J cid store = (Inr (Some s), store)"
proof -
  obtain row now where row: "cn_faults (ns_db store) = []" "ch_conversation_id s = cid" "chat_wf s"
      "map_of (t_sessions (cn_tables (ns_db store))) cid = Some row"
      "session_of_cols E J (drop 1 row) = Inr (Some (session_state_of now s))"
    using assms(1) by (auto simp: saved_def)
  have "to_ratchet (from_ratchet (ch_ratchet s)) SESSION_ID [] = Inr (ch_ratchet s)"
    using to_ratchet_from [of "ch_ratchet s"] row(3) by (simp add: chat_wf_def)
  moreover have "load_session E J cid (ns_db store) = (Inr (Some (session_state_of now s)), ns_db store)"
    using row(4,5) by (simp add: load_session_quiet [OF row(1) assms(2)])
  ultimately show ?thesis
    using row(2,3) by (simp add: resume_def store_load_session_def on_db_def context_storage_def rebuild_ratchet_def
        session_state_of_def chat_wf_def)
qed

lemma store_insert_ok:
  assumes "store_open cid store" "room_for cid (uid # uids) store" "plain cid" "plain header"
  shows "\<exists>rid c. store_insert_message now cid uid sender ct header dir store = (Inr rid, store\<lparr>ns_db := c\<rparr>) \<and>
    store_open cid (store\<lparr>ns_db := c\<rparr>) \<and> room_for cid uids (store\<lparr>ns_db := c\<rparr>) \<and>
    t_sessions (cn_tables c) = t_sessions (cn_tables (ns_db store))"
proof -
  let ?r = "\<lparr>mr_id = 0, mr_conversation_id = cid, mr_message_id = uid, mr_sender_classical = ipk_classical sender,
    mr_ciphertext = ct, mr_header = header, mr_content_type = 0, mr_direction = dir,
    mr_status = (if dir = Incoming then Delivered else Sent), mr_created_at = now\<rparr>"
  let ?c = "ns_db store" let ?t = "cn_tables (ns_db store)"
  let ?rid = "t_message_seq ?t + 1"
  let ?t' = "?t\<lparr>t_messages := t_messages ?t @ [(?rid, PI64 ?rid # message_params ?r)], t_message_seq := ?rid, t_last_rowid := ?rid\<rparr>"
  have "stmt_insert_message (message_params ?r) ?t = ([], 1, ?t')"
    using assms(1,2) by (simp add: message_params_def store_open_def room_for_def Let_def)
  moreover have "bind_all (message_params ?r) = Inr ()" using assms(3,4) by (simp add: message_params_def plain_def)
  ultimately have "run_db stmt_insert_message (message_params ?r) ?c = (Inr (), ?c\<lparr>cn_tables := ?t'\<rparr>)"
    using assms(1) by (intro run_db_quiet) (simp_all add: store_open_def)
  then have "store_insert_message now cid uid sender ct header dir store = (Inr ?rid, store\<lparr>ns_db := ?c\<lparr>cn_tables := ?t'\<rparr>\<rparr>)"
    by (simp add: store_insert_message_def on_db_def insert_message_def context_storage_def)
  moreover have "store_open cid (store\<lparr>ns_db := ?c\<lparr>cn_tables := ?t'\<rparr>\<rparr>)" using assms(1) by (simp add: store_open_def)
  moreover have "room_for cid uids (store\<lparr>ns_db := ?c\<lparr>cn_tables := ?t'\<rparr>\<rparr>)"
    using assms(2) by (auto simp: room_for_def message_params_def Let_def column_def)
  moreover have "t_sessions (cn_tables (?c\<lparr>cn_tables := ?t'\<rparr>)) = t_sessions ?t" by simp
  ultimately show ?thesis by blast
qed

lemma store_upsert_ok:
  assumes "cn_faults (ns_db store) = []" "plain cid" "room_for cid uids store"
  shows "\<exists>c. store_upsert_conversation now cid peer g store = (Inr (), store\<lparr>ns_db := c\<rparr>) \<and>
    store_open cid (store\<lparr>ns_db := c\<rparr>) \<and> room_for cid uids (store\<lparr>ns_db := c\<rparr>)"
proof -
  let ?r = "\<lparr>cv_id = cid, cv_peer_classical = ipk_classical peer, cv_peer_pq = ipk_pq peer, cv_is_group = g, cv_created_at = now\<rparr>"
  let ?c = "ns_db store" let ?t = "cn_tables (ns_db store)"
  obtain t' where t': "stmt_upsert_conversation (conversation_params ?r) ?t = ([], 1, t')"
      "cid \<in> fst ` set (t_conversations t')" "t_messages t' = t_messages ?t" "t_message_seq t' = t_message_seq ?t"
    by (simp add: conversation_params_def keys_upsert)
  have "bind_all (conversation_params ?r) = Inr ()" using assms(2) by (simp add: conversation_params_def plain_def)
  with t'(1) have "run_db stmt_upsert_conversation (conversation_params ?r) ?c = (Inr (), ?c\<lparr>cn_tables := t'\<rparr>)"
    using assms(1) by (intro run_db_quiet) simp_all
  then have "store_upsert_conversation now cid peer g store = (Inr (), store\<lparr>ns_db := ?c\<lparr>cn_tables := t'\<rparr>\<rparr>)"
    by (simp add: store_upsert_conversation_def on_db_def upsert_conversation_def context_storage_def)
  with t' assms show ?thesis
    by (intro exI [of _ "?c\<lparr>cn_tables := t'\<rparr>"]) (simp add: store_open_def room_for_def Let_def)
qed

lemma persist_ok:
  assumes "json_law J" "json_nul_free J" "chat_wf s" "store_open cid store" "ch_conversation_id s = cid" "plain cid"
    and "room_for cid uids store"
  shows "\<exists>c. chat_persist J now s store = (Inr (), store\<lparr>ns_db := c\<rparr>) \<and>
    store_open cid (store\<lparr>ns_db := c\<rparr>) \<and> room_for cid uids (store\<lparr>ns_db := c\<rparr>) \<and> saved J cid s (store\<lparr>ns_db := c\<rparr>)"
proof -
  let ?c = "ns_db store" let ?t = "cn_tables (ns_db store)"
  have "ss_wf (session_state_of now s)"
    using assms(3) from_ratchet_wf [of "ch_ratchet s"] by (simp add: ss_wf_def session_state_of_def chat_wf_def)
  then obtain cols where cols: "save_session J cid (session_state_of now s) = run_db stmt_save_session (PText cid # cols)"
      "bind_all (PText cid # cols) = Inr ()" "\<forall>E. session_of_cols E J cols = Inr (Some (session_state_of now s))"
    using save_session_cols [OF assms(1,2) _ assms(6)] by blast
  let ?t' = "?t\<lparr>t_sessions := tbl_upsert cid (PText cid # cols) (\<lambda>_. PText cid # cols) (t_sessions ?t)\<rparr>"
  have "save_session J cid (session_state_of now s) ?c = (Inr (), ?c\<lparr>cn_tables := ?t'\<rparr>)"
    unfolding cols(1) using assms(4) by (intro run_db_quiet [OF _ cols(2)]) (simp_all add: store_open_def)
  then have "chat_persist J now s store = (Inr (), store\<lparr>ns_db := ?c\<lparr>cn_tables := ?t'\<rparr>\<rparr>)"
    using assms(5) by (simp add: chat_persist_def store_save_session_def on_db_def context_storage_def)
  moreover have "saved J cid s (store\<lparr>ns_db := ?c\<lparr>cn_tables := ?t'\<rparr>\<rparr>)"
    using assms(3-5) cols(3) by (auto simp: saved_def store_open_def overwritten.lookup_put)
  ultimately show ?thesis using assms(4,7)
    by (intro exI [of _ "?c\<lparr>cn_tables := ?t'\<rparr>"]) (simp add: store_open_def room_for_def Let_def)
qed

section \<open>The sender\<close>

text \<open>An application whose session sends at position \<open>n\<close> of the chain \<open>c\<close>, under its ratchet key \<open>k\<close>.\<close>

definition sends_at ::
    "prims \<Rightarrow> identity_key_pair \<Rightarrow> bytes \<Rightarrow> string \<Rightarrow> peer_id \<Rightarrow> chain_key \<Rightarrow> nat \<Rightarrow> app \<Rightarrow> bool"
where
  "sends_at P alice k cid peer c n a \<longleftrightarrow>
     (\<exists>s. app_session a = Some s \<and> ch_conversation_id s = cid \<and> chat_wf s \<and>
        rc_our_ratchet_key (dr_sending_chain (ch_ratchet s)) = Some k \<and>
        rc_chain_key (dr_sending_chain (ch_ratchet s)) = Some (link P c n)) \<and>
     app_peer a = Some peer \<and> ph_running (app_node a) \<and> ns_identity (app_store a) = alice \<and>
     ns_device_id (app_store a) = cid \<and> store_open cid (app_store a)"

text \<open>The session in memory is also the one in the database.\<close>

definition persisted :: "json_text \<Rightarrow> string \<Rightarrow> app \<Rightarrow> bool" where
  "persisted J cid a \<longleftrightarrow> (\<exists>s. app_session a = Some s \<and> saved J cid s (app_store a))"

text \<open>The envelope of a message at that position.\<close>

definition chat_envelope ::
    "prims \<Rightarrow> json_text \<Rightarrow> identity_key_pair \<Rightarrow> bytes \<Rightarrow> string \<Rightarrow> chain_key \<Rightarrow> nat \<Rightarrow> int \<Rightarrow> bytes \<Rightarrow> network_envelope \<Rightarrow> bool"
where
  "chat_envelope P J alice k cid c n now m e \<longleftrightarrow>
     genuine P J (identity_public P alice) e \<and> ne_conversation_id e = bstr cid \<and> ne_timestamp e = clock_u64 now \<and>
     (\<exists>ct h. carries J (ct, h) e \<and> sealed P J c n m (ct, h) \<and> rh_dh_public_key h = x25519_base P k \<and>
        to_vec J ratchet_header_to_json h = Inr (ne_nonce e))"

lemma build_signed_envelope_fields:
  assumes "build_signed_envelope P J now identity device kind conversation ct h = Inr e"
  shows "ne_conversation_id e = conversation" "ne_timestamp e = clock_u64 now"
    "to_vec J ratchet_header_to_json h = Inr (ne_nonce e)"
  using assms by (auto simp: build_signed_envelope_def build_raw_envelope_def Let_def result_simps)

lemma chat_encrypt_link:
  assumes "chat_laws P J" "ikp_wf alice" "length k = 32" "fresh_chain P c"
    and "rc_our_ratchet_key (dr_sending_chain (ch_ratchet s)) = Some k"
    and "rc_chain_key (dr_sending_chain (ch_ratchet s)) = Some (link P c n)" "n < 2 ^ 64" "length m < 2 ^ 32"
  shows "\<exists>e. chat_encrypt P J now alice device m s = (Inr e, s\<lparr>ch_ratchet := (ch_ratchet s)\<lparr>dr_sending_chain :=
      (dr_sending_chain (ch_ratchet s))\<lparr>rc_chain_key := Some (link P c (Suc n))\<rparr>\<rparr>\<rparr>) \<and>
    chat_envelope P J alice k (ch_conversation_id s) c n now m e"
proof -
  note laws = chat_lawsD [OF assms(1)]
  let ?r = "(ch_ratchet s)\<lparr>dr_sending_chain := (dr_sending_chain (ch_ratchet s))\<lparr>rc_chain_key := Some (link P c (Suc n))\<rparr>\<rparr>"
  obtain ct h where h: "dr_encrypt P J m (ch_ratchet s) = (Inr (ct, h), ?r)" "sealed P J c n m (ct, h)"
      "rh_dh_public_key h = x25519_base P k"
    using dr_encrypt_link [OF assms(4) laws(8,9) assms(6-8)] assms(5) by blast
  have "rh_wf h" using h(3) length_x25519_base [OF laws(4) assms(3)] by (simp add: rh_wf_def)
  then obtain e where e: "build_signed_envelope P J now alice device KIND_DIRECT (bstr (ch_conversation_id s)) ct h = Inr e"
      "genuine P J (identity_public P alice) e" "carries J (ct, h) e"
    using build_signed_envelope_ok [OF laws(1,9) assms(2)] by blast
  have "chat_encrypt P J now alice device m s = (Inr e, s\<lparr>ch_ratchet := ?r\<rparr>)"
    using e(1) h(1) by (simp add: chat_encrypt_def context_crypto_def)
  moreover have "chat_envelope P J alice k (ch_conversation_id s) c n now m e"
    using e(2,3) h(2,3) build_signed_envelope_fields [OF e(1)] by (auto simp: chat_envelope_def)
  ultimately show ?thesis by blast
qed

definition text_laws :: "prims \<Rightarrow> json_text \<Rightarrow> bool" where
  "text_laws P J \<longleftrightarrow> chat_laws P J \<and> json_nul_free J \<and> json_utf8 J"

lemma command_chat_ok:
  assumes laws: "text_laws P J" "w_prims w = P" "w_json w = J" "ikp_wf alice" "length k = 32" "fresh_chain P c" "plain cid"
    and a: "sends_at P alice k cid peer c n a" "room_for cid (message_id_bytes (w_message_nonce w) (clock_u64 (w_now w)) # uids) (app_store a)"
    and n: "n < 2 ^ 64" "length line < 2 ^ 32"
  shows "\<exists>e a'. command_chat w line a = (Inr (), a') \<and> chat_envelope P J alice k cid c n (w_now w) (bstr line) e \<and>
    ph_queue (app_node a') = ph_queue (app_node a) @ [SendDirect peer e] \<and>
    sends_at P alice k cid peer c (Suc n) a' \<and> room_for cid uids (app_store a') \<and> persisted J cid a'"
proof -
  have L: "chat_laws P J" "json_nul_free J" "json_utf8 J" using laws(1) by (simp_all add: text_laws_def)
  note cl = chat_lawsD [OF L(1)]
  obtain s where s: "app_session a = Some s" "ch_conversation_id s = cid" "chat_wf s"
      "rc_our_ratchet_key (dr_sending_chain (ch_ratchet s)) = Some k"
      "rc_chain_key (dr_sending_chain (ch_ratchet s)) = Some (link P c n)"
    using a(1) by (auto simp: sends_at_def)
  have a1: "app_peer a = Some peer" "ph_running (app_node a)" "ns_identity (app_store a) = alice" "store_open cid (app_store a)"
      "ns_device_id (app_store a) = cid"
    using a(1) by (simp_all add: sends_at_def)
  let ?s = "s\<lparr>ch_ratchet := (ch_ratchet s)\<lparr>dr_sending_chain := (dr_sending_chain (ch_ratchet s))\<lparr>rc_chain_key := Some (link P c (Suc n))\<rparr>\<rparr>\<rparr>"
  obtain e where e: "chat_encrypt P J (w_now w) alice (ns_device_id (app_store a)) (bstr line) s = (Inr e, ?s)"
      "chat_envelope P J alice k cid c n (w_now w) (bstr line) e"
    using chat_encrypt_link [OF L(1) laws(4-6) s(4,5) n(1), of "bstr line"] n(2) s(2) by (auto simp: bstr_def)
  have ts: "ne_timestamp e = clock_u64 (w_now w)" using e(2) by (simp add: chat_envelope_def)
  obtain h where "to_vec J ratchet_header_to_json h = Inr (ne_nonce e)" using e(2) by (auto simp: chat_envelope_def)
  note header = json_text_plain [OF L(2,3) this]
  obtain rid c1 where ins: "store_insert_message (w_now w) cid (message_id_bytes (w_message_nonce w) (clock_u64 (w_now w)))
        (store_identity_public P (app_store a)) (ne_encrypted_payload e) (string_of_bytes (ne_nonce e)) Outgoing (app_store a) =
        (Inr rid, (app_store a)\<lparr>ns_db := c1\<rparr>)"
      "store_open cid ((app_store a)\<lparr>ns_db := c1\<rparr>)" "room_for cid uids ((app_store a)\<lparr>ns_db := c1\<rparr>)"
    using store_insert_ok [OF a1(4) a(2) laws(7) header(2)] by blast
  have "chat_wf ?s" using chat_encrypt_wf [OF cl(5,6) s(3), of J "w_now w" alice "ns_device_id (app_store a)" "bstr line"] e(1) by simp
  then obtain c2 where per: "chat_persist J (w_now w) ?s ((app_store a)\<lparr>ns_db := c1\<rparr>) = (Inr (), (app_store a)\<lparr>ns_db := c2\<rparr>)"
      "store_open cid ((app_store a)\<lparr>ns_db := c2\<rparr>)" "room_for cid uids ((app_store a)\<lparr>ns_db := c2\<rparr>)"
      "saved J cid ?s ((app_store a)\<lparr>ns_db := c2\<rparr>)"
    using persist_ok [OF cl(9) L(2) _ ins(2) _ laws(7) ins(3), of ?s] s(2) by auto
  let ?a = "say (''[1:1] -> '' @ line) (a\<lparr>app_session := Some ?s, app_store := (app_store a)\<lparr>ns_db := c2\<rparr>,
    app_last_outgoing := Some rid, app_node := (app_node a)\<lparr>ph_queue := ph_queue (app_node a) @ [SendDirect peer e]\<rparr>\<rparr>)"
  have "command_chat w line a = (Inr (), ?a)"
    using s(1,2) a1 e(1) ins(1) per(1) ts
    by (simp add: command_chat_def laws(2,3) header(1) with_store_def app_send_def send_direct_def send_control_def persist_quietly_def say_def)
  moreover have "sends_at P alice k cid peer c (Suc n) ?a"
    using s a1 per(2) \<open>chat_wf ?s\<close> by (simp add: sends_at_def say_def)
  ultimately show ?thesis using e(2) per(3,4) by (intro exI [of _ e] exI [of _ ?a]) (simp add: say_def persisted_def)
qed

section \<open>The receiver\<close>

text \<open>An application whose session reads the chain \<open>c\<close> of the ratchet key \<open>k\<close> from position \<open>n\<close>, if need be
after the ratchet step to that key.\<close>

definition reads_at :: "prims \<Rightarrow> identity_key_pair \<Rightarrow> bytes \<Rightarrow> string \<Rightarrow> chain_key \<Rightarrow> nat \<Rightarrow> app \<Rightarrow> bool" where
  "reads_at P alice k cid c n a \<longleftrightarrow>
     (\<exists>s r. app_session a = Some s \<and> ch_conversation_id s = cid \<and> chat_wf s \<and>
        ch_peer_identity s = identity_public P alice \<and>
        (if known_ratchet (ch_ratchet s) = Some (x25519_base P k) then r = ch_ratchet s
         else dr_dh_ratchet P (x25519_base P k) (ch_ratchet s) = (Inr (), r)) \<and>
        known_ratchet r = Some (x25519_base P k) \<and> tracks P c (n, []) r) \<and>
     cn_faults (ns_db (app_store a)) = []"

lemma decrypt_next:
  assumes "tracks P c (n, []) r" "fresh_chain P c" "aead_law P" "n < 2 ^ 64" "sealed P J c n m (ct, h)"
  shows "fst (dr_decrypt P J ct h r) = Inr m" "tracks P c (Suc n, []) (snd (dr_decrypt P J ct h r))"
proof -
  have "rh_message_number h = word_of_nat n" using assms(5) by (simp add: sealed_def)
  from decrypt_refines_window [OF assms(1) _ assms(2,4) this, of J ct] open_sealed [OF assms(3,5)] assms(4)
  show "fst (dr_decrypt P J ct h r) = Inr m" "tracks P c (Suc n, []) (snd (dr_decrypt P J ct h r))"
    by (simp_all add: window_small_def)
qed

lemma chat_decrypt_next:
  assumes "chat_laws P J" "fresh_chain P c" "n < 2 ^ 64" "chat_envelope P J alice k cid c n now m e"
    and "ch_peer_identity s = identity_public P alice" "tracks P c (n, []) r" "known_ratchet r = Some (x25519_base P k)"
    and "if known_ratchet (ch_ratchet s) = Some (x25519_base P k) then r = ch_ratchet s
      else dr_dh_ratchet P (x25519_base P k) (ch_ratchet s) = (Inr (), r)"
  shows "\<exists>r'. chat_decrypt P J e s = (Inr m, s\<lparr>ch_ratchet := r'\<rparr>) \<and> tracks P c (Suc n, []) r' \<and>
    known_ratchet r' = Some (x25519_base P k)"
proof -
  obtain ct h where h: "genuine P J (identity_public P alice) e" "carries J (ct, h) e" "sealed P J c n m (ct, h)"
      "rh_dh_public_key h = x25519_base P k"
    using assms(4) by (auto simp: chat_envelope_def)
  let ?d = "dr_decrypt P J ct h r"
  note d = decrypt_next [OF assms(6,2) chat_lawsD(7) [OF assms(1)] assms(3) h(3)]
  have "chat_decrypt P J e s = (Inr m, s\<lparr>ch_ratchet := snd ?d\<rparr>)"
    using h assms(5,8) d(1)
    by (auto simp: chat_decrypt_def genuine_def carries_def context_crypto_def split_beta Let_def split: if_splits)
  with d(2) dr_decrypt_known [of P J ct h r] assms(7) show ?thesis by auto
qed

text \<open>A payload that is sealed under the message key of some chain.\<close>

definition sealed_payload :: "prims \<Rightarrow> network_envelope \<Rightarrow> bool" where
  "sealed_payload P e \<longleftrightarrow> (\<exists>ck mk nonce ad m. chain_message_key P ck = Inr mk \<and>
     chacha_seal P (mk_key mk) nonce ad m = Some (ne_encrypted_payload e))"

lemma chat_envelope_sealed:
  assumes "chat_envelope P J alice k cid c n now m e" "fresh_chain P c"
  shows "sealed_payload P e"
proof -
  have "\<exists>mk. chain_message_key P (link P c n) = Inr mk" using dr_chain.key_ok assms(2) by (simp add: fresh_chain_def)
  with assms(1) show ?thesis
    by (fastforce simp: chat_envelope_def sealed_payload_def carries_def sealed_def link_key_def)
qed

text \<open>A payload that is not taken for a message of the handshake.\<close>

definition unmarked :: "network_envelope \<Rightarrow> bool" where
  "unmarked e \<longleftrightarrow> (case ne_encrypted_payload e of [] \<Rightarrow> True | b # _ \<Rightarrow> MARKER_GROUP_KEY < b)"

lemma handle_direct_unmarked:
  assumes "unmarked e"
  shows "handle_direct w sender e a =
    on_chat_message w sender e (if app_peer a = None then a\<lparr>app_peer := Some sender\<rparr> else a)"
  using assms by (auto simp: handle_direct_def unmarked_def marker_defs Let_def split: list.splits)

text \<open>A chat message that the session, in memory or resumed, can read: it is stored and printed.\<close>

lemma on_chat_message_reads:
  assumes laws: "text_laws P J" "w_prims w = P" "w_json w = J" "plain cid" "utf8 (bstr cid)"
    and a: "ensure_session w cid a = (Inr (), a1)" "app_session a1 = Some s" "app_store a1 = app_store a"
      "cn_faults (ns_db (app_store a)) = []"
      "room_for cid (message_id_bytes (w_message_nonce w) (clock_u64 now) # uids) (app_store a)"
    and e: "chat_envelope P J alice k cid c n now m e"
    and s': "chat_decrypt P J e s = (Inr m, s')" "chat_wf s" "ch_conversation_id s' = cid"
  shows "\<exists>db. on_chat_message w sender e a = (Inr (), say (''[1:1] '' @ short_peer sender @ '': '' @ lossy w m)
      (a1\<lparr>app_session := Some s', app_store := (app_store a)\<lparr>ns_db := db\<rparr>\<rparr>)) \<and>
    room_for cid uids ((app_store a)\<lparr>ns_db := db\<rparr>) \<and> saved J cid s' ((app_store a)\<lparr>ns_db := db\<rparr>)"
proof -
  have L: "chat_laws P J" "json_nul_free J" "json_utf8 J" using laws(1) by (simp_all add: text_laws_def)
  note cl = chat_lawsD [OF L(1)]
  have wf: "chat_wf s'" using chat_decrypt_wf [OF cl(5,6) s'(2), of J e] s'(1) by simp
  have fields: "ne_conversation_id e = bstr cid" "ne_timestamp e = clock_u64 now" using e by (simp_all add: chat_envelope_def)
  obtain h where "to_vec J ratchet_header_to_json h = Inr (ne_nonce e)" using e by (auto simp: chat_envelope_def)
  note header = json_text_plain [OF L(2,3) this]
  obtain c1 where up: "store_upsert_conversation (w_now w) cid (ch_peer_identity s) False (app_store a) =
        (Inr (), (app_store a)\<lparr>ns_db := c1\<rparr>)"
      "store_open cid ((app_store a)\<lparr>ns_db := c1\<rparr>)"
      "room_for cid (message_id_bytes (w_message_nonce w) (clock_u64 now) # uids) ((app_store a)\<lparr>ns_db := c1\<rparr>)"
    using store_upsert_ok [OF a(4) laws(4) a(5)] by blast
  obtain c2 where per: "chat_persist J (w_now w) s' ((app_store a)\<lparr>ns_db := c1\<rparr>) = (Inr (), (app_store a)\<lparr>ns_db := c2\<rparr>)"
      "store_open cid ((app_store a)\<lparr>ns_db := c2\<rparr>)"
      "room_for cid (message_id_bytes (w_message_nonce w) (clock_u64 now) # uids) ((app_store a)\<lparr>ns_db := c2\<rparr>)"
      "saved J cid s' ((app_store a)\<lparr>ns_db := c2\<rparr>)"
    using persist_ok [OF cl(9) L(2) wf up(2) s'(3) laws(4) up(3)] by auto
  obtain rid c3 where ins: "store_insert_message (w_now w) cid (message_id_bytes (w_message_nonce w) (clock_u64 now))
        (ch_peer_identity s') (ne_encrypted_payload e) (string_of_bytes (ne_nonce e)) Incoming ((app_store a)\<lparr>ns_db := c2\<rparr>) =
        (Inr rid, (app_store a)\<lparr>ns_db := c3\<rparr>)"
      "store_open cid ((app_store a)\<lparr>ns_db := c3\<rparr>)" "room_for cid uids ((app_store a)\<lparr>ns_db := c3\<rparr>)"
      "t_sessions (cn_tables c3) = t_sessions (cn_tables c2)"
    using store_insert_ok [OF per(2,3) laws(4) header(2)] by fastforce
  have "saved J cid s' ((app_store a)\<lparr>ns_db := c3\<rparr>)"
    using ins(2,4) by (intro saved_frame [OF per(4)]) (simp_all add: store_open_def)
  moreover have "from_utf8 (bstr cid) = Inr cid" using laws(5) by (simp add: from_utf8_def)
  then have "on_chat_message w sender e a = (Inr (), say (''[1:1] '' @ short_peer sender @ '': '' @ lossy w m)
      (a1\<lparr>app_session := Some s', app_store := (app_store a)\<lparr>ns_db := c3\<rparr>\<rparr>))"
    using a(1-3) up(1) s'(1) per(1) ins(1) header(1) fields
    by (simp add: on_chat_message_def with_store_def laws(2,3) say_def Let_def)
  ultimately show ?thesis using ins(3) by blast
qed

lemma on_chat_message_ok:
  assumes laws: "text_laws P J" "w_prims w = P" "w_json w = J" "fresh_chain P c" "plain cid" "utf8 (bstr cid)"
    and a: "reads_at P alice k cid c n a" "room_for cid (message_id_bytes (w_message_nonce w) (clock_u64 now) # uids) (app_store a)"
    and e: "chat_envelope P J alice k cid c n now m e" "n < 2 ^ 64"
  shows "\<exists>a'. on_chat_message w sender e a = (Inr (), a') \<and>
    app_output a' = app_output a @ [''[1:1] '' @ short_peer sender @ '': '' @ lossy w m] \<and>
    app_node a' = app_node a \<and> reads_at P alice k cid c (Suc n) a' \<and> room_for cid uids (app_store a')"
proof -
  have L: "chat_laws P J" using laws(1) by (simp add: text_laws_def)
  obtain s r where s: "app_session a = Some s" "ch_conversation_id s = cid" "chat_wf s"
      "ch_peer_identity s = identity_public P alice" "tracks P c (n, []) r" "known_ratchet r = Some (x25519_base P k)"
      "if known_ratchet (ch_ratchet s) = Some (x25519_base P k) then r = ch_ratchet s
        else dr_dh_ratchet P (x25519_base P k) (ch_ratchet s) = (Inr (), r)"
    using a(1) by (auto simp: reads_at_def)
  obtain r' where r': "chat_decrypt P J e s = (Inr m, s\<lparr>ch_ratchet := r'\<rparr>)" "tracks P c (Suc n, []) r'"
      "known_ratchet r' = Some (x25519_base P k)"
    using chat_decrypt_next [OF L laws(4) e(2,1) s(4-7)] by blast
  have f: "cn_faults (ns_db (app_store a)) = []" using a(1) by (simp add: reads_at_def)
  have ens: "ensure_session w cid a = (Inr (), a)" using s(1) by (simp add: ensure_session_def)
  have conv: "ch_conversation_id (s\<lparr>ch_ratchet := r'\<rparr>) = cid" using s(2) by simp
  obtain db where db: "on_chat_message w sender e a = (Inr (), say (''[1:1] '' @ short_peer sender @ '': '' @ lossy w m)
        (a\<lparr>app_session := Some (s\<lparr>ch_ratchet := r'\<rparr>), app_store := (app_store a)\<lparr>ns_db := db\<rparr>\<rparr>))"
      "room_for cid uids ((app_store a)\<lparr>ns_db := db\<rparr>)" "saved J cid (s\<lparr>ch_ratchet := r'\<rparr>) ((app_store a)\<lparr>ns_db := db\<rparr>)"
    using on_chat_message_reads [OF laws(1-3,5,6) ens s(1) refl f a(2) e(1) r'(1) s(3) conv] by blast
  then show ?thesis
    using s(2,4) r'(2,3) by (auto simp: reads_at_def say_def saved_def)
qed

text \<open>
  A session that has read the positions \<open>D\<close> of the chain, in any order, and can read every other one
  of the first \<open>MAX_SKIP_MESSAGES + 1\<close>; the application may have it in memory or only in its database.
\<close>

definition reads_session :: "prims \<Rightarrow> identity_key_pair \<Rightarrow> bytes \<Rightarrow> chain_key \<Rightarrow> nat set \<Rightarrow> chat_session \<Rightarrow> bool" where
  "reads_session P alice k c D s \<longleftrightarrow> ch_peer_identity s = identity_public P alice \<and>
     (\<exists>r win. (if known_ratchet (ch_ratchet s) = Some (x25519_base P k) then r = ch_ratchet s
         else dr_dh_ratchet P (x25519_base P k) (ch_ratchet s) = (Inr (), r)) \<and>
        known_ratchet r = Some (x25519_base P k) \<and> tracks P c win r \<and> window_fair D win \<and> fst win \<le> Suc MAX_SKIP_MESSAGES)"

definition reads_any ::
    "prims \<Rightarrow> json_text \<Rightarrow> identity_key_pair \<Rightarrow> bytes \<Rightarrow> string \<Rightarrow> chain_key \<Rightarrow> nat set \<Rightarrow> app \<Rightarrow> bool"
where
  "reads_any P J alice k cid c D a \<longleftrightarrow>
     (\<exists>s. reads_session P alice k c D s \<and> saved J cid s (app_store a) \<and> (app_session a = Some s \<or> app_session a = None))"

lemma chat_decrypt_any:
  assumes "chat_laws P J" "fresh_chain P c" "reads_session P alice k c D s" "n \<notin> D" "n \<le> MAX_SKIP_MESSAGES"
    and "chat_envelope P J alice k cid c n now m e"
  shows "\<exists>s'. chat_decrypt P J e s = (Inr m, s') \<and> ch_conversation_id s' = ch_conversation_id s \<and>
    reads_session P alice k c (insert n D) s'"
proof -
  obtain r win where r: "if known_ratchet (ch_ratchet s) = Some (x25519_base P k) then r = ch_ratchet s
      else dr_dh_ratchet P (x25519_base P k) (ch_ratchet s) = (Inr (), r)"
      "known_ratchet r = Some (x25519_base P k)" "tracks P c win r" "window_fair D win" "fst win \<le> Suc MAX_SKIP_MESSAGES"
    and peer: "ch_peer_identity s = identity_public P alice"
    using assms(3) by (auto simp: reads_session_def)
  obtain ct h where h: "genuine P J (identity_public P alice) e" "carries J (ct, h) e" "sealed P J c n m (ct, h)"
      "rh_dh_public_key h = x25519_base P k"
    using assms(6) by (auto simp: chat_envelope_def)
  obtain win' r' where d: "dr_decrypt P J ct h r = (Inr m, r')" "tracks P c win' r'" "window_fair (insert n D) win'"
      "fst win' \<le> Suc MAX_SKIP_MESSAGES"
    using decrypt_fair [OF assms(2) chat_lawsD(7) [OF assms(1)] r(3-5) h(3) assms(4,5)] by blast
  have "chat_decrypt P J e s = (Inr m, s\<lparr>ch_ratchet := r'\<rparr>)"
    using h r(1) peer d(1)
    by (auto simp: chat_decrypt_def genuine_def carries_def context_crypto_def Let_def split: if_splits)
  moreover have "known_ratchet r' = Some (x25519_base P k)" using dr_decrypt_known [of P J ct h r] d(1) r(2) by simp
  ultimately show ?thesis using d(2-4) peer by (cases win') (auto simp: reads_session_def)
qed

lemma on_chat_message_any:
  assumes laws: "text_laws P J" "w_prims w = P" "w_json w = J" "fresh_chain P c" "plain cid" "utf8 (bstr cid)"
    and a: "reads_any P J alice k cid c D a" "room_for cid (message_id_bytes (w_message_nonce w) (clock_u64 now) # uids) (app_store a)"
    and e: "chat_envelope P J alice k cid c n now m e" "n \<notin> D" "n \<le> MAX_SKIP_MESSAGES"
  shows "\<exists>a'. on_chat_message w sender e a = (Inr (), a') \<and>
    app_output a' = app_output a @ (if app_session a = None then [''[responder] resumed persisted session''] else []) @
      [''[1:1] '' @ short_peer sender @ '': '' @ lossy w m] \<and>
    app_node a' = app_node a \<and> app_session a' \<noteq> None \<and> reads_any P J alice k cid c (insert n D) a' \<and> room_for cid uids (app_store a')"
proof -
  have L: "chat_laws P J" using laws(1) by (simp add: text_laws_def)
  obtain s where s: "reads_session P alice k c D s" "saved J cid s (app_store a)" "app_session a = Some s \<or> app_session a = None"
    using a(1) by (auto simp: reads_any_def)
  obtain s' where s': "chat_decrypt P J e s = (Inr m, s')" "ch_conversation_id s' = ch_conversation_id s"
      "reads_session P alice k c (insert n D) s'"
    using chat_decrypt_any [OF L laws(4) s(1) e(2,3,1)] by blast
  have f: "cn_faults (ns_db (app_store a)) = []" "chat_wf s" "ch_conversation_id s' = cid"
    using s(2) s'(2) by (simp_all add: saved_def)
  let ?a1 = "if app_session a = None then (say ''[responder] resumed persisted session'' a)\<lparr>app_session := Some s\<rparr> else a"
  have a1: "ensure_session w cid a = (Inr (), ?a1)" "app_session ?a1 = Some s" "app_store ?a1 = app_store a"
    using s(3) saved_resume [OF s(2) laws(5)] by (auto simp: ensure_session_def with_store_def say_def laws(3))
  obtain db where "on_chat_message w sender e a = (Inr (), say (''[1:1] '' @ short_peer sender @ '': '' @ lossy w m)
        (?a1\<lparr>app_session := Some s', app_store := (app_store a)\<lparr>ns_db := db\<rparr>\<rparr>))"
      "room_for cid uids ((app_store a)\<lparr>ns_db := db\<rparr>)" "saved J cid s' ((app_store a)\<lparr>ns_db := db\<rparr>)"
    using on_chat_message_reads [OF laws(1-3,5,6) a1 f(1) a(2) e(1) s'(1) f(2,3)] by blast
  then show ?thesis using s'(3) by (auto simp: reads_any_def say_def)
qed

section \<open>The two loops\<close>

text \<open>A line that is a message, and no command.\<close>

definition chat_line :: "string \<Rightarrow> bool" where
  "chat_line line \<longleftrightarrow>
    (let l = trim line in l \<notin> {[], ''q'', ''@quit'', ''exit'', ''@info'', ''@history''} \<and> strip_prefix ''@group '' l = None \<and>
       utf8 (bstr l) \<and> length l < 2 ^ 32)"

fun chat_stream ::
    "prims \<Rightarrow> json_text \<Rightarrow> identity_key_pair \<Rightarrow> bytes \<Rightarrow> string \<Rightarrow> chain_key \<Rightarrow> nat \<Rightarrow> (world \<times> string) list \<Rightarrow>
      network_envelope list \<Rightarrow> bool"
where
  "chat_stream P J alice k cid c n [] es = (es = [])"
| "chat_stream P J alice k cid c n ((w, line) # typed) es =
    (case es of [] \<Rightarrow> False | e # es' \<Rightarrow>
       chat_envelope P J alice k cid c n (w_now w) (bstr (trim line)) e \<and> chat_stream P J alice k cid c (Suc n) typed es')"

lemma chat_stream_length: "chat_stream P J alice k cid c n typed es \<Longrightarrow> length es = length typed"
  by (induction typed arbitrary: n es) (auto split: list.splits)

lemma chat_stream_sealed:
  "chat_stream P J alice k cid c n typed es \<Longrightarrow> fresh_chain P c \<Longrightarrow> \<forall>e\<in>set es. sealed_payload P e"
proof (induction typed arbitrary: n es)
  case Nil
  then show ?case by simp
next
  case (Cons t typed)
  then show ?case by (cases t) (auto split: list.splits intro: chat_envelope_sealed)
qed

abbreviation line_inputs :: "(world \<times> string) list \<Rightarrow> (world \<times> app_input) list" where
  "line_inputs typed \<equiv> map (\<lambda>(w, line). (w, Line line)) typed"

abbreviation message_inputs :: "peer_id \<Rightarrow> world list \<Rightarrow> network_envelope list \<Rightarrow> (world \<times> app_input) list" where
  "message_inputs sender ws es \<equiv> map (\<lambda>(w, e). (w, NodeEvent (DirectMessage sender e))) (zip ws es)"

text \<open>The ids under which the two sides store the messages.\<close>

definition sent_ids :: "(world \<times> string) list \<Rightarrow> bytes list" where
  "sent_ids typed = map (\<lambda>(w, line). message_id_bytes (w_message_nonce w) (clock_u64 (w_now w))) typed"

definition received_ids :: "(world \<times> string) list \<Rightarrow> world list \<Rightarrow> bytes list" where
  "received_ids typed ws = map (\<lambda>((wa, line), w). message_id_bytes (w_message_nonce w) (clock_u64 (w_now wa))) (zip typed ws)"

lemma lines_sent:
  assumes laws: "text_laws P J" "ikp_wf alice" "length k = 32" "fresh_chain P c" "plain cid"
  shows "\<forall>(w, line)\<in>set typed. w_prims w = P \<and> w_json w = J \<and> chat_line line \<Longrightarrow> n + length typed \<le> 2 ^ 64 \<Longrightarrow>
    sends_at P alice k cid peer c n a \<Longrightarrow> room_for cid (sent_ids typed @ uids) (app_store a) \<Longrightarrow>
    \<exists>es a'. run_loop (line_inputs typed) hs a = (None, a') \<and> chat_stream P J alice k cid c n typed es \<and>
      ph_queue (app_node a') = ph_queue (app_node a) @ map (SendDirect peer) es \<and>
      sends_at P alice k cid peer c (n + length typed) a' \<and> (persisted J cid a \<longrightarrow> persisted J cid a') \<and>
      room_for cid uids (app_store a')"
proof (induction typed arbitrary: n a)
  case Nil
  then show ?case by (simp add: sent_ids_def)
next
  case (Cons t typed)
  obtain w line where t: "t = (w, line)" by (cases t)
  have w: "w_prims w = P" "w_json w = J" "chat_line line" using Cons.prems(1) t by simp_all
  have n: "n < 2 ^ 64" "length (trim line) < 2 ^ 32" using Cons.prems(2) w(3) by (simp_all add: chat_line_def Let_def)
  have room: "room_for cid (message_id_bytes (w_message_nonce w) (clock_u64 (w_now w)) # sent_ids typed @ uids) (app_store a)"
    using Cons.prems(4) by (simp add: t sent_ids_def)
  obtain e a1 where e: "command_chat w (trim line) a = (Inr (), a1)" "chat_envelope P J alice k cid c n (w_now w) (bstr (trim line)) e"
      "ph_queue (app_node a1) = ph_queue (app_node a) @ [SendDirect peer e]"
      "sends_at P alice k cid peer c (Suc n) a1" "room_for cid (sent_ids typed @ uids) (app_store a1)" "persisted J cid a1"
    using command_chat_ok [OF laws(1) w(1,2) laws(2-5) Cons.prems(3) room n] by blast
  have rest: "\<forall>(w, line)\<in>set typed. w_prims w = P \<and> w_json w = J \<and> chat_line line" "Suc n + length typed \<le> 2 ^ 64"
    using Cons.prems(1,2) by simp_all
  obtain es a' where "run_loop (line_inputs typed) hs a1 = (None, a')" "chat_stream P J alice k cid c (Suc n) typed es"
      "ph_queue (app_node a') = ph_queue (app_node a1) @ map (SendDirect peer) es"
      "sends_at P alice k cid peer c (Suc n + length typed) a'" "persisted J cid a'" "room_for cid uids (app_store a')"
    using Cons.IH [OF rest e(4,5)] e(6) by blast
  moreover have "handle_command w (trim line) a = (Inr True, a1)" "trim line \<noteq> []"
    using w(3) e(1) by (simp_all add: handle_command_def chat_line_def Let_def)
  ultimately show ?case using e(2,3) t by (intro exI [of _ "e # es"] exI [of _ a']) simp
qed

lemma lines_received:
  assumes laws: "text_laws P J" "fresh_chain P c" "plain cid" "utf8 (bstr cid)"
  shows "chat_stream P J alice k cid c n typed es \<Longrightarrow> \<forall>(w, line)\<in>set typed. chat_line line \<Longrightarrow>
    \<forall>w\<in>set ws. w_prims w = P \<and> w_json w = J \<Longrightarrow> length ws = length typed \<Longrightarrow> \<forall>e\<in>set es. unmarked e \<Longrightarrow>
    n + length typed \<le> 2 ^ 64 \<Longrightarrow> reads_at P alice k cid c n b \<Longrightarrow> room_for cid (received_ids typed ws) (app_store b) \<Longrightarrow>
    \<exists>b'. run_loop (message_inputs sender ws es) hs b = (None, b') \<and>
      app_output b' = app_output b @ map (\<lambda>(w, line). ''[1:1] '' @ short_peer sender @ '': '' @ trim line) typed \<and>
      app_node b' = app_node b \<and> reads_at P alice k cid c (n + length typed) b'"
proof (induction typed arbitrary: n es ws b)
  case Nil
  then show ?case by simp
next
  case (Cons t typed)
  obtain wa line where t: "t = (wa, line)" by (cases t)
  obtain e es' where es: "es = e # es'" "chat_envelope P J alice k cid c n (w_now wa) (bstr (trim line)) e"
      "chat_stream P J alice k cid c (Suc n) typed es'"
    using Cons.prems(1) t by (auto split: list.splits)
  obtain w ws' where ws: "ws = w # ws'" "length ws' = length typed" using Cons.prems(4) by (cases ws) auto
  have w: "w_prims w = P" "w_json w = J" using Cons.prems(3) ws(1) by simp_all
  let ?b = "if app_peer b = None then b\<lparr>app_peer := Some sender\<rparr> else b"
  have b: "reads_at P alice k cid c n ?b" "app_output ?b = app_output b" "app_store ?b = app_store b" "app_node ?b = app_node b"
    using Cons.prems(7) by (simp_all add: reads_at_def)
  have n: "n < 2 ^ 64" using Cons.prems(6) by simp
  have room: "room_for cid (message_id_bytes (w_message_nonce w) (clock_u64 (w_now wa)) # received_ids typed ws') (app_store ?b)"
    using Cons.prems(8) b(3) by (simp add: t ws(1) received_ids_def)
  obtain b1 where b1: "on_chat_message w sender e ?b = (Inr (), b1)"
      "app_output b1 = app_output ?b @ [''[1:1] '' @ short_peer sender @ '': '' @ lossy w (bstr (trim line))]"
      "app_node b1 = app_node ?b" "reads_at P alice k cid c (Suc n) b1" "room_for cid (received_ids typed ws') (app_store b1)"
    using on_chat_message_ok [OF laws(1) w laws(2-4) b(1) room es(2) n] by blast
  have rest: "\<forall>(w, line)\<in>set typed. chat_line line" "\<forall>w\<in>set ws'. w_prims w = P \<and> w_json w = J"
      "\<forall>e\<in>set es'. unmarked e" "Suc n + length typed \<le> 2 ^ 64"
    using Cons.prems(2,3,5,6) es(1) ws(1) by simp_all
  have "lossy w (bstr (trim line)) = trim line" using Cons.prems(2) t by (simp add: chat_line_def lossy_def Let_def)
  moreover have "handle_event w (DirectMessage sender e) hs b = (Inr hs, b1)"
    using b1(1) Cons.prems(5) es(1) by (simp add: handle_direct_unmarked)
  moreover obtain b' where "run_loop (message_inputs sender ws' es') hs b1 = (None, b')"
      "app_output b' = app_output b1 @ map (\<lambda>(w, line). ''[1:1] '' @ short_peer sender @ '': '' @ trim line) typed"
      "app_node b' = app_node b1" "reads_at P alice k cid c (Suc n + length typed) b'"
    using Cons.IH [OF es(3) rest(1,2) ws(2) rest(3,4) b1(4,5)] by blast
  ultimately show ?case using b1(2,3) b(2,4) t es(1) ws(1) by (intro exI [of _ b']) simp
qed

section \<open>Messages in any order\<close>

text \<open>Times and texts of the messages of a chain from its beginning, and their envelopes.\<close>

definition all_sent ::
    "prims \<Rightarrow> json_text \<Rightarrow> identity_key_pair \<Rightarrow> bytes \<Rightarrow> string \<Rightarrow> chain_key \<Rightarrow> (int \<times> bytes) list \<Rightarrow> network_envelope list \<Rightarrow> bool"
where
  "all_sent P J alice k cid c sent es \<longleftrightarrow> length es = length sent \<and>
     (\<forall>i<length sent. chat_envelope P J alice k cid c i (fst (sent ! i)) (snd (sent ! i)) (es ! i))"

text \<open>A message that arrives: in which step, from whom (a node has a new peer id after every start), and which.\<close>

type_synonym arrival = "world \<times> peer_id \<times> nat"

definition arrival_ids :: "(int \<times> bytes) list \<Rightarrow> arrival list \<Rightarrow> bytes list" where
  "arrival_ids sent arrivals = map (\<lambda>(w, sender, i). message_id_bytes (w_message_nonce w) (clock_u64 (fst (sent ! i)))) arrivals"

definition printed_line :: "(int \<times> bytes) list \<Rightarrow> arrival \<Rightarrow> string" where
  "printed_line sent arrival = (case arrival of (w, sender, i) \<Rightarrow>
     ''[1:1] '' @ short_peer sender @ '': '' @ string_of_bytes (snd (sent ! i)))"

abbreviation arrival_inputs :: "network_envelope list \<Rightarrow> arrival list \<Rightarrow> (world \<times> app_input) list" where
  "arrival_inputs es arrivals \<equiv> map (\<lambda>(w, sender, i). (w, NodeEvent (DirectMessage sender (es ! i)))) arrivals"

text \<open>Which messages may arrive: each at most once, in any order, and none that was read before.\<close>

definition arrivals_ok :: "prims \<Rightarrow> json_text \<Rightarrow> (int \<times> bytes) list \<Rightarrow> nat set \<Rightarrow> arrival list \<Rightarrow> bool" where
  "arrivals_ok P J sent D arrivals \<longleftrightarrow> distinct (map (snd \<circ> snd) arrivals) \<and> (snd \<circ> snd) ` set arrivals \<subseteq> {..<length sent} - D \<and>
     (\<forall>(w, sender, i)\<in>set arrivals. w_prims w = P \<and> w_json w = J)"

lemma arrivals_read:
  assumes laws: "text_laws P J" "fresh_chain P c" "plain cid" "utf8 (bstr cid)"
    and sent: "all_sent P J alice k cid c sent es" "length sent \<le> Suc MAX_SKIP_MESSAGES" "\<forall>m\<in>set sent. utf8 (snd m)"
      "\<forall>e\<in>set es. unmarked e"
  shows "arrivals_ok P J sent D arrivals \<Longrightarrow> reads_any P J alice k cid c D b \<Longrightarrow>
    room_for cid (arrival_ids sent arrivals @ uids) (app_store b) \<Longrightarrow>
    \<exists>b'. run_loop (arrival_inputs es arrivals) hs b = (None, b') \<and>
      app_output b' = app_output b @
        (if app_session b = None \<and> arrivals \<noteq> [] then [''[responder] resumed persisted session''] else []) @
        map (printed_line sent) arrivals \<and>
      app_node b' = app_node b \<and> reads_any P J alice k cid c (D \<union> (snd \<circ> snd) ` set arrivals) b' \<and> room_for cid uids (app_store b')"
proof (induction arrivals arbitrary: D b)
  case Nil
  then show ?case by (simp add: arrival_ids_def)
next
  case (Cons x arrivals)
  obtain w sender i where x: "x = (w, sender, i)" by (cases x)
  have i: "w_prims w = P" "w_json w = J" "i < length sent" "i \<notin> D" "i \<le> MAX_SKIP_MESSAGES"
      and rest: "arrivals_ok P J sent (insert i D) arrivals"
    using Cons.prems(1) sent(2) by (auto simp: x arrivals_ok_def)
  have e: "chat_envelope P J alice k cid c i (fst (sent ! i)) (snd (sent ! i)) (es ! i)" "unmarked (es ! i)"
    using sent(1,4) i(3) by (auto simp: all_sent_def)
  let ?b = "if app_peer b = None then b\<lparr>app_peer := Some sender\<rparr> else b"
  have b: "reads_any P J alice k cid c D ?b" "app_output ?b = app_output b" "app_store ?b = app_store b"
      "app_node ?b = app_node b" "app_session ?b = app_session b"
    using Cons.prems(2) by (simp_all add: reads_any_def)
  have room: "room_for cid (message_id_bytes (w_message_nonce w) (clock_u64 (fst (sent ! i))) # arrival_ids sent arrivals @ uids)
      (app_store ?b)"
    using Cons.prems(3) b(3) by (simp add: x arrival_ids_def)
  obtain b1 where b1: "on_chat_message w sender (es ! i) ?b = (Inr (), b1)"
      "app_output b1 = app_output ?b @ (if app_session ?b = None then [''[responder] resumed persisted session''] else []) @
        [''[1:1] '' @ short_peer sender @ '': '' @ lossy w (snd (sent ! i))]"
      "app_node b1 = app_node ?b" "app_session b1 \<noteq> None" "reads_any P J alice k cid c (insert i D) b1"
      "room_for cid (arrival_ids sent arrivals @ uids) (app_store b1)"
    using on_chat_message_any [OF laws(1) i(1,2) laws(2-4) b(1) room e(1) i(4,5), of sender] by blast
  obtain b' where "run_loop (arrival_inputs es arrivals) hs b1 = (None, b')"
      "app_output b' = app_output b1 @ map (printed_line sent) arrivals"
      "app_node b' = app_node b1" "reads_any P J alice k cid c (insert i D \<union> (snd \<circ> snd) ` set arrivals) b'" "room_for cid uids (app_store b')"
    using Cons.IH [OF rest b1(5,6)] b1(4) by auto
  moreover have "lossy w (snd (sent ! i)) = string_of_bytes (snd (sent ! i))" using sent(3) i(3) by (simp add: lossy_def)
  moreover have "handle_event w (DirectMessage sender (es ! i)) hs b = (Inr hs, b1)"
    using b1(1) e(2) by (simp add: handle_direct_unmarked)
  ultimately show ?case using b1(2,3) b(2,4,5) by (intro exI [of _ b']) (simp add: x printed_line_def)
qed

end
