(* ===== verification/Handshake.thy ===== *)
theory Handshake
  imports Exchange
begin

text \<open>
  The handshake of two applications through their event handlers: from the connection to the
  first message, each step with the envelope that it queues for the other side.
\<close>

section \<open>What the drivers leave behind\<close>

lemma paired_chain:
  assumes "chat_laws P J" "paired P alice bob a b chat_a chat_b"
  shows "\<exists>c r. fresh_chain P c \<and> rc_chain_key (dr_sending_chain (ch_ratchet chat_a)) = Some (link P c 0) \<and>
    rc_our_ratchet_key (dr_sending_chain (ch_ratchet chat_a)) = Some a \<and>
    known_ratchet (ch_ratchet chat_b) = None \<and> dr_dh_ratchet P (x25519_base P a) (ch_ratchet chat_b) = (Inr (), r) \<and>
    known_ratchet r = Some (x25519_base P a) \<and> tracks P c (0, []) r"
proof -
  note laws = chat_lawsD [OF assms(1)]
  obtain rk where rk: "dr_init P SESSION_ID rk a (x25519_base P b) [] = Inr (ch_ratchet chat_a)"
      "dr_init_as_responder SESSION_ID rk b [] = Inr (ch_ratchet chat_b)"
    using assms(2) by (auto simp: paired_def)
  obtain r where r: "dr_dh_ratchet P (x25519_base P a) (ch_ratchet chat_b) = (Inr (), r)"
      "chain_shared P (ch_ratchet chat_a) r" "rc_chain_key (dr_sending_chain (ch_ratchet chat_a)) \<noteq> None"
      "rc_our_ratchet_key (dr_sending_chain (ch_ratchet chat_a)) = Some a"
    by (rule init_shared [OF laws(4,5) rk])
  obtain c where c: "rc_chain_key (dr_sending_chain (ch_ratchet chat_a)) = Some c" "ck_index c = 0"
      "rc_chain_key (dr_receiving_chain r) = Some c" "rc_skipped_message_keys (dr_receiving_chain r) = []"
    using r(2,3) by (auto simp: chain_shared_def ensure_sending_chain_def)
  note known = responder_knows_none [OF rk(2)]
  have "known_ratchet r = Some (x25519_base P a)" using dr_dh_ratchet_known [OF r(1)] known by simp
  with r c known laws(6) show ?thesis
    by (intro exI [of _ c] exI [of _ r]) (simp add: fresh_chain_def tracks_def)
qed

lemma send_prekey_result:
  assumes "send_prekey P J now draws pkb (ih, h) = (Inr (), ih1, h1)" "ph_queue h1 = ph_queue h @ [SendDirect peer e]"
  shows "ne_sender_device_id e = bstr (ih_device_id ih)" "ih_peer_identity ih1 = Some (pkb_identity_key pkb)"
    "ih_device_id ih1 = ih_device_id ih"
  using assms
  by (auto simp: send_prekey_def sync_envelope_def build_raw_envelope_def handle_send_def send_direct_def send_control_def
      result_simps Let_def split: st_splits_asm if_splits)

lemma on_prekey_result:
  assumes "on_prekey P J d body conv rp = (Inr (pub, s), rp')"
  shows "ch_conversation_id s = conv" "rp_peer_identity rp' = Some (ch_peer_identity s)"
  using assms by (auto simp: on_prekey_def result_simps Let_def split: st_splits_asm)

lemma establish_result:
  assumes "establish P d pub ih = (Inr s, ih')"
  shows "ch_conversation_id s = ih_device_id ih" "ih_peer_identity ih' = Some (ch_peer_identity s)"
    "ih_peer_identity ih = Some (ch_peer_identity s)"
  using assms by (auto simp: establish_def build_initiator_session_def result_simps Let_def split: st_splits_asm)

section \<open>The steps\<close>

text \<open>An application after a message was queued, and the kind of message by its first byte.\<close>

definition queued :: "peer_id \<Rightarrow> network_envelope \<Rightarrow> app \<Rightarrow> app" where
  "queued peer e a = a\<lparr>app_node := (app_node a)\<lparr>ph_queue := ph_queue (app_node a) @ [SendDirect peer e]\<rparr>\<rparr>"

lemma app_send_queued: "ph_running (app_node a) \<Longrightarrow> app_send peer e a = (Inr (), queued peer e a)"
  by (simp add: app_send_def send_direct_def send_control_def queued_def)

lemma queued_simps [simp]:
  "app_store (queued peer e a) = app_store a" "app_initiator (queued peer e a) = app_initiator a"
  "app_responder (queued peer e a) = app_responder a" "app_session (queued peer e a) = app_session a"
  "app_group (queued peer e a) = app_group a" "app_peer (queued peer e a) = app_peer a"
  "app_output (queued peer e a) = app_output a" "ph_running (app_node (queued peer e a)) = ph_running (app_node a)"
  "ph_queue (app_node (queued peer e a)) = ph_queue (app_node a) @ [SendDirect peer e]"
  by (simp_all add: queued_def)

lemma say_simps [simp]:
  "app_store (say l a) = app_store a" "app_initiator (say l a) = app_initiator a" "app_responder (say l a) = app_responder a"
  "app_session (say l a) = app_session a" "app_group (say l a) = app_group a" "app_peer (say l a) = app_peer a"
  "app_node (say l a) = app_node a"
  by (simp_all add: say_def)

lemma sync_envelope_ok:
  assumes "chat_laws P J" "ikp_wf identity"
  shows "\<exists>e. sync_envelope P J now identity device marker body = Inr e \<and> ne_encrypted_payload e = marker # body"
  using build_raw_envelope_ok [OF chat_lawsD(1,9) [OF assms(1)] assms(2)] unfolding sync_envelope_def by blast

lemma step_connected:
  assumes "chat_laws P J" "w_prims w = P" "w_json w = J" "ikp_wf alice" "app_initiator a = Some (initiator_new alice cid peer)"
    and "app_session a = None" "app_peer a = Some peer" "ph_running (app_node a)"
  shows "\<exists>e. handle_event w (PeerConnected peer) False a =
      (Inr True, queued peer e (say (''[net] connected to '' @ short_peer peer) a)) \<and>
    ne_encrypted_payload e = [MARKER_BUNDLE_REQ]"
proof -
  obtain e where "sync_envelope P J (w_now w) alice cid MARKER_BUNDLE_REQ [] = Inr e" "ne_encrypted_payload e = [MARKER_BUNDLE_REQ]"
    using sync_envelope_ok [OF assms(1,4)] by blast
  with assms show ?thesis
    by (intro exI [of _ e]) (simp add: on_connected_def request_bundle_def initiator_new_def handle_send_def send_direct_def
        send_control_def queued_def Let_def)
qed

lemma step_bundle_request:
  assumes "chat_laws P J" "w_prims w = P" "w_json w = J" "app_responder b = Some rp" "responder_bundle P rp = Inr pkb"
    and "to_vec J pre_key_bundle_to_json pkb = Inr bs" "app_peer b = Some p" "ph_running (app_node b)"
    and "ikp_wf (ns_identity (app_store b))" "ne_encrypted_payload e = [MARKER_BUNDLE_REQ]"
  shows "\<exists>e'. handle_event w (DirectMessage peer e) hs b = (Inr hs, queued peer e' b) \<and>
    ne_encrypted_payload e' = MARKER_BUNDLE # bs"
proof -
  obtain e' where "sync_envelope P J (w_now w) (ns_identity (app_store b)) (ns_device_id (app_store b)) MARKER_BUNDLE bs = Inr e'"
      "ne_encrypted_payload e' = MARKER_BUNDLE # bs"
    using sync_envelope_ok [OF assms(1,9)] by blast
  with assms show ?thesis
    by (intro exI [of _ e']) (simp add: handle_direct_def on_bundle_request_def app_send_queued)
qed

lemma step_bundle:
  assumes "w_prims w = P" "w_json w = J" "from_slice J pre_key_bundle_of_json bs = Inr pkb" "app_initiator a = Some ih"
    and "send_prekey P J (w_now w) (w_prekey_draws w) pkb (ih, app_node a) =
      (Inr (), ih1, (app_node a)\<lparr>ph_queue := ph_queue (app_node a) @ [SendDirect peer e']\<rparr>)"
    and "app_peer a = Some p" "ne_encrypted_payload e = MARKER_BUNDLE # bs" "plain (ns_device_id (app_store a))"
    and "cn_faults (ns_db (app_store a)) = []" "room_for (ns_device_id (app_store a)) uids (app_store a)"
  shows "\<exists>c. handle_event w (DirectMessage sender e) hs a =
      (Inr hs, queued peer e' (a\<lparr>app_store := (app_store a)\<lparr>ns_db := c\<rparr>, app_initiator := Some ih1\<rparr>)) \<and>
    store_open (ns_device_id (app_store a)) ((app_store a)\<lparr>ns_db := c\<rparr>) \<and>
    room_for (ns_device_id (app_store a)) uids ((app_store a)\<lparr>ns_db := c\<rparr>)"
proof -
  obtain c where "store_upsert_conversation (w_now w) (ns_device_id (app_store a)) (pkb_identity_key pkb) False (app_store a) =
        (Inr (), (app_store a)\<lparr>ns_db := c\<rparr>)"
      "store_open (ns_device_id (app_store a)) ((app_store a)\<lparr>ns_db := c\<rparr>)"
      "room_for (ns_device_id (app_store a)) uids ((app_store a)\<lparr>ns_db := c\<rparr>)"
    using store_upsert_ok [OF assms(9,8,10)] by blast
  with assms show ?thesis
    by (intro exI [of _ c]) (simp add: handle_direct_def on_bundle_def marker_defs context_json_def with_store_def queued_def)
qed

lemma step_prekey:
  assumes "chat_laws P J" "json_nul_free J" "w_prims w = P" "w_json w = J" "app_responder b = Some rp"
    and "on_prekey P J (w_ratchet_draw w) body cid rp = (Inr (pub, chat), rp')" "length (w_ratchet_draw w) = 32"
    and "app_peer b = Some p" "ph_running (app_node b)" "ikp_wf (ns_identity (app_store b))"
    and "ne_encrypted_payload e = MARKER_PREKEY # body" "ne_sender_device_id e = bstr cid" "utf8 (bstr cid)" "plain cid"
    and "cn_faults (ns_db (app_store b)) = []" "room_for cid uids (app_store b)"
  shows "\<exists>e' c. handle_event w (DirectMessage peer e) hs b =
      (Inr hs, say (''[responder] session established with '' @ short_peer peer) (queued peer e'
        (b\<lparr>app_responder := Some rp', app_store := (app_store b)\<lparr>ns_db := c\<rparr>, app_session := Some chat\<rparr>))) \<and>
    ne_encrypted_payload e' = MARKER_RATCHET_PUB # pub \<and> chat_wf chat \<and> ch_conversation_id chat = cid \<and>
    store_open cid ((app_store b)\<lparr>ns_db := c\<rparr>) \<and> room_for cid uids ((app_store b)\<lparr>ns_db := c\<rparr>) \<and>
    saved J cid chat ((app_store b)\<lparr>ns_db := c\<rparr>)"
proof -
  note laws = chat_lawsD [OF assms(1)]
  note result = on_prekey_result [OF assms(6)]
  have wf: "chat_wf chat" by (rule on_prekey_wf [OF laws(5) assms(7,6)])
  obtain c1 where up: "store_upsert_conversation (w_now w) cid (ch_peer_identity chat) False (app_store b) =
        (Inr (), (app_store b)\<lparr>ns_db := c1\<rparr>)"
      "store_open cid ((app_store b)\<lparr>ns_db := c1\<rparr>)" "room_for cid uids ((app_store b)\<lparr>ns_db := c1\<rparr>)"
    using store_upsert_ok [OF assms(15,14,16)] by blast
  obtain c2 where per: "chat_persist J (w_now w) chat ((app_store b)\<lparr>ns_db := c1\<rparr>) = (Inr (), (app_store b)\<lparr>ns_db := c2\<rparr>)"
      "store_open cid ((app_store b)\<lparr>ns_db := c2\<rparr>)" "room_for cid uids ((app_store b)\<lparr>ns_db := c2\<rparr>)"
      "saved J cid chat ((app_store b)\<lparr>ns_db := c2\<rparr>)"
    using persist_ok [OF laws(9) assms(2) wf up(2) result(1) assms(14) up(3)] by auto
  obtain e' where e': "sync_envelope P J (w_now w) (ns_identity (app_store b)) (ns_device_id (app_store b)) MARKER_RATCHET_PUB pub = Inr e'"
      "ne_encrypted_payload e' = MARKER_RATCHET_PUB # pub"
    using sync_envelope_ok [OF assms(1,10)] by blast
  have "from_utf8 (bstr cid) = Inr cid" using assms(13) by (simp add: from_utf8_def)
  then have "handle_event w (DirectMessage peer e) hs b =
      (Inr hs, say (''[responder] session established with '' @ short_peer peer) (queued peer e'
        (b\<lparr>app_responder := Some rp', app_store := (app_store b)\<lparr>ns_db := c2\<rparr>, app_session := Some chat\<rparr>)))"
    using assms(3-6,8,9,11,12) result up(1) per(1) e'(1)
    by (simp add: handle_direct_def on_prekey_message_def marker_defs with_store_def app_send_queued)
  with e'(2) wf result(1) per(2-4) show ?thesis by blast
qed

definition hello :: "string \<Rightarrow> bytes" where
  "hello cid = bstr (''hello from '' @ cid)"

lemma step_ratchet_public:
  assumes laws: "chat_laws P J" "json_nul_free J" "w_prims w = P" "w_json w = J"
    and est: "app_initiator a = Some ih" "establish P (w_ratchet_draw w) pub ih = (Inr chat, ih')" "chat_wf chat"
    and chain: "fresh_chain P c" "rc_chain_key (dr_sending_chain (ch_ratchet chat)) = Some (link P c 0)"
      "rc_our_ratchet_key (dr_sending_chain (ch_ratchet chat)) = Some (w_ratchet_draw w)"
    and draws: "length (w_ratchet_draw w) = 32" "length (w_chain_draw w) = 32"
    and a: "app_peer a = Some peer" "ph_running (app_node a)" "ns_identity (app_store a) = alice" "ns_device_id (app_store a) = cid"
      "ikp_wf alice" "ih_device_id ih = cid" "plain cid" "length cid < 2 ^ 31"
    and "ne_encrypted_payload e = MARKER_RATCHET_PUB # pub" "cn_faults (ns_db (app_store a)) = []" "room_for cid uids (app_store a)"
  shows "\<exists>a' d body e1 e2. handle_event w (DirectMessage peer e) hs a = (Inr hs, a') \<and>
    ph_queue (app_node a') = ph_queue (app_node a) @ [SendDirect peer e1, SendDirect peer e2] \<and>
    ne_encrypted_payload e1 = MARKER_GROUP_KEY # body \<and> from_slice J distribution_of_json body = Inr d \<and>
    chat_envelope P J alice (w_ratchet_draw w) cid c 0 (w_now w) (hello cid) e2 \<and>
    sends_at P alice (w_ratchet_draw w) cid peer c 1 a' \<and> room_for cid uids (app_store a') \<and> persisted J cid a'"
proof -
  note cl = chat_lawsD [OF laws(1)]
  note result = establish_result [OF est(2)]
  have cid: "ch_conversation_id chat = cid" using result(1) a(6) by simp
  obtain c1 where up: "store_upsert_conversation (w_now w) cid (ch_peer_identity chat) False (app_store a) =
        (Inr (), (app_store a)\<lparr>ns_db := c1\<rparr>)"
      "store_open cid ((app_store a)\<lparr>ns_db := c1\<rparr>)" "room_for cid uids ((app_store a)\<lparr>ns_db := c1\<rparr>)"
    using store_upsert_ok [OF assms(22) a(7) assms(23)] by blast
  obtain c2 where per: "chat_persist J (w_now w) chat ((app_store a)\<lparr>ns_db := c1\<rparr>) = (Inr (), (app_store a)\<lparr>ns_db := c2\<rparr>)"
      "store_open cid ((app_store a)\<lparr>ns_db := c2\<rparr>)" "room_for cid uids ((app_store a)\<lparr>ns_db := c2\<rparr>)"
    using persist_ok [OF cl(9) laws(2) est(3) up(2) cid a(7) up(3)] by auto
  let ?d = "\<lparr>gd_chain_key = w_chain_draw w, gd_key_id = 1, gd_message_index = 0\<rparr>"
  obtain body where body: "to_vec J distribution_to_json ?d = Inr body" "from_slice J distribution_of_json body = Inr ?d"
    using gd_json.wire_roundtrip [OF cl(9), of ?d] draws(2) by (auto simp: gd_wf_def)
  obtain e1 where e1: "sync_envelope P J (w_now w) alice cid MARKER_GROUP_KEY body = Inr e1"
      "ne_encrypted_payload e1 = MARKER_GROUP_KEY # body"
    using sync_envelope_ok [OF laws(1) a(5)] by blast
  let ?s = "chat\<lparr>ch_ratchet := (ch_ratchet chat)\<lparr>dr_sending_chain := (dr_sending_chain (ch_ratchet chat))\<lparr>rc_chain_key := Some (link P c (Suc 0))\<rparr>\<rparr>\<rparr>"
  have "length (hello cid) < 2 ^ 32" using a(8) by (simp add: hello_def bstr_def)
  then obtain e2 where e2: "chat_encrypt P J (w_now w) alice cid (hello cid) chat = (Inr e2, ?s)"
      "chat_envelope P J alice (w_ratchet_draw w) cid c 0 (w_now w) (hello cid) e2"
    using chat_encrypt_link [OF laws(1) a(5) draws(1) chain(1,3,2) _, of "hello cid"] cid by auto
  have wf: "chat_wf ?s" using chat_encrypt_wf [OF cl(5,6) est(3), of J "w_now w" alice cid "hello cid"] e2(1) by simp
  obtain c3 where per2: "chat_persist J (w_now w) ?s ((app_store a)\<lparr>ns_db := c2\<rparr>) = (Inr (), (app_store a)\<lparr>ns_db := c3\<rparr>)"
      "store_open cid ((app_store a)\<lparr>ns_db := c3\<rparr>)" "room_for cid uids ((app_store a)\<lparr>ns_db := c3\<rparr>)"
      "saved J cid ?s ((app_store a)\<lparr>ns_db := c3\<rparr>)"
    using persist_ok [OF cl(9) laws(2) wf per(2) _ a(7) per(3), of "w_now w"] cid by auto
  let ?g = "(app_group a)\<lparr>gc_sender := Some \<lparr>snd_chain_key = w_chain_draw w, snd_group_id = gc_group_id (app_group a),
    snd_sender_identity = \<lparr>idk_public = ipk_classical (identity_public P alice)\<rparr>, snd_message_index = 0, snd_key_id = 1\<rparr>\<rparr>"
  let ?a = "say (''[initiator] session established with '' @ short_peer peer) (queued peer e2 (queued peer e1
    (a\<lparr>app_initiator := Some ih', app_store := (app_store a)\<lparr>ns_db := c3\<rparr>, app_session := Some ?s, app_group := ?g\<rparr>)))"
  have "handle_event w (DirectMessage peer e) hs a = (Inr hs, ?a)"
    using laws(3,4) est(1,2) a assms(21) result(2) up(1) per(1) body(1) e1(1) e2(1) [unfolded hello_def] per2(1)
    by (simp add: handle_direct_def on_ratchet_public_def marker_defs with_store_def app_send_queued create_sender_def sender_keys_new_def
        persist_quietly_def) (simp add: queued_def say_def)
  moreover have "sends_at P alice (w_ratchet_draw w) cid peer c 1 ?a"
    using a(1-4) chain(3) per2(2) wf cid by (simp add: sends_at_def)
  moreover have "persisted J cid ?a" using per2(4) by (simp add: persisted_def)
  ultimately show ?thesis using e1(2) body(2) e2(2) per2(3)
    by (intro exI [of _ ?a] exI [of _ ?d] exI [of _ body] exI [of _ e1] exI [of _ e2]) simp
qed

lemma step_group_key:
  assumes "w_json w = J" "from_slice J distribution_of_json body = Inr d" "ne_encrypted_payload e = MARKER_GROUP_KEY # body"
    and "app_session b = Some s" "app_peer b = Some p"
  shows "handle_event w (DirectMessage peer e) hs b = (Inr hs, say ''[responder] group key received, group ready''
    (b\<lparr>app_group := apply_group_key d (ch_peer_identity s) (app_group b)\<rparr>))"
  using assms by (simp add: handle_direct_def on_group_key_def marker_defs context_json_def)

section \<open>The whole handshake\<close>

text \<open>Where the two applications start: as \<open>start_initiator\<close> and \<open>start_responder\<close> leave them.\<close>

definition initiator_ready :: "identity_key_pair \<Rightarrow> string \<Rightarrow> peer_id \<Rightarrow> app \<Rightarrow> bool" where
  "initiator_ready alice cid peer a \<longleftrightarrow>
     app_initiator a = Some (initiator_new alice cid peer) \<and> app_session a = None \<and> app_peer a = Some peer \<and>
     ph_running (app_node a) \<and> ns_identity (app_store a) = alice \<and> ns_device_id (app_store a) = cid \<and>
     cn_faults (ns_db (app_store a)) = []"

definition responder_ready :: "prims \<Rightarrow> identity_key_pair \<Rightarrow> hybrid_kem_private_key \<Rightarrow> app \<Rightarrow> bool" where
  "responder_ready P bob k b \<longleftrightarrow>
     (\<exists>prekey. published P k prekey \<and> app_responder b = Some (responder_new bob prekey)) \<and> app_initiator b = None \<and>
     ph_running (app_node b) \<and> ns_identity (app_store b) = bob \<and> cn_faults (ns_db (app_store b)) = []"

text \<open>The part of the run that decides about the keys: from the connection to the two sessions.\<close>

lemma sessions_established:
  assumes laws: "text_laws P J" "ikp_wf alice" "ikp_wf bob" "kpriv_wf eph"
    and cid: "plain cid" "utf8 (bstr cid)"
    and a: "initiator_ready alice cid peer_b a" "room_for cid uids_a (app_store a)"
    and b: "responder_ready P bob k b" "app_peer b = Some p" "room_for cid uids_b (app_store b)"
    and ws: "\<forall>w\<in>{w1, w2, w3, w4}. w_prims w = P \<and> w_json w = J" "length d = 32" "length (w_ratchet_draw w4) = 32"
      "pd_classical (w_prekey_draws w3) = kpriv_classical eph" "pd_seed (w_prekey_draws w3) = Some (kpriv_pq eph)"
  shows "\<exists>e1 e2 e3 e4 a1 a3 b2 b4 ih chat_a ih' chat_b pub.
    handle_event w1 (PeerConnected peer_b) False a = (Inr True, a1) \<and>
    handle_event w2 (DirectMessage peer_a e1) hs b = (Inr hs, b2) \<and>
    handle_event w3 (DirectMessage peer_b e2) True a1 = (Inr True, a3) \<and>
    handle_event w4 (DirectMessage peer_a e3) hs b2 = (Inr hs, b4) \<and>
    ph_queue (app_node a3) = ph_queue (app_node a) @ map (SendDirect peer_b) [e1, e3] \<and>
    ph_queue (app_node b4) = ph_queue (app_node b) @ map (SendDirect peer_a) [e2, e4] \<and>
    app_session b4 = Some chat_b \<and> chat_wf chat_b \<and> ch_conversation_id chat_b = cid \<and> app_peer b4 = Some p \<and>
    store_open cid (app_store b4) \<and> room_for cid uids_b (app_store b4) \<and>
    ne_encrypted_payload e4 = MARKER_RATCHET_PUB # pub \<and> establish P d pub ih = (Inr chat_a, ih') \<and>
    app_initiator a3 = Some ih \<and> ih_device_id ih = cid \<and> app_peer a3 = Some peer_b \<and> ph_running (app_node a3) \<and>
    ns_identity (app_store a3) = alice \<and> ns_device_id (app_store a3) = cid \<and> cn_faults (ns_db (app_store a3)) = [] \<and>
    room_for cid uids_a (app_store a3) \<and> paired P alice bob d (w_ratchet_draw w4) chat_a chat_b \<and>
    saved J cid chat_b (app_store b4)"
proof -
  have L: "chat_laws P J" "json_nul_free J" using laws(1) by (simp_all add: text_laws_def)
  have w: "w_prims w1 = P" "w_json w1 = J" "w_prims w2 = P" "w_json w2 = J" "w_prims w3 = P" "w_json w3 = J" "w_prims w4 = P" "w_json w4 = J"
    using ws(1) by simp_all
  let ?ih = "initiator_new alice cid peer_b"
  have a': "app_initiator a = Some ?ih" "app_session a = None" "app_peer a = Some peer_b" "ph_running (app_node a)"
      "ns_identity (app_store a) = alice" "ns_device_id (app_store a) = cid" "cn_faults (ns_db (app_store a)) = []"
    using a(1) by (simp_all add: initiator_ready_def)
  obtain prekey where b': "published P k prekey" "app_responder b = Some (responder_new bob prekey)"
      "ph_running (app_node b)" "ns_identity (app_store b) = bob" "cn_faults (ns_db (app_store b)) = []"
    using b(1) by (auto simp: responder_ready_def)
  obtain e1 where e1: "handle_event w1 (PeerConnected peer_b) False a =
        (Inr True, queued peer_b e1 (say (''[net] connected to '' @ short_peer peer_b) a))"
      "ne_encrypted_payload e1 = [MARKER_BUNDLE_REQ]"
    using step_connected [OF L(1) w(1,2) laws(2) a'(1-4)] by blast
  let ?a1 = "queued peer_b e1 (say (''[net] connected to '' @ short_peer peer_b) a)"
  have ih: "ih_identity ?ih = alice" "ih_device_id ?ih = cid" "ih_peer ?ih = peer_b" by (simp_all add: initiator_new_def)
  have run: "ikp_wf (ih_identity ?ih)" "ph_running (app_node ?a1)" using laws(2) a'(4) ih(1) by simp_all
  obtain pkb bs e3 body ih1 chat_a chat_b ih2 rp2 where hs: "responder_bundle P (responder_new bob prekey) = Inr pkb"
    "to_vec J pre_key_bundle_to_json pkb = Inr bs" "from_slice J pre_key_bundle_of_json bs = Inr pkb"
    "send_prekey P J (w_now w3) (w_prekey_draws w3) pkb (?ih, app_node ?a1) =
      (Inr (), ih1, (app_node ?a1)\<lparr>ph_queue := ph_queue (app_node ?a1) @ [SendDirect peer_b e3]\<rparr>)"
    "ne_encrypted_payload e3 = MARKER_PREKEY # body"
    "on_prekey P J (w_ratchet_draw w4) body cid (responder_new bob prekey) = (Inr (x25519_base P (w_ratchet_draw w4), chat_b), rp2)"
    "establish P d (x25519_base P (w_ratchet_draw w4)) ih1 = (Inr chat_a, ih2)"
    "paired P alice bob d (w_ratchet_draw w4) chat_a chat_b"
    using handshake_ok [OF L(1) run(1) laws(3) b'(1) laws(4) run(2) ws(4,5,3), where now = "w_now w3" and conv = cid and a = d]
    unfolding ih by blast
  have "ph_queue ((app_node ?a1)\<lparr>ph_queue := ph_queue (app_node ?a1) @ [SendDirect peer_b e3]\<rparr>) =
      ph_queue (app_node ?a1) @ [SendDirect peer_b e3]" by simp
  note sent = send_prekey_result [OF hs(4) this, unfolded ih]
  obtain e2 where e2: "handle_event w2 (DirectMessage peer_a e1) hs b = (Inr hs, queued peer_a e2 b)"
      "ne_encrypted_payload e2 = MARKER_BUNDLE # bs"
    using step_bundle_request [OF L(1) w(3,4) b'(2) hs(1,2) b(2) b'(3) _ e1(2)] b'(4) laws(3) by blast
  have s: "app_initiator ?a1 = Some ?ih" "app_peer ?a1 = Some peer_b" "plain (ns_device_id (app_store ?a1))"
      "cn_faults (ns_db (app_store ?a1)) = []" "room_for (ns_device_id (app_store ?a1)) uids_a (app_store ?a1)"
    using a' a(2) cid(1) by simp_all
  obtain c where e3: "handle_event w3 (DirectMessage peer_b e2) True ?a1 =
        (Inr True, queued peer_b e3 (?a1\<lparr>app_store := (app_store a)\<lparr>ns_db := c\<rparr>, app_initiator := Some ih1\<rparr>))"
      "store_open cid ((app_store a)\<lparr>ns_db := c\<rparr>)" "room_for cid uids_a ((app_store a)\<lparr>ns_db := c\<rparr>)"
    using step_bundle [OF w(5,6) hs(3) s(1) hs(4) s(2) e2(2) s(3-5), of peer_b True] a'(6) by auto
  let ?b2 = "queued peer_a e2 b"
  have t: "app_responder ?b2 = Some (responder_new bob prekey)" "app_peer ?b2 = Some p" "ph_running (app_node ?b2)"
      "ikp_wf (ns_identity (app_store ?b2))" "cn_faults (ns_db (app_store ?b2)) = []" "room_for cid uids_b (app_store ?b2)"
    using b' b(2,3) laws(3) by simp_all
  obtain e4 c' where e4: "handle_event w4 (DirectMessage peer_a e3) hs ?b2 =
        (Inr hs, say (''[responder] session established with '' @ short_peer peer_a) (queued peer_a e4
          (?b2\<lparr>app_responder := Some rp2, app_store := (app_store ?b2)\<lparr>ns_db := c'\<rparr>, app_session := Some chat_b\<rparr>)))"
      "ne_encrypted_payload e4 = MARKER_RATCHET_PUB # x25519_base P (w_ratchet_draw w4)" "chat_wf chat_b"
      "ch_conversation_id chat_b = cid" "store_open cid ((app_store ?b2)\<lparr>ns_db := c'\<rparr>)"
      "room_for cid uids_b ((app_store ?b2)\<lparr>ns_db := c'\<rparr>)" "saved J cid chat_b ((app_store ?b2)\<lparr>ns_db := c'\<rparr>)"
    using step_prekey [OF L w(7,8) t(1) hs(6) ws(3) t(2-4) hs(5) sent(1) cid(2,1) t(5,6)] by blast
  have "cn_faults c = []" using e3(2) by (simp add: store_open_def)
  then show ?thesis
    using a' b(2) e3(3) e4(3-7) sent(3)
    by (intro exI conjI) (rule e1(1) e2(1) e3(1) e4(1) e4(2) hs(7) hs(8) | simp)+
qed

text \<open>Inputs of a loop that is still waiting come one after the other.\<close>

lemma run_loop_append:
  "run_loop xs hs a = (None, a') \<Longrightarrow> \<exists>hs'. \<forall>ys. run_loop (xs @ ys) hs a = run_loop ys hs' a'"
proof (induction xs arbitrary: hs a)
  case Nil
  then show ?case by auto
next
  case (Cons x xs)
  obtain w i where x: "x = (w, i)" by (cases x)
  have "\<exists>hs1 a1. run_loop xs hs1 a1 = (None, a') \<and> (\<forall>ys. run_loop ((x # xs) @ ys) hs a = run_loop (xs @ ys) hs1 a1)"
  proof (cases i)
    case (Line line)
    show ?thesis
    proof (cases "trim line = []")
      case True
      with Cons.prems x Line show ?thesis by auto
    next
      case False
      then have "\<exists>a1. handle_command w (trim line) a = (Inr True, a1) \<and> run_loop xs hs a1 = (None, a')"
        using Cons.prems x Line by (auto split: prod.split_asm sum.split_asm bool.split_asm)
      with False x Line show ?thesis by fastforce
    qed
  next
    case (NodeEvent event)
    then have "\<exists>hs1 a1. handle_event w event hs a = (Inr hs1, a1) \<and> run_loop xs hs1 a1 = (None, a')"
      using Cons.prems x by (auto split: prod.split_asm sum.split_asm)
    with x NodeEvent show ?thesis by fastforce
  qed (use Cons.prems x in simp_all)
  with Cons.IH show ?case by metis
qed

abbreviation from_peer :: "peer_id \<Rightarrow> world \<times> network_envelope \<Rightarrow> world \<times> app_input" where
  "from_peer peer \<equiv> \<lambda>(w, e). (w, NodeEvent (DirectMessage peer e))"

text \<open>
  The loops of both applications up to the two sessions and the key of the group: what the
  initiator sends last is its greeting, at position 0 of the chain from which the responder
  then reads.
\<close>

lemma handshake_completes:
  assumes laws: "text_laws P J" "ikp_wf alice" "ikp_wf bob" "kpriv_wf eph"
    and cid: "plain cid" "utf8 (bstr cid)" "length cid < 2 ^ 31"
    and a: "initiator_ready alice cid peer_b a" "room_for cid uids_a (app_store a)"
    and b: "responder_ready P bob k b" "room_for cid uids_b (app_store b)"
    and ws: "\<forall>w\<in>{w1, w2, w3, v1, v2, v3}. w_prims w = P \<and> w_json w = J"
      "pd_classical (w_prekey_draws w2) = kpriv_classical eph" "pd_seed (w_prekey_draws w2) = Some (kpriv_pq eph)"
      "length (w_ratchet_draw v2) = 32" "length (w_ratchet_draw w3) = 32" "length (w_chain_draw w3) = 32"
  shows "\<exists>e1 e2 e3 e4 e5 e6 a' b' c.
    run_loop ((w1, NodeEvent (PeerConnected peer_b)) # map (from_peer peer_b) [(w2, e2), (w3, e4)]) False a = (None, a') \<and>
    run_loop ((v0, NodeEvent (PeerConnected peer_a)) # map (from_peer peer_a) [(v1, e1), (v2, e3), (v3, e5)]) False b = (None, b') \<and>
    ph_queue (app_node a') = ph_queue (app_node a) @ map (SendDirect peer_b) [e1, e3, e5, e6] \<and>
    ph_queue (app_node b') = ph_queue (app_node b) @ map (SendDirect peer_a) [e2, e4] \<and>
    fresh_chain P c \<and> chat_envelope P J alice (w_ratchet_draw w3) cid c 0 (w_now w3) (hello cid) e6 \<and>
    sends_at P alice (w_ratchet_draw w3) cid peer_b c 1 a' \<and> room_for cid uids_a (app_store a') \<and>
    reads_at P alice (w_ratchet_draw w3) cid c 0 b' \<and> room_for cid uids_b (app_store b') \<and>
    persisted J cid a' \<and> reads_any P J alice (w_ratchet_draw w3) cid c {} b'"
proof -
  have L: "chat_laws P J" "json_nul_free J" using laws(1) by (simp_all add: text_laws_def)
  let ?k = "w_ratchet_draw w3"
  obtain b0 where b0: "handle_event v0 (PeerConnected peer_a) False b = (Inr False, b0)" "app_peer b0 \<noteq> None"
      "app_store b0 = app_store b" "app_responder b0 = app_responder b" "app_node b0 = app_node b" "app_initiator b0 = None"
    using b(1) by (cases "app_peer b") (simp_all add: on_connected_def responder_ready_def Let_def)
  then obtain p where p: "app_peer b0 = Some p" by auto
  have b0': "responder_ready P bob k b0" "room_for cid uids_b (app_store b0)"
    using b b0 by (simp_all add: responder_ready_def)
  have w4: "\<forall>w\<in>{w1, v1, w2, v2}. w_prims w = P \<and> w_json w = J" and w: "w_prims w3 = P" "w_json w3 = J" "w_json v3 = J"
    using ws(1) by simp_all
  obtain e1 e2 e3 e4 a1 a3 b2 b4 ih chat_a ih' chat_b pub where s:
    "handle_event w1 (PeerConnected peer_b) False a = (Inr True, a1)"
    "handle_event v1 (DirectMessage peer_a e1) False b0 = (Inr False, b2)"
    "handle_event w2 (DirectMessage peer_b e2) True a1 = (Inr True, a3)"
    "handle_event v2 (DirectMessage peer_a e3) False b2 = (Inr False, b4)"
    "ph_queue (app_node a3) = ph_queue (app_node a) @ map (SendDirect peer_b) [e1, e3]"
    "ph_queue (app_node b4) = ph_queue (app_node b0) @ map (SendDirect peer_a) [e2, e4]"
    "app_session b4 = Some chat_b" "chat_wf chat_b" "ch_conversation_id chat_b = cid" "app_peer b4 = Some p"
    "store_open cid (app_store b4)" "room_for cid uids_b (app_store b4)"
    "ne_encrypted_payload e4 = MARKER_RATCHET_PUB # pub" "establish P ?k pub ih = (Inr chat_a, ih')"
    "app_initiator a3 = Some ih" "ih_device_id ih = cid" "app_peer a3 = Some peer_b" "ph_running (app_node a3)"
    "ns_identity (app_store a3) = alice" "ns_device_id (app_store a3) = cid" "cn_faults (ns_db (app_store a3)) = []"
    "room_for cid uids_a (app_store a3)" "paired P alice bob ?k (w_ratchet_draw v2) chat_a chat_b" "saved J cid chat_b (app_store b4)"
    using sessions_established [OF laws cid(1,2) a b0'(1) p b0'(2) w4 ws(5,4,2,3), of peer_a False] by blast
  obtain c r where c: "fresh_chain P c" "rc_chain_key (dr_sending_chain (ch_ratchet chat_a)) = Some (link P c 0)"
      "rc_our_ratchet_key (dr_sending_chain (ch_ratchet chat_a)) = Some ?k" "known_ratchet (ch_ratchet chat_b) = None"
      "dr_dh_ratchet P (x25519_base P ?k) (ch_ratchet chat_b) = (Inr (), r)"
      "known_ratchet r = Some (x25519_base P ?k)" "tracks P c (0, []) r"
    using paired_chain [OF L(1) s(23)] by blast
  have peers: "ch_peer_identity chat_b = identity_public P alice" "ch_peer_identity chat_a = identity_public P bob"
    using s(23) by (simp_all add: paired_def)
  have "chat_wf chat_a"
    using establish_wf [OF chat_lawsD(5) [OF L(1)] ws(5) s(14)] establish_result(3) [OF s(14)] peers(2)
      identity_public_wf [OF chat_lawsD(1) [OF L(1)] laws(3)] by simp
  then obtain a' d body e5 e6 where f: "handle_event w3 (DirectMessage peer_b e4) True a3 = (Inr True, a')"
      "ph_queue (app_node a') = ph_queue (app_node a3) @ [SendDirect peer_b e5, SendDirect peer_b e6]"
      "ne_encrypted_payload e5 = MARKER_GROUP_KEY # body" "from_slice J distribution_of_json body = Inr d"
      "chat_envelope P J alice ?k cid c 0 (w_now w3) (hello cid) e6"
      "sends_at P alice ?k cid peer_b c 1 a'" "room_for cid uids_a (app_store a')" "persisted J cid a'"
    using step_ratchet_public [OF L w(1,2) s(15,14) _ c(1-3) ws(5,6) s(17-20) laws(2) s(16) cid(1,3) s(13,21,22)] by blast
  note g = step_group_key [OF w(3) f(4,3) s(7,10), of peer_a False]
  let ?b = "say ''[responder] group key received, group ready'' (b4\<lparr>app_group := apply_group_key d (ch_peer_identity chat_b) (app_group b4)\<rparr>)"
  have "reads_at P alice ?k cid c 0 ?b"
    using s(7-9,11) c(4-7) peers(1) by (simp add: reads_at_def store_open_def)
  moreover have "reads_session P alice ?k c {} chat_b"
    using c(4-7) peers(1) window_fair_init by (auto simp: reads_session_def intro!: exI [of _ 0] exI [of _ "[]"])
  then have "reads_any P J alice ?k cid c {} ?b" using s(7,24) by (auto simp: reads_any_def)
  moreover have "run_loop ((w1, NodeEvent (PeerConnected peer_b)) # map (from_peer peer_b) [(w2, e2), (w3, e4)]) False a = (None, a')"
    using s(1,3) f(1) by simp
  moreover have "run_loop ((v0, NodeEvent (PeerConnected peer_a)) # map (from_peer peer_a) [(v1, e1), (v2, e3), (v3, e5)]) False b = (None, ?b)"
    using b0(1) s(2,4) g by simp
  ultimately show ?thesis using c(1) f(2,5-8) s(5,6,12) b0(5) by fastforce
qed

text \<open>The greeting, which the responder reads like any chat message, and the lines after it.\<close>

lemma greeting_read:
  assumes "text_laws P J" "w_prims w = P" "w_json w = J" "fresh_chain P c" "plain cid" "utf8 (bstr cid)"
    and "reads_at P alice k cid c n b" "room_for cid (message_id_bytes (w_message_nonce w) (clock_u64 now) # uids) (app_store b)"
    and "chat_envelope P J alice k cid c n now m e" "n < 2 ^ 64" "unmarked e"
  shows "\<exists>b'. handle_direct w sender e b = (Inr (), b') \<and> app_node b' = app_node b \<and> reads_at P alice k cid c (Suc n) b' \<and>
    room_for cid uids (app_store b')"
proof -
  let ?b = "if app_peer b = None then b\<lparr>app_peer := Some sender\<rparr> else b"
  have b: "reads_at P alice k cid c n ?b" "app_node ?b = app_node b"
      "room_for cid (message_id_bytes (w_message_nonce w) (clock_u64 now) # uids) (app_store ?b)"
    using assms(7,8) by (simp_all add: reads_at_def)
  then show ?thesis
    using on_chat_message_ok [OF assms(1-6) b(1,3) assms(9,10), of sender] handle_direct_unmarked [OF assms(11), of w sender b] by auto
qed

lemma greeting_and_lines_read:
  assumes laws: "text_laws P J" "fresh_chain P c" "plain cid" "utf8 (bstr cid)"
    and e: "chat_envelope P J alice k cid c 0 now m e" "chat_stream P J alice k cid c 1 typed es" "\<forall>e'\<in>set (e # es). unmarked e'"
    and ws: "\<forall>w\<in>set (v # vs). w_prims w = P \<and> w_json w = J" "length vs = length typed"
    and typed: "\<forall>(w, line)\<in>set typed. chat_line line" "Suc (length typed) \<le> 2 ^ 64"
    and b: "reads_at P alice k cid c 0 b"
      "room_for cid (message_id_bytes (w_message_nonce v) (clock_u64 now) # received_ids typed vs) (app_store b)"
  shows "\<exists>b' printed. run_loop ((v, NodeEvent (DirectMessage sender e)) # message_inputs sender vs es) hs b = (None, b') \<and>
    app_node b' = app_node b \<and>
    app_output b' = printed @ map (\<lambda>(w, line). ''[1:1] '' @ short_peer sender @ '': '' @ trim line) typed"
proof -
  have v: "w_prims v = P" "w_json v = J" and u: "unmarked e" using ws(1) e(3) by simp_all
  obtain b2 where b2: "handle_direct v sender e b = (Inr (), b2)" "app_node b2 = app_node b"
      "reads_at P alice k cid c 1 b2" "room_for cid (received_ids typed vs) (app_store b2)"
    using greeting_read [OF laws(1) v laws(2-4) b e(1) _ u] by auto
  have "\<exists>b'. run_loop (message_inputs sender vs es) hs b2 = (None, b') \<and>
      app_output b' = app_output b2 @ map (\<lambda>(w, line). ''[1:1] '' @ short_peer sender @ '': '' @ trim line) typed \<and>
      app_node b' = app_node b2 \<and> reads_at P alice k cid c (1 + length typed) b'"
    using e(3) typed ws by (intro lines_received [OF laws e(2) _ _ _ _ _ b2(3,4)]) auto
  with b2(1,2) show ?thesis by auto
qed

section \<open>A sample pair\<close>

definition sample_world :: "byte \<Rightarrow> u32 \<Rightarrow> world" where
  "sample_world r nonce =
     \<lparr>w_prims = sample_prims, w_json = sample_json, w_engine = sample_engine, w_now = 10,
      w_ratchet_draw = replicate 32 r, w_prekey_draws = sample_draws, w_chain_draw = replicate 32 9,
      w_message_nonce = nonce, w_hex = (\<lambda>_. []), w_peer_id = [], w_pretty = (\<lambda>_. Inr []), w_show_addr = (\<lambda>_. []),
      w_debug_addrs = (\<lambda>_. []), w_parse_addr = (\<lambda>_. None), w_show_error = (\<lambda>_. [])\<rparr>"

definition sample_initiator_app :: app where
  "sample_initiator_app = sample_app\<lparr>app_store := sample_store\<lparr>ns_identity := sample_identity 1, ns_device_id := ''dev-a''\<rparr>,
     app_initiator := Some (initiator_new (sample_identity 1) ''dev-a'' ''peer-b''), app_peer := Some ''peer-b''\<rparr>"

definition sample_responder_app :: "prekey_material \<Rightarrow> app" where
  "sample_responder_app prekey = sample_app\<lparr>app_initiator := None, app_responder := Some (responder_new (sample_identity 2) prekey)\<rparr>"

lemma sample_pair_ready:
  assumes "published sample_prims (sample_kem 3) prekey"
  shows "initiator_ready (sample_identity 1) ''dev-a'' ''peer-b'' sample_initiator_app"
    "responder_ready sample_prims (sample_identity 2) (sample_kem 3) (sample_responder_app prekey)"
  using assms
  by (auto simp: initiator_ready_def responder_ready_def sample_initiator_app_def sample_responder_app_def sample_app_def
      sample_store_def sample_chat_db_def sample_db_def)

lemma sample_text_laws: "text_laws sample_prims sample_json"
  by (simp add: text_laws_def sample_chat_laws sample_json_nul_free sample_json_utf8)

text \<open>Under the sample primitives no payload looks like a handshake message.\<close>

lemma sample_unmarked:
  assumes "sealed_payload sample_prims e"
  shows "unmarked e"
proof -
  have fields: "chacha_seal sample_prims k n a m = Some (k @ n @ a @ m)"
      "hmac sample_prims k d = Some (pad 32 (word_of_nat (length d) # k))" for k n a m d
    by (simp_all add: sample_prims_def)
  obtain ck mk nonce ad m where "chain_message_key sample_prims ck = Inr mk"
      "ne_encrypted_payload e = mk_key mk @ nonce @ ad @ m"
    using assms unfolding sealed_payload_def fields option.inject by metis
  moreover from this(1) have "\<exists>r. mk_key mk = 21 # r"
    by (auto simp: chain_message_key_def hmac_sha256_def fields pad_def MESSAGE_KEY_INFO_def result_simps)
  ultimately show ?thesis by (auto simp: unmarked_def marker_defs)
qed

text \<open>Text between two visible ASCII characters is not trimmed.\<close>

definition visible :: "char \<Rightarrow> bool" where
  "visible c \<longleftrightarrow> 33 \<le> (of_char c :: nat) \<and> (of_char c :: nat) < 128"

lemma white_space_invisible: "p \<in> set white_space \<Longrightarrow> p \<noteq> [] \<and> \<not> visible (hd p) \<and> \<not> visible (last p)"
  by (auto simp: white_space_def visible_def)

lemma strip_any_none: "\<forall>p\<in>set ps. p \<noteq> [] \<and> hd p \<noteq> c \<Longrightarrow> strip_any ps (c # s) = None"
  by (induction ps) (auto simp: strip_prefix_def neq_Nil_conv)

lemma trim_visible:
  assumes "s \<noteq> []" "visible (hd s)" "visible (last s)"
  shows "trim s = s"
proof -
  have start: "trim_start n ps (c # r) = c # r" if "\<forall>p\<in>set ps. p \<noteq> [] \<and> hd p \<noteq> c" for n ps c r
    using strip_any_none [OF that, of r] by (cases n) simp_all
  obtain c r where s: "s = c # r" using assms(1) by (cases s) auto
  have "trim_start (length s) white_space s = s"
    unfolding s using white_space_invisible assms(2) s by (intro start) auto
  moreover obtain d t where t: "rev s = d # t" "visible d" using assms(1,3) by (cases "rev s") (auto simp: last_rev hd_rev [symmetric] dest: sym)
  then have "trim_start n (map rev white_space) (d # t) = d # t" for n
    using white_space_invisible by (intro start) (auto simp: hd_rev)
  ultimately show ?thesis using t(1) by (simp add: trim_def Let_def)
qed

lemma sample_lines:
  "trim ''hi'' = ''hi''" "trim ''there'' = ''there''" "chat_line ''hi''" "chat_line ''there''"
proof -
  show t: "trim ''hi'' = ''hi''" "trim ''there'' = ''there''" by (rule trim_visible; simp add: visible_def)+
  show "chat_line ''hi''" "chat_line ''there''" by (simp_all add: chat_line_def t strip_prefix_def) code_simp+
qed

lemma sample_world_simps:
  "w_prims (sample_world r n) = sample_prims" "w_json (sample_world r n) = sample_json"
  "w_ratchet_draw (sample_world r n) = replicate 32 r" "w_chain_draw (sample_world r n) = replicate 32 9"
  "w_prekey_draws (sample_world r n) = sample_draws" "w_message_nonce (sample_world r n) = n" "w_now (sample_world r n) = 10"
  by (simp_all add: sample_world_def)

lemma sample_room:
  assumes "distinct uids" "length uids < 9"
  shows "room_for cid uids (app_store sample_initiator_app)" "room_for cid uids (app_store (sample_responder_app prekey))"
  using assms by (simp_all add: room_for_def sample_initiator_app_def sample_responder_app_def sample_app_def sample_store_def
      sample_chat_db_def sample_db_def migrated_tables_def empty_tables_def MAX_ROWID_def Let_def)

lemma u32_first_byte: "u32_to_le_bytes w = word_of_nat (unat w) # le_bytes 3 (unat w div 256)"
  using le_bytes.simps(2) [of 3 "unat w"] by (simp add: u32_to_le_bytes_def)

end
