(* ===== verification/App_Invariant.thy ===== *)
theory App_Invariant
  imports Handshake "HOL-Library.Sublist"
begin

text \<open>
  What the application keeps whatever it is told: an invariant of its state and an order on
  its states, for every handler, for the loop over arbitrary lines and events and for the whole
  run of \<open>demo_main\<close>. The peer, the order of its messages and the faults of the database are not
  restricted.
\<close>

section \<open>Interface: states that evolve\<close>

definition evolves :: "('s \<Rightarrow> bool) \<Rightarrow> ('s \<Rightarrow> 's \<Rightarrow> bool) \<Rightarrow> 's \<Rightarrow> 's \<Rightarrow> bool" where
  "evolves ok ext s s' \<longleftrightarrow> (ok s \<longrightarrow> ok s' \<and> ext s s')"

locale evolution =
  fixes ok :: "'s \<Rightarrow> bool"
    and ext :: "'s \<Rightarrow> 's \<Rightarrow> bool"
  assumes ext_refl: "ext s s"
    and ext_trans: "ext s t \<Longrightarrow> ext t u \<Longrightarrow> ext s u"
begin

lemma evolves_refl: "evolves ok ext s s"
  by (simp add: evolves_def ext_refl)

lemma evolves_trans: "evolves ok ext s t \<Longrightarrow> (ok t \<Longrightarrow> evolves ok ext t u) \<Longrightarrow> evolves ok ext s u"
  by (auto simp: evolves_def intro: ext_trans)

lemma evolves_try:
  assumes "evolves ok ext s t" "\<And>x. r = Inr x \<Longrightarrow> evolves ok ext s (snd (f x))"
  shows "evolves ok ext s (snd (try_st r t f))"
  using assms by (cases r) auto

lemma evolves_then:
  assumes "evolves ok ext s (snd p)" "\<And>x t. p = (Inr x, t) \<Longrightarrow> ok t \<Longrightarrow> evolves ok ext t (snd (f x t))"
  shows "evolves ok ext s (snd (then_st p f))"
proof (cases p)
  case (Pair r t)
  with assms show ?thesis by (cases r) (auto intro: evolves_trans)
qed

lemma evolves_ok: "(ok s \<Longrightarrow> evolves ok ext s t) \<Longrightarrow> evolves ok ext s t"
  by (auto simp: evolves_def)

lemma evolves_run:
  assumes "\<And>x s. evolves ok ext s (f x s)"
  shows "evolves ok ext s (fold f xs s)"
proof (induction xs arbitrary: s)
  case (Cons x xs)
  show ?case using evolves_trans [OF assms [of s x] Cons.IH [of "f x s"]] by simp
qed (simp add: evolves_refl)

end

section \<open>The history in the database\<close>

text \<open>A stored message without its status, which is the one column that changes.\<close>

definition settled :: "int \<times> row \<Rightarrow> int \<times> row" where
  "settled e = (fst e, (snd e)[8 := PNull])"

definition history_grows :: "tables \<Rightarrow> tables \<Rightarrow> bool" where
  "history_grows t t' \<longleftrightarrow>
     prefix (map settled (t_messages t)) (map settled (t_messages t')) \<and>
     prefix (map fst (t_conversations t)) (map fst (t_conversations t')) \<and>
     prefix (map fst (t_sessions t)) (map fst (t_sessions t')) \<and>
     t_identity t' = t_identity t \<and> t_prekeys t' = t_prekeys t \<and> t_message_seq t \<le> t_message_seq t' \<and>
     t_user_version t' = t_user_version t"

definition db_ok :: "db \<Rightarrow> bool" where
  "db_ok c \<longleftrightarrow> conn_wf c \<and> cn_saved c = None"

definition db_ext :: "db \<Rightarrow> db \<Rightarrow> bool" where
  "db_ext c c' \<longleftrightarrow> history_grows (cn_tables c) (cn_tables c')"

interpretation db_evolution: evolution db_ok db_ext
  by unfold_locales (auto simp: db_ext_def history_grows_def intro: prefix_order.trans)

definition keeps_history :: "tables statement \<Rightarrow> bool" where
  "keeps_history stmt \<longleftrightarrow> (\<forall>ps t. history_grows t (snd (snd (stmt ps t))))"

lemma history_refl [simp]: "history_grows t t"
  by (simp add: history_grows_def)

lemma prefix_upsert: "prefix (map fst t) (map fst (tbl_upsert k r upd t))"
  by (simp add: keys_upsert_list)

lemma stmt_upsert_conversation_history: "keeps_history stmt_upsert_conversation"
  unfolding keeps_history_def
proof (intro allI)
  show "history_grows t (snd (snd (stmt_upsert_conversation ps t)))" for ps t
    by (cases "(ps, t)" rule: stmt_upsert_conversation.cases) (simp_all add: history_grows_def prefix_upsert)
qed

lemma stmt_save_session_history: "keeps_history stmt_save_session"
  unfolding keeps_history_def
proof (intro allI)
  show "history_grows t (snd (snd (stmt_save_session ps t)))" for ps t
    by (cases "(ps, t)" rule: stmt_save_session.cases) (simp_all add: history_grows_def prefix_upsert)
qed

lemma stmt_insert_message_history: "keeps_history stmt_insert_message"
  unfolding keeps_history_def
proof (intro allI)
  show "history_grows t (snd (snd (stmt_insert_message ps t)))" for ps t
    by (cases "(ps, t)" rule: stmt_insert_message.cases) (simp_all add: history_grows_def Let_def)
qed

lemma stmt_update_status_history: "keeps_history stmt_update_status"
  unfolding keeps_history_def
proof (intro allI)
  have "settled \<circ> (\<lambda>e. if fst e = rid then (rid, (snd e)[8 := status]) else e) = settled" for rid status
    by (auto simp: settled_def)
  then show "history_grows t (snd (snd (stmt_update_status ps t)))" for ps t
    by (cases "(ps, t)" rule: stmt_update_status.cases) (simp_all add: history_grows_def)
qed

lemma stmt_queries_history: "keeps_history stmt_load_session" "keeps_history stmt_list_messages"
  "keeps_integrity stmt_load_session" "keeps_integrity stmt_list_messages"
proof -
  have l: "snd (snd (stmt_load_session ps t)) = t" for ps t
    by (cases "(ps, t)" rule: stmt_load_session.cases) simp_all
  have m: "snd (snd (stmt_list_messages ps t)) = t" for ps t
    by (cases "(ps, t)" rule: stmt_list_messages.cases) simp_all
  show "keeps_history stmt_load_session" "keeps_history stmt_list_messages" by (simp_all add: keeps_history_def l m)
  show "keeps_integrity stmt_load_session" "keeps_integrity stmt_list_messages" by (rule keepsI, simp add: l m)+
qed

lemmas statement_history = stmt_upsert_conversation_history stmt_save_session_history stmt_insert_message_history
  stmt_update_status_history stmt_queries_history

lemma run_statement_evolves:
  assumes "keeps_integrity stmt" "keeps_history stmt"
  shows "evolves db_ok db_ext c (snd (run_statement stmt ps c))"
proof -
  obtain r c' where r: "run_statement stmt ps c = (r, c')" by (cases "run_statement stmt ps c")
  have "history_grows (cn_tables c) (cn_tables c')" if "cn_saved c = None"
    using run_statement_tables [OF r] that assms(2) unfolding keeps_history_def
    by (metis history_refl option.distinct(1) snd_conv)
  moreover have "cn_saved c' = None" if "cn_saved c = None" using saved_closed(1) [OF that, of stmt ps] by (simp add: r)
  ultimately show ?thesis
    using run_statement_wf [OF assms(1) _ r] by (simp add: evolves_def db_ok_def db_ext_def r)
qed

lemma run_db_evolves:
  assumes "keeps_integrity stmt" "keeps_history stmt"
  shows "evolves db_ok db_ext c (snd (run_db stmt ps c))"
proof -
  have "evolves db_ok db_ext c (snd (execute stmt ps c))"
    unfolding execute_def using run_statement_evolves [OF assms]
    by (intro db_evolution.evolves_then) (auto intro!: db_evolution.evolves_try db_evolution.evolves_refl)
  then show ?thesis
    unfolding run_db_def by (intro db_evolution.evolves_then) (simp_all add: db_evolution.evolves_refl)
qed

lemma upsert_conversation_evolves: "evolves db_ok db_ext c (snd (upsert_conversation r c))"
  unfolding upsert_conversation_def by (rule run_db_evolves [OF stmt_upsert_conversation_wf stmt_upsert_conversation_history])

lemma save_session_evolves: "evolves db_ok db_ext c (snd (save_session J cid state c))"
  unfolding save_session_def
  by (intro db_evolution.evolves_try db_evolution.evolves_refl run_db_evolves [OF stmt_save_session_wf stmt_save_session_history])

lemma insert_message_evolves: "evolves db_ok db_ext c (snd (insert_message r c))"
  unfolding insert_message_def
  by (intro db_evolution.evolves_then run_db_evolves [OF stmt_insert_message_wf stmt_insert_message_history])
    (simp add: db_evolution.evolves_refl)

lemma update_message_status_evolves: "evolves db_ok db_ext c (snd (update_message_status rid status c))"
  unfolding update_message_status_def by (rule run_db_evolves [OF stmt_update_status_wf stmt_update_status_history])

lemma load_session_evolves: "evolves db_ok db_ext c (snd (load_session E J cid c))"
proof -
  have "evolves db_ok db_ext c (snd (query_row stmt_load_session ps f c))" for ps and f :: "row \<Rightarrow> 'a sql_result"
    unfolding query_row_def using run_statement_evolves [OF stmt_queries_history(3,1)]
    by (intro db_evolution.evolves_then)
      (auto intro!: db_evolution.evolves_try db_evolution.evolves_refl split: option.split)
  then show ?thesis
    unfolding load_session_def by (intro db_evolution.evolves_then) (simp_all add: db_evolution.evolves_refl)
qed

lemma list_messages_evolves: "evolves db_ok db_ext c (snd (list_messages E cid b n c))"
  unfolding list_messages_def query_rows_def using run_statement_evolves [OF stmt_queries_history(4,2)]
  by (auto intro!: db_evolution.evolves_then intro: db_evolution.evolves_refl)

section \<open>The store\<close>

definition store_ok :: "node_store \<Rightarrow> bool" where
  "store_ok s \<longleftrightarrow> db_ok (ns_db s)"

definition store_ext :: "node_store \<Rightarrow> node_store \<Rightarrow> bool" where
  "store_ext s s' \<longleftrightarrow> db_ext (ns_db s) (ns_db s') \<and> ns_identity s' = ns_identity s \<and> ns_device_id s' = ns_device_id s \<and>
     fs_directory (ns_fs s') = fs_directory (ns_fs s) \<and> fs_readable (ns_fs s') = fs_readable (ns_fs s) \<and> fs_files (ns_fs s') ''db.salt'' = fs_files (ns_fs s) ''db.salt'' \<and>
     (is_ok (fs_read_string ''bundle.json'' (ns_fs s)) \<longrightarrow> ns_fs s' = ns_fs s)"

interpretation store_evolution: evolution store_ok store_ext
  by unfold_locales (auto simp: store_ext_def intro: db_evolution.ext_refl db_evolution.ext_trans)

abbreviation store_evolves :: "node_store \<Rightarrow> node_store \<Rightarrow> bool" where
  "store_evolves \<equiv> evolves store_ok store_ext"

lemma on_db_evolves:
  "evolves db_ok db_ext (ns_db s) (snd (f (ns_db s))) \<Longrightarrow> store_evolves s (snd (on_db f msg s))"
  by (auto simp: evolves_def store_ok_def store_ext_def on_db_def split: prod.splits)

lemma store_ops_evolve:
  "store_evolves s (snd (store_upsert_conversation now cid peer is_group s))"
  "store_evolves s (snd (store_insert_message now cid mid sender ct header dir s))"
  "store_evolves s (snd (store_update_message_status rid status s))"
  "store_evolves s (snd (chat_persist J now chat s))"
  "store_evolves s (snd (store_load_session E J cid s))"
  by (simp_all add: store_upsert_conversation_def store_insert_message_def store_update_message_status_def
      chat_persist_def store_save_session_def store_load_session_def on_db_evolves upsert_conversation_evolves
      insert_message_evolves update_message_status_evolves save_session_evolves load_session_evolves)

lemma print_history_evolves: "store_evolves s (snd (print_history E cid s))"
  unfolding print_history_def
  by (intro store_evolution.evolves_then on_db_evolves list_messages_evolves) (simp add: store_evolution.evolves_refl)

lemma resume_evolves: "store_evolves s (snd (resume E J cid s))"
  unfolding resume_def
  by (intro store_evolution.evolves_then store_ops_evolve)
    (auto intro!: store_evolution.evolves_try store_evolution.evolves_refl split: option.split)

text \<open>The prekey is a file beside the database, which is written when it cannot be read.\<close>

lemma store_prekey_evolves: "store_evolves s (snd (store_prekey P J pretty cd seed now s))"
proof (cases "fs_read_string ''bundle.json'' (ns_fs s)")
  case (Inl e)
  have "store_evolves s (s\<lparr>ns_fs := f\<rparr>)" if "fs_write ''bundle.json'' bs (ns_fs s) = (r, f)" for bs r f
    using that Inl by (auto simp: evolves_def store_ok_def store_ext_def db_evolution.ext_refl fs_write_def split: write_answer.splits)
  with Inl show ?thesis
    by (auto simp: store_prekey_def store_evolution.evolves_refl split: sum.split prod.split
        intro!: store_evolution.evolves_try)
qed (simp add: store_prekey_def store_evolution.evolves_refl)

text \<open>What is resumed has the lengths of its types, whatever is in the database.\<close>

lemma transpose_opt_Some: "transpose_opt f x = Inr (Some y) \<Longrightarrow> \<exists>z. x = Some z \<and> f z = Inr y"
  by (cases x) (auto simp: result_simps)

lemma session_from_text_wf:
  assumes "session_from_text J row = Inr st"
  shows "ss_wf st"
proof -
  obtain i keys snapshot t where row: "row = (i, keys, snapshot, t)" by (cases row)
  have "rs_wf r" if "ss_ratchet st = Some r" for r
    using assms that by (auto simp: session_from_text_def row result_simps dest!: transpose_opt_Some rs_strict.from_str_valid)
  with assms show ?thesis
    by (auto simp: session_from_text_def row result_simps ss_wf_def split: option.split dest!: sk_strict.from_str_valid)
qed

lemma load_session_wf: "load_session E J cid c = (Inr (Some st), c') \<Longrightarrow> ss_wf st"
  by (auto simp: load_session_def split: st_splits_asm dest!: transpose_opt_Some session_from_text_wf)

lemma resume_chat_wf:
  assumes "resume E J cid s = (Inr (Some chat), s')"
  shows "chat_wf chat"
proof -
  obtain st snapshot r where st: "load_session E J cid (ns_db s) = (Inr (Some st), ns_db s')"
      and r: "ss_ratchet st = Some snapshot" "to_ratchet snapshot SESSION_ID [] = Inr r"
      and chat: "ch_ratchet chat = r" "ch_session_keys chat = ss_session_keys st"
        "ch_peer_identity chat = sk_peer_identity (ss_session_keys st)"
    using assms
    by (auto simp: resume_def store_load_session_def on_db_def context_storage_def rebuild_ratchet_def result_simps
        split: st_splits_asm option.splits prod.splits)
  have wf: "ss_wf st" by (rule load_session_wf [OF st])
  then have "rs_wf (from_ratchet r)" using r(1) from_ratchet_to [OF r(2)] by (simp add: ss_wf_def)
  then have "dr_wf r" by (simp add: rs_wf_def from_ratchet_def dr_wf_def rc_wf_def)
  moreover have "dr_session_id r = SESSION_ID" "dr_associated_data r = []"
    using r(2) by (auto simp: to_ratchet_def result_simps)
  ultimately show ?thesis using wf by (simp add: chat_wf_def chat ss_wf_def)
qed

section \<open>The application\<close>

definition keys_ok :: "group_chat \<Rightarrow> sender_keys option \<Rightarrow> bool" where
  "keys_ok g k \<longleftrightarrow> pred_option (\<lambda>s. length (snd_chain_key s) = CHAIN_KEY_SIZE \<and> snd_group_id s = gc_group_id g) k"

definition group_ok :: "group_chat \<Rightarrow> bool" where
  "group_ok g \<longleftrightarrow> keys_ok g (gc_sender g) \<and> keys_ok g (gc_receiver g) \<and> pred_option ipk_wf (gc_peer_identity g)"

definition initiator_ok :: "initiator_handshake \<Rightarrow> bool" where
  "initiator_ok ih \<longleftrightarrow> pred_option ipk_wf (ih_peer_identity ih)"

definition app_ok :: "app \<Rightarrow> bool" where
  "app_ok a \<longleftrightarrow> store_ok (app_store a) \<and> pred_option chat_wf (app_session a) \<and>
     pred_option initiator_ok (app_initiator a) \<and> group_ok (app_group a)"

text \<open>
  The order: the identity and the group stay, what was printed, queued and stored stays, a
  session and a remote peer, once there, do not go away, and the node is never told to stop.
\<close>

definition group_same :: "group_chat \<Rightarrow> group_chat \<Rightarrow> bool" where
  "group_same g g' \<longleftrightarrow> gc_topic g' = gc_topic g \<and> gc_group_id g' = gc_group_id g \<and> gc_conversation_id g' = gc_conversation_id g"

definition handle_ext :: "p2p_handle \<Rightarrow> p2p_handle \<Rightarrow> bool" where
  "handle_ext h h' \<longleftrightarrow> ph_running h' = ph_running h \<and> prefix (ph_queue h) (ph_queue h') \<and>
     (Shutdown \<in> set (ph_queue h') \<longrightarrow> Shutdown \<in> set (ph_queue h))"

definition app_ext :: "app \<Rightarrow> app \<Rightarrow> bool" where
  "app_ext a a' \<longleftrightarrow> store_ext (app_store a) (app_store a') \<and> handle_ext (app_node a) (app_node a') \<and>
     group_same (app_group a) (app_group a') \<and> prefix (app_output a) (app_output a') \<and>
     (app_session a \<noteq> None \<longrightarrow> app_session a' \<noteq> None) \<and> (app_peer a \<noteq> None \<longrightarrow> app_peer a' = app_peer a)"

lemma handle_ext_refl [simp]: "handle_ext h h"
  by (simp add: handle_ext_def)

lemma group_same_refl [simp]: "group_same g g"
  by (simp add: group_same_def)

interpretation app_evolution: evolution app_ok app_ext
proof
  show "app_ext s s" for s by (simp add: app_ext_def store_evolution.ext_refl)
  show "app_ext s u" if "app_ext s t" "app_ext t u" for s t u
    using that unfolding app_ext_def handle_ext_def group_same_def
    by (auto intro: store_evolution.ext_trans prefix_order.trans)
qed

abbreviation app_evolves :: "app \<Rightarrow> app \<Rightarrow> bool" where
  "app_evolves \<equiv> evolves app_ok app_ext"

lemmas app_defs = app_ok_def app_ext_def store_evolution.ext_refl

lemma with_store_evolves:
  "store_evolves (app_store a) (snd (f (app_store a))) \<Longrightarrow> app_evolves a (snd (with_store f a))"
  by (auto simp: evolves_def app_defs with_store_def split: prod.splits)

text \<open>The single updates of the handlers.\<close>

lemma set_session_evolves: "chat_wf s \<Longrightarrow> app_evolves a (a\<lparr>app_session := Some s\<rparr>)"
  by (simp add: evolves_def app_defs)

lemma set_initiator_evolves: "initiator_ok ih \<Longrightarrow> app_evolves a (a\<lparr>app_initiator := Some ih\<rparr>)"
  by (simp add: evolves_def app_defs)

lemma set_responder_evolves: "app_evolves a (a\<lparr>app_responder := rp\<rparr>)"
  by (simp add: evolves_def app_defs)

lemma set_outgoing_evolves: "app_evolves a (a\<lparr>app_last_outgoing := r\<rparr>)"
  by (simp add: evolves_def app_defs)

lemma set_peer_evolves: "app_peer a = None \<Longrightarrow> app_evolves a (a\<lparr>app_peer := p\<rparr>)"
  by (simp add: evolves_def app_defs)

lemma set_group_evolves: "group_ok g \<Longrightarrow> group_same (app_group a) g \<Longrightarrow> app_evolves a (a\<lparr>app_group := g\<rparr>)"
  by (simp add: evolves_def app_defs)

lemma set_node_evolves: "handle_ext (app_node a) h \<Longrightarrow> app_evolves a (a\<lparr>app_node := h\<rparr>)"
  by (simp add: evolves_def app_defs)

lemma say_evolves: "app_evolves a (say l a)" "app_evolves a (print_all ls a)"
  by (simp_all add: evolves_def app_defs say_def print_all_def)

lemma say_after: "app_evolves a b \<Longrightarrow> app_evolves a (say l b)"
  by (erule app_evolution.evolves_trans) (rule say_evolves)

definition world_ok :: "world \<Rightarrow> bool" where
  "world_ok w \<longleftrightarrow> hkdf_law (w_prims w) \<and> hmac_law (w_prims w) \<and> length (w_ratchet_draw w) = 32 \<and>
     length (w_chain_draw w) = CHAIN_KEY_SIZE"

section \<open>Handlers\<close>

lemma send_direct_prefix:
  "send_direct running peer e q = (r, q') \<Longrightarrow> prefix q q' \<and> (Shutdown \<in> set q' \<longrightarrow> Shutdown \<in> set q)"
  by (auto simp: send_direct_def send_control_def split: if_splits)

lemma app_send_evolves: "app_evolves a (snd (app_send peer e a))"
  by (auto simp: app_send_def handle_ext_def split: prod.split intro!: set_node_evolves dest: send_direct_prefix)

lemma handle_send_ext: "handle_send msg peer e h = (r, h') \<Longrightarrow> handle_ext h h'"
  by (auto simp: handle_send_def handle_ext_def split: prod.splits dest: send_direct_prefix)

lemma persist_quietly_evolves: "app_evolves a (persist_quietly w a)"
  by (auto simp: persist_quietly_def app_evolution.evolves_refl split: option.split
      intro!: with_store_evolves store_ops_evolve)

lemma on_bundle_request_evolves: "app_evolves a (snd (on_bundle_request w sender a))"
  unfolding on_bundle_request_def
  by (intro app_evolution.evolves_try app_evolution.evolves_refl app_send_evolves)

lemma send_prekey_frame:
  assumes "send_prekey P J now draws bundle (ih, h) = (r, ih', h')"
  shows "handle_ext h h' \<and> (ih_peer_identity ih' = ih_peer_identity ih \<or> ih_peer_identity ih' = Some (pkb_identity_key bundle))"
  using assms by (auto simp: send_prekey_def Let_def split: st_splits_asm prod.splits dest: handle_send_ext)

lemma on_bundle_evolves: "app_evolves a (snd (on_bundle w body a))"
proof (rule app_evolution.evolves_ok)
  assume ok: "app_ok a"
  show ?thesis
    unfolding on_bundle_def
  proof (intro app_evolution.evolves_try app_evolution.evolves_refl app_evolution.evolves_then with_store_evolves store_ops_evolve,
      goal_cases)
    case (1 peer_bundle initiator x a1)
    have wf: "initiator_ok initiator" "ipk_wf (pkb_identity_key peer_bundle)"
      using ok 1(1,2) pkb_strict.from_slice_valid by (auto simp: app_ok_def context_json_def pkb_wf_def)
    have "app_evolves a1 (a1\<lparr>app_initiator := Some ih, app_node := h\<rparr>)"
      if "send_prekey P J now draws peer_bundle (initiator, app_node a1) = (r, ih, h)" for P J now draws r ih h
    proof (rule app_evolution.evolves_trans)
      show "app_evolves a1 (a1\<lparr>app_initiator := Some ih\<rparr>)"
        using send_prekey_frame [OF that] wf by (intro set_initiator_evolves) (auto simp: initiator_ok_def)
      show "app_evolves (a1\<lparr>app_initiator := Some ih\<rparr>) (a1\<lparr>app_initiator := Some ih, app_node := h\<rparr>)"
        using send_prekey_frame [OF that] set_node_evolves [of "a1\<lparr>app_initiator := Some ih\<rparr>" h] by simp
    qed
    then show ?case
      by (auto split: prod.split)
  qed
qed

lemma with_store_after:
  assumes "app_evolves a b" "\<And>s. store_evolves s (snd (f s))"
  shows "app_evolves a (snd (with_store f b))"
  by (rule app_evolution.evolves_trans [OF assms(1)], rule with_store_evolves, rule assms(2))

lemma app_send_after: "app_evolves a b \<Longrightarrow> app_evolves a (snd (app_send peer e b))"
  by (erule app_evolution.evolves_trans) (rule app_send_evolves)

lemmas app_intros = app_evolution.evolves_try app_evolution.evolves_then app_evolution.evolves_refl with_store_after
  store_ops_evolve app_send_after say_after

lemma on_prekey_message_evolves:
  assumes "world_ok w"
  shows "app_evolves a (snd (on_prekey_message w sender e body a))"
  unfolding on_prekey_message_def
proof (intro app_evolution.evolves_try app_evolution.evolves_refl, goal_cases)
  case (1 conv rp)
  obtain r rp1 where o: "on_prekey (w_prims w) (w_json w) (w_ratchet_draw w) body conv rp = (r, rp1)"
    by (cases "on_prekey (w_prims w) (w_json w) (w_ratchet_draw w) body conv rp")
  have wf: "chat_wf chat" if "r = Inr (pub, chat)" for pub chat
    using on_prekey_wf [OF _ _ o [unfolded that]] assms by (simp add: world_ok_def)
  have tail: "app_evolves a3 (snd (try_st env (a3\<lparr>app_session := Some chat\<rparr>) (\<lambda>reply.
      then_st (app_send sender reply (a3\<lparr>app_session := Some chat\<rparr>)) (\<lambda>_ a5. (Inr (), say l a5)))))"
    if "chat_wf chat" for chat a3 env l
    by (rule app_evolution.evolves_trans [OF set_session_evolves [OF that]]) (intro app_intros, simp add: say_evolves)
  show ?case
    unfolding o Let_def prod.case
    by (rule app_evolution.evolves_trans [OF set_responder_evolves])
      (auto intro!: app_intros tail wf)
qed

lemma establish_frame: "establish P d pub ih = (r, ih1) \<Longrightarrow> ih_peer_identity ih1 = ih_peer_identity ih"
  by (auto simp: establish_def Let_def split: st_splits_asm)

lemma create_sender_ok:
  assumes "length draw = CHAIN_KEY_SIZE" "group_ok g" "create_sender P draw identity g = (d, g1)"
  shows "group_ok g1" "group_same g g1"
  using assms by (auto simp: create_sender_def sender_keys_new_def group_ok_def keys_ok_def group_same_def)

text \<open>The greeting, the last part of \<open>on_ratchet_public\<close>.\<close>

lemma greeting_evolves:
  assumes "world_ok w" "chat_wf chat"
  shows "app_evolves a (snd (case chat_encrypt (w_prims w) (w_json w) now identity device m chat of
       (g, chat1) \<Rightarrow>
     let a7 = a\<lparr>app_session := Some chat1\<rparr> in
     try_st g a7 (\<lambda>greeting.
     then_st (app_send sender greeting a7) (\<lambda>_ a8. (Inr (), say l (persist_quietly w a8))))))"
proof -
  obtain g chat1 where g: "chat_encrypt (w_prims w) (w_json w) now identity device m chat = (g, chat1)"
    by (cases "chat_encrypt (w_prims w) (w_json w) now identity device m chat")
  have "chat_wf chat1" using chat_encrypt_wf [OF _ _ assms(2), of "w_prims w" "w_json w" now identity device m] assms(1)
    by (simp add: g world_ok_def)
  then show ?thesis
    unfolding g Let_def prod.case
    by (rule app_evolution.evolves_trans [OF set_session_evolves])
      (auto intro!: app_intros persist_quietly_evolves)
qed

lemma on_ratchet_public_evolves:
  assumes w: "world_ok w"
  shows "app_evolves a (snd (on_ratchet_public w sender body a))"
  unfolding on_ratchet_public_def
proof (rule app_evolution.evolves_ok, intro app_evolution.evolves_try app_evolution.evolves_refl, goal_cases)
  case (1 initiator)
  obtain r ih1 where e: "establish (w_prims w) (w_ratchet_draw w) body initiator = (r, ih1)"
    by (cases "establish (w_prims w) (w_ratchet_draw w) body initiator")
  have i: "initiator_ok initiator" using 1 by (simp add: app_ok_def)
  then have ih1: "initiator_ok ih1" using establish_frame [OF e] by (simp add: initiator_ok_def)
  have wf: "chat_wf chat" if "r = Inr chat" for chat
    using establish_wf [OF _ _ e [unfolded that]] w i by (auto simp: world_ok_def initiator_ok_def pred_option_def)
  have group: "app_evolves a4 (a4\<lparr>app_group := g1\<rparr>)"
    if "create_sender (w_prims w) (w_chain_draw w) identity (app_group a4) = (d, g1)" for a4 identity d g1
    by (rule app_evolution.evolves_ok, rule set_group_evolves) (use create_sender_ok [OF _ _ that] w in \<open>simp_all add: world_ok_def app_ok_def\<close>)
  show ?case
    unfolding e Let_def prod.case
  proof (rule app_evolution.evolves_trans [OF set_initiator_evolves [OF ih1]],
      intro app_intros, goal_cases)
    case (1 chat peer u1 a2 u2 a3)
    obtain d g1 where c: "create_sender (w_prims w) (w_chain_draw w)
        (ns_identity (app_store (a3\<lparr>app_session := Some chat\<rparr>))) (app_group (a3\<lparr>app_session := Some chat\<rparr>)) = (d, g1)"
      by (cases "create_sender (w_prims w) (w_chain_draw w)
        (ns_identity (app_store (a3\<lparr>app_session := Some chat\<rparr>))) (app_group (a3\<lparr>app_session := Some chat\<rparr>))")
    have "app_evolves a3 (a3\<lparr>app_session := Some chat, app_group := g1\<rparr>)"
      using app_evolution.evolves_trans [OF set_session_evolves [OF wf [OF 1(2)]] group [OF c]] .
    then show ?case
      unfolding c prod.case
      by (rule app_evolution.evolves_trans, intro app_intros greeting_evolves [unfolded Let_def, OF w wf [OF 1(2)]])
  qed
qed

lemma on_group_key_evolves: "app_evolves a (snd (on_group_key w body a))"
  unfolding on_group_key_def
proof (rule app_evolution.evolves_ok, intro app_evolution.evolves_try app_evolution.evolves_refl, goal_cases)
  case (1 d peer)
  have "length (gd_chain_key d) = 32" using 1(2) gd_strict.from_slice_valid by (auto simp: context_json_def gd_wf_def)
  moreover have "ipk_wf peer" using 1(1,3) by (auto simp: app_ok_def chat_wf_def sk_wf_def)
  ultimately have "app_evolves a (a\<lparr>app_group := apply_group_key d peer (app_group a)\<rparr>)"
    using 1(1) by (intro set_group_evolves) (auto simp: app_ok_def apply_group_key_def group_ok_def keys_ok_def group_same_def)
  then show ?case by (simp add: say_after)
qed

lemma ensure_session_evolves: "app_evolves a (snd (ensure_session w cid a))"
proof (cases "app_session a")
  case None
  have "app_evolves b ((say l b)\<lparr>app_session := Some c\<rparr>)" if "chat_wf c" for b l c
    by (rule app_evolution.evolves_trans [OF say_evolves(1) set_session_evolves [OF that]])
  moreover have "chat_wf c" if "with_store (resume E J cid) a = (Inr (Some c), b)" for E J c b
    using that by (auto simp: with_store_def split: prod.splits dest: resume_chat_wf)
  ultimately show ?thesis
    unfolding ensure_session_def None option.case
    by (intro app_evolution.evolves_then with_store_after app_evolution.evolves_refl resume_evolves)
      (auto simp: app_evolution.evolves_refl split: option.split)
qed (simp add: ensure_session_def app_evolution.evolves_refl)

lemma on_chat_message_evolves:
  assumes w: "world_ok w"
  shows "app_evolves a (snd (on_chat_message w sender e a))"
  unfolding on_chat_message_def
proof (intro app_intros ensure_session_evolves, goal_cases)
  case (1 cid u a1 session u2 a2)
  obtain r s1 where d: "chat_decrypt (w_prims w) (w_json w) e session = (r, s1)"
    by (cases "chat_decrypt (w_prims w) (w_json w) e session")
  have "chat_wf session" using 1(3,4) by (simp add: app_ok_def)
  then have "chat_wf s1" using chat_decrypt_wf [of "w_prims w" session "w_json w" e] w by (simp add: d world_ok_def)
  then have "app_evolves a2 (a2\<lparr>app_session := Some s1\<rparr>)" by (rule set_session_evolves)
  then show ?case
    unfolding d Let_def prod.case by (rule app_evolution.evolves_trans) (simp, intro app_intros, simp, intro app_intros)
qed

lemma first_peer_evolves: "app_evolves a (if app_peer a = None then a\<lparr>app_peer := Some p\<rparr> else a)"
  by (simp add: set_peer_evolves app_evolution.evolves_refl)

lemma handle_direct_evolves:
  assumes "world_ok w"
  shows "app_evolves a (snd (handle_direct w sender e a))"
  unfolding handle_direct_def Let_def
  by (rule app_evolution.evolves_trans [OF first_peer_evolves [of a sender]])
    (auto split: list.split intro: on_bundle_request_evolves on_bundle_evolves on_prekey_message_evolves [OF assms]
      on_ratchet_public_evolves [OF assms] on_group_key_evolves on_chat_message_evolves [OF assms])

lemma group_decrypt_ok:
  assumes "hmac_law P" "group_ok g" "group_decrypt P J e g = (r, g1)"
  shows "group_ok g1" "group_same g g1"
proof -
  have "length (snd_chain_key k1) = 32 \<and> snd_group_id k1 = snd_group_id k"
    if "sender_receive P aad m k = (x, k1)" "length (snd_chain_key k) = 32" for aad m k x k1
    using that by (auto simp: sender_receive_def sender_decrypt_def sender_advance_def sender_next_def result_simps
        split: st_splits_asm dest!: hmac_length [OF assms(1)])
  with assms(2,3) show "group_ok g1" "group_same g g1"
    by (auto simp: group_decrypt_def group_ok_def keys_ok_def group_same_def split: st_splits_asm prod.splits if_splits)
qed

lemma group_envelope_ok:
  assumes "hmac_law P" "group_ok g" "group_envelope P J now identity device m g = (r, g1)"
  shows "group_ok g1" "group_same g g1"
proof -
  have "length (snd_chain_key k1) = 32 \<and> snd_group_id k1 = snd_group_id k"
    if "sender_encrypt P m aad k = (x, k1)" "length (snd_chain_key k) = 32" for aad k x k1
    using that by (auto simp: sender_encrypt_def result_simps Let_def split: st_splits_asm dest!: hmac_length [OF assms(1)])
  with assms(2,3) show "group_ok g1" "group_same g g1"
    by (auto simp: group_envelope_def group_ok_def keys_ok_def group_same_def Let_def
        split: st_splits_asm prod.splits option.splits)
qed

lemma on_gossip_evolves:
  assumes "world_ok w"
  shows "app_evolves a (snd (on_gossip w sender e a))"
proof (rule app_evolution.evolves_ok)
  assume "app_ok a"
  obtain r g1 where g: "group_decrypt (w_prims w) (w_json w) e (app_group a) = (r, g1)"
    by (cases "group_decrypt (w_prims w) (w_json w) e (app_group a)")
  have "app_evolves a (a\<lparr>app_group := g1\<rparr>)"
    using group_decrypt_ok [OF _ _ g] assms \<open>app_ok a\<close> by (intro set_group_evolves) (auto simp: world_ok_def app_ok_def)
  then show ?thesis
    unfolding on_gossip_def g Let_def by (cases r) (auto intro!: app_intros)
qed

lemma settle_outgoing_evolves: "app_evolves a (snd (settle_outgoing status a))"
  unfolding settle_outgoing_def Let_def
  by (rule app_evolution.evolves_trans [OF set_outgoing_evolves [of a None]]) (auto intro!: app_intros split: option.split)

lemma request_bundle_ext: "request_bundle P J now ih h = (r, h1) \<Longrightarrow> handle_ext h h1"
  by (auto simp: request_bundle_def split: st_splits_asm dest: handle_send_ext)

lemma on_connected_evolves: "app_evolves a (snd (on_connected w peer hs a))"
proof -
  define a1 where "a1 = say (''[net] connected to '' @ short_peer peer) a"
  define b where "b = (if app_peer a1 = None then a1\<lparr>app_peer := Some peer\<rparr> else a1)"
  have "app_evolves a b"
    unfolding b_def a1_def by (rule app_evolution.evolves_trans [OF say_evolves(1) first_peer_evolves])
  moreover have "app_evolves b (b\<lparr>app_node := h1\<rparr>)"
    if "request_bundle (w_prims w) (w_json w) (w_now w) ih (app_node b) = (r, h1)" for ih r h1
    by (rule set_node_evolves [OF request_bundle_ext [OF that]])
  then have "app_evolves b (snd (on_connected w peer hs a))"
    unfolding on_connected_def Let_def a1_def [symmetric] b_def [symmetric]
    by (auto split: option.split prod.split intro!: app_intros)
  ultimately show ?thesis by (rule app_evolution.evolves_trans)
qed

lemma handle_event_evolves: "world_ok w \<Longrightarrow> app_evolves a (snd (handle_event w e hs a))"
  by (cases e) (auto simp: Let_def intro!: app_intros handle_direct_evolves on_gossip_evolves settle_outgoing_evolves on_connected_evolves)

lemma command_info_evolves: "app_evolves a (command_info w a)"
  unfolding command_info_def print_banner_def Let_def by (intro app_intros)

lemma print_all_after: "app_evolves a b \<Longrightarrow> app_evolves a (print_all ls b)"
  by (erule app_evolution.evolves_trans) (rule say_evolves)

lemma command_history_evolves: "app_evolves a (snd (command_history w a))"
  unfolding command_history_def by (intro app_intros print_history_evolves print_all_after | simp)+

lemma group_publish_ok:
  assumes "hmac_law P" "group_ok g" "group_publish P J now identity device m (g, h) = (r, g1, h1)"
  shows "group_ok g1 \<and> group_same g g1 \<and> handle_ext h h1"
proof -
  obtain x g2 where e: "group_envelope P J now identity device m g = (x, g2)"
    by (cases "group_envelope P J now identity device m g")
  then show ?thesis
    using assms(3) group_envelope_ok [OF assms(1,2) e]
    by (cases x) (auto simp: group_publish_def node_publish_def send_control_def handle_ext_def split: if_splits)
qed

lemma command_group_evolves:
  assumes "world_ok w"
  shows "app_evolves a (snd (command_group w text a))"
proof (rule app_evolution.evolves_ok)
  assume ok: "app_ok a"
  let ?p = "group_publish (w_prims w) (w_json w) (w_now w) (ns_identity (app_store a)) (ns_device_id (app_store a)) (bstr text)
    (app_group a, app_node a)"
  obtain r g1 h1 where p: "?p = (r, g1, h1)" by (cases ?p)
  have g: "group_ok g1" "group_same (app_group a) g1" "handle_ext (app_node a) h1"
    using group_publish_ok [OF _ _ p] assms ok by (auto simp: world_ok_def app_ok_def)
  have "app_evolves a (a\<lparr>app_group := g1, app_node := h1\<rparr>)"
    using app_evolution.evolves_trans [OF set_group_evolves [OF g(1,2)] set_node_evolves [of "a\<lparr>app_group := g1\<rparr>" h1]] g(3) by simp
  then show ?thesis unfolding command_group_def p prod.case by (auto intro!: app_intros)
qed

lemma command_chat_evolves:
  assumes w: "world_ok w"
  shows "app_evolves a (snd (command_chat w line a))"
proof (rule app_evolution.evolves_ok)
  assume ok: "app_ok a"
  show ?thesis
  proof (cases "app_session a")
    case (Some session)
    obtain r s1 where e: "chat_encrypt (w_prims w) (w_json w) (w_now w) (ns_identity (app_store a)) (ns_device_id (app_store a))
        (bstr line) session = (r, s1)"
      by (cases "chat_encrypt (w_prims w) (w_json w) (w_now w) (ns_identity (app_store a)) (ns_device_id (app_store a))
        (bstr line) session")
    have "chat_wf (snd (r, s1))" unfolding e [symmetric] using ok Some w
      by (intro chat_encrypt_wf) (simp_all add: app_ok_def world_ok_def)
    then have "app_evolves a (a\<lparr>app_session := Some s1\<rparr>)" by (intro set_session_evolves) simp
    then show ?thesis
      unfolding command_chat_def Some option.case e Let_def prod.case
      by (auto intro!: app_intros set_outgoing_evolves persist_quietly_evolves split: option.split)
  qed (auto simp: command_chat_def intro!: app_intros)
qed

lemma handle_command_evolves: "world_ok w \<Longrightarrow> app_evolves a (snd (handle_command w line a))"
  unfolding handle_command_def
  by (auto split: option.split intro!: app_intros command_info_evolves command_history_evolves command_group_evolves command_chat_evolves)

section \<open>The loop and the whole run\<close>

lemma run_loop_evolves:
  assumes "\<forall>i\<in>set inputs. world_ok (fst i)"
  shows "app_evolves a (snd (run_loop inputs hs a))"
  using assms
proof (induction inputs hs a rule: run_loop.induct)
  case (2 w line rest hs a)
  show ?case
  proof (cases "trim line = []")
    case False
    obtain r a1 where c: "handle_command w (trim line) a = (r, a1)" by (cases "handle_command w (trim line) a")
    have "app_evolves a a1" using handle_command_evolves [of w a "trim line"] 2(3) by (simp add: c)
    with 2(2) [OF False c [symmetric]] 2(3) False show ?thesis
      by (auto simp: c intro: say_after app_evolution.evolves_trans split: sum.split bool.split)
  qed (use 2 in simp)
next
  case (5 w event rest hs a)
  obtain r a1 where c: "handle_event w event hs a = (r, a1)" by (cases "handle_event w event hs a")
  have "app_evolves a a1" using handle_event_evolves [of w a event hs] 5(2) by (simp add: c)
  with 5(1) [OF c [symmetric]] 5(2) show ?case by (auto simp: c intro: app_evolution.evolves_trans split: sum.split)
qed (simp_all add: app_evolution.evolves_refl say_evolves)

lemma app_new_ok:
  assumes "store_ok store" "app_new w store node = Inr a"
  shows "app_ok a \<and> app_store a = store \<and> app_node a = node \<and> app_peer a = None"
  using assms
  by (auto simp: app_new_def group_new_def result_simps app_ok_def group_ok_def keys_ok_def print_banner_def say_def)

lemma set_queue_evolves:
  "send_control running c (ph_queue (app_node a)) = (r, q) \<Longrightarrow> c \<noteq> Shutdown \<Longrightarrow> app_evolves a (a\<lparr>app_node := (app_node a)\<lparr>ph_queue := q\<rparr>\<rparr>)"
  by (intro set_node_evolves) (auto simp: handle_ext_def send_control_def split: if_splits)

lemma app_subscribe_evolves: "app_evolves a (snd (app_subscribe a))"
  by (auto simp: app_subscribe_def node_subscribe_def split: prod.split intro!: set_queue_evolves)

lemma app_subscribe_peer: "app_peer (snd (app_subscribe a)) = app_peer a"
  by (simp add: app_subscribe_def split: prod.split)

lemma start_responder_evolves: "app_evolves a (snd (start_responder w answer a))"
  unfolding start_responder_def
proof (intro app_evolution.evolves_then app_subscribe_evolves with_store_after app_evolution.evolves_refl store_prekey_evolves,
    goal_cases)
  case (1 u a1 prekey a2)
  define b where "b = say (''[responder] waiting for the initiator'' @ ellipsis) a2"
  obtain addrs q where n: "node_listen_addrs (ph_running (app_node b)) answer (ph_queue (app_node b)) = (addrs, q)"
    by (cases "node_listen_addrs (ph_running (app_node b)) answer (ph_queue (app_node b))")
  define c where "c = b\<lparr>app_responder := Some (responder_new (ns_identity (app_store b)) prekey), app_node := (app_node b)\<lparr>ph_queue := q\<rparr>\<rparr>"
  have "prefix (ph_queue (app_node b)) q \<and> (Shutdown \<in> set q \<longrightarrow> Shutdown \<in> set (ph_queue (app_node b)))"
    using n by (auto simp: node_listen_addrs_def send_control_def split: if_splits)
  then have "app_evolves b c" by (simp add: c_def evolves_def app_defs handle_ext_def)
  then have "app_evolves a2 c" using app_evolution.evolves_trans [OF say_evolves(1) [of a2]] by (simp add: b_def)
  then show ?case
    unfolding Let_def b_def [symmetric] n prod.case c_def [symmetric] by (auto intro!: app_intros)
qed

lemma start_initiator_evolves:
  assumes "app_peer a = None"
  shows "app_evolves a (snd (start_initiator w peer_text a))"
  unfolding start_initiator_def
proof (intro app_evolution.evolves_then app_evolution.evolves_try app_subscribe_evolves with_store_after app_evolution.evolves_refl
    resume_evolves, goal_cases)
  case (1 u a1 peer_text addr peer)
  have "app_peer a1 = None" using app_subscribe_peer [of a] assms 1(1) by simp
  then show ?case by (rule set_peer_evolves)
next
  case (2 u a1 peer_text addr peer session a2)
  define a3 where "a3 = (case session of None \<Rightarrow> a2
    | Some s \<Rightarrow> (say ''[initiator] resumed persisted session, skipping handshake'' a2)\<lparr>app_session := Some s\<rparr>)"
  define a4 where "a4 = a3\<lparr>app_initiator := Some (initiator_new (ns_identity (app_store a3)) (ns_device_id (app_store a3)) peer)\<rparr>"
  have "chat_wf s" if "session = Some s" for s
    using 2(6) that by (auto simp: with_store_def split: prod.splits dest: resume_chat_wf)
  then have "app_evolves a2 a3"
    unfolding a3_def by (auto split: option.split intro: app_evolution.evolves_refl
        intro!: app_evolution.evolves_trans [OF say_evolves(1) set_session_evolves])
  moreover have "app_evolves a3 a4" unfolding a4_def by (rule set_initiator_evolves) (simp add: initiator_ok_def initiator_new_def)
  moreover have "app_evolves a4 (a4\<lparr>app_node := (app_node a4)\<lparr>ph_queue := q\<rparr>\<rparr>)"
    if "node_dial (ph_running (app_node a4)) addr (ph_queue (app_node a4)) = (r, q)" for r q
    using that by (intro set_queue_evolves) (simp add: node_dial_def, rule control.distinct)
  ultimately show ?case
    unfolding Let_def a3_def [symmetric] a4_def [symmetric]
    by (auto split: prod.split intro: app_evolution.evolves_trans)
qed

section \<open>Properties\<close>

text \<open>The name of the group is not empty, so the application always comes into being.\<close>

lemma demo_main_some: "\<exists>r a. demo_main w role peer answer store node inputs = (r, Some a)"
proof -
  obtain a where "app_new w store node = Inr a"
    by (simp add: app_new_def group_new_def group_topic_def topic_for_def DEMO_GROUP_def bstr_def)
  then show ?thesis by (auto simp: demo_main_def split: sum.split prod.split)
qed

lemma demo_main_start:
  assumes "store_ok store" "demo_main w role peer answer store node inputs = (r, Some a)"
  obtains (failed) e where "r = Some (Inl e)" "app_ok a" "store_ext store (app_store a)" "handle_ext node (app_node a)"
      "\<And>later. demo_main w role peer answer store node later = (r, Some a)"
  | (started) a0 where "app_ok a0" "store_ext store (app_store a0)" "handle_ext node (app_node a0)"
      "\<And>later. demo_main w role peer answer store node later = (case run_loop later False a0 of (r, a) \<Rightarrow> (r, Some a))"
proof -
  obtain a1 where new: "app_new w store node = Inr a1" using assms(2) by (auto simp: demo_main_def split: sum.splits)
  note a1 = app_new_ok [OF assms(1) new]
  let ?start = "case role of Responder \<Rightarrow> start_responder w answer a1 | Initiator \<Rightarrow> start_initiator w peer a1"
  obtain x a0 where start: "?start = (x, a0)" by (cases ?start)
  have "app_evolves a1 (snd ?start)"
    using start_responder_evolves start_initiator_evolves a1 by (cases role) auto
  with start a1 have ok: "app_ok a0" "store_ext store (app_store a0)" "handle_ext node (app_node a0)"
    by (auto simp: evolves_def app_ext_def)
  show thesis
  proof (cases x)
    case (Inl e)
    with new start assms(2) ok failed [of e] show thesis by (simp add: demo_main_def)
  next
    case (Inr u)
    with new start ok started [of a0] show thesis by (simp add: demo_main_def)
  qed
qed

lemma demo_main_keeps:
  assumes "store_ok store" "\<forall>i\<in>set inputs. world_ok (fst i)"
    and "demo_main w role peer answer store node inputs = (r, Some a)"
  shows "app_ok a \<and> store_ext store (app_store a) \<and> handle_ext node (app_node a)"
  using assms(1,3)
proof (cases rule: demo_main_start)
  case (started a0)
  obtain r' a' where run: "run_loop inputs False a0 = (r', a')" by (cases "run_loop inputs False a0")
  then have "app_evolves a0 a" using run_loop_evolves [OF assms(2), of a0 False] started(4) [of inputs] assms(3) by simp
  with started(1-3) show ?thesis
    by (auto simp: evolves_def app_ext_def handle_ext_def intro: store_evolution.ext_trans prefix_order.trans)
qed simp

text \<open>
  C7. Whatever happens to it, the application stays sound. Started in either role on any sound
  database, with any command line, any answer of the node, any lines typed and any events of the
  node (messages of any peer with any contents, in any order), and with faults of the database
  at any call: its tables keep their keys and references, no transaction is left open, the session, the identity of
  the peer and the keys of the group have the lengths of their types, the identity and the
  device id are those of the store it was given, and what is stored or queued is never taken back.
\<close>

theorem application_invariant:
  assumes "store_ok store" "\<forall>i\<in>set inputs. world_ok (fst i)"
    and "demo_main w role peer answer store node inputs = (r, Some a)"
  shows "app_ok a \<and> store_ext store (app_store a) \<and> handle_ext node (app_node a)"
  by (rule demo_main_keeps [OF assms])

text \<open>
  C11. The application only adds: between any two moments of a run, the output, the queue of the
  node, the conversations and sessions of the database grow at their ends, no stored message is
  changed but for its status, the group stays what it is, and a session or a remote peer, once
  known, is never lost; the remote peer stays the first that was seen.
\<close>

theorem application_only_adds:
  assumes "store_ok store" "\<forall>i\<in>set (inputs @ later). world_ok (fst i)"
    and "demo_main w role peer answer store node inputs = (None, Some a)"
    and "demo_main w role peer answer store node (inputs @ later) = (r, Some a')"
  shows "app_ext a a'"
  using assms(1,3)
proof (cases rule: demo_main_start)
  case (started a0)
  have run: "run_loop inputs False a0 = (None, a)" using started(4) [of inputs] assms(3) by (simp split: prod.splits)
  have a: "app_ok a"
    using run_loop_evolves [of inputs a0 False] run started(1) assms(2) by (auto simp: evolves_def)
  obtain hs where hs: "run_loop (inputs @ later) False a0 = run_loop later hs a" using run_loop_append [OF run] by blast
  have "app_evolves a (snd (run_loop later hs a))" using assms(2) by (intro run_loop_evolves) auto
  then show ?thesis using started(4) [of "inputs @ later"] hs assms(4) a by (simp add: evolves_def split: prod.splits)
qed simp

definition sample_start_world :: world where
  "sample_start_world = (sample_world 1 0)\<lparr>w_parse_addr := (\<lambda>_. Some [P2p ''peer-b''])\<rparr>"

abbreviation sample_demo :: "(world \<times> app_input) list \<Rightarrow> unit app_result option \<times> app option" where
  "sample_demo \<equiv> demo_main sample_start_world Initiator (Some ''/p2p/peer-b'') None sample_store \<lparr>ph_running = True, ph_queue = []\<rparr>"

lemma sample_store_ok: "store_ok sample_store"
  by (simp add: store_ok_def db_ok_def conn_wf_def sample_store_def sample_chat_db_def sample_db_def db_wf_def
      migrated_tables_def empty_tables_def)

lemma sample_world_ok: "world_ok (sample_world r n)"
  by (simp add: world_ok_def sample_world_simps sample_hkdf sample_hmac)

lemma sample_demo_waits: "\<exists>a. sample_demo [] = (None, Some a) \<and> app_peer a = Some ''peer-b''"
proof -
  have "load_session E J ''dev-bob'' sample_chat_db = (Inr None, sample_chat_db)" for E J
    by (subst load_session_quiet) (simp_all add: sample_chat_db_def sample_db_def migrated_tables_def empty_tables_def plain_def NUL_def)
  then have "resume E J ''dev-bob'' sample_store = (Inr None, sample_store)" for E J
    by (simp add: resume_def store_load_session_def on_db_def sample_store_def context_storage_def)
  moreover have "ns_device_id sample_store = ''dev-bob''" by (simp add: sample_store_def)
  ultimately show ?thesis
    by (simp add: demo_main_def app_new_def group_new_def group_topic_def topic_for_def DEMO_GROUP_def sample_start_world_def
        start_initiator_def app_subscribe_def node_subscribe_def send_control_def node_dial_def peer_id_of_def with_store_def
        print_banner_def say_def Let_def bstr_def)
qed

theorem application_invariant_witness:
  "\<exists>r a. sample_demo [(sample_world 1 1, NodeEvent (PeerConnected ''mallory'')),
      (sample_world 1 2, NodeEvent (DirectMessage ''mallory'' sample_garbage))] = (r, Some a) \<and>
    app_ok a \<and> ns_device_id (app_store a) = ''dev-bob''"
proof -
  let ?inputs = "[(sample_world 1 1, NodeEvent (PeerConnected ''mallory'')),
      (sample_world 1 2, NodeEvent (DirectMessage ''mallory'' sample_garbage))]"
  have "\<forall>i\<in>set ?inputs. world_ok (fst i)" by (simp add: sample_world_ok)
  moreover obtain r a where "sample_demo ?inputs = (r, Some a)" using demo_main_some by blast
  ultimately show ?thesis
    using application_invariant [OF sample_store_ok, of ?inputs] by (fastforce simp: store_ext_def sample_store_def)
qed

theorem application_only_adds_witness:
  "\<exists>a r a'. sample_demo [] = (None, Some a) \<and>
    sample_demo [(sample_world 1 1, NodeEvent (PeerConnected ''mallory''))] = (r, Some a') \<and> app_peer a' = Some ''peer-b''"
proof -
  let ?later = "[(sample_world 1 1, NodeEvent (PeerConnected ''mallory''))]"
  obtain a where a: "sample_demo [] = (None, Some a)" "app_peer a = Some ''peer-b''" using sample_demo_waits by blast
  obtain r a' where a': "sample_demo ([] @ ?later) = (r, Some a')" using demo_main_some by blast
  have "\<forall>i\<in>set ([] @ ?later). world_ok (fst i)" by (simp add: sample_world_ok)
  from application_only_adds [OF sample_store_ok this a(1) a'] a a' show ?thesis
    by (simp add: app_ext_def)
qed

end
