(* ===== verification/Behaviour.thy ===== *)
theory Behaviour
  imports Node
begin

text \<open>
  How a node is put together: the composed behaviour of \<open>presidium-network/src/behaviour.rs\<close>, the
  swarm around it and the two ways to start a node in \<open>node.rs\<close>.

  The protocols come from libp2p. A protocol is the configuration that it is constructed
  with (nothing, for ping); whether a constructor fails, and with which message, is an argument (\<open>swarm_answers\<close>).
\<close>

section \<open>Model\<close>

datatype kad_role = ClientRole | ServerRole

text \<open>Kademlia: no protocol name means the library's default name, no role that the library decides.\<close>

record kademlia =
  kd_peer :: peer_id
  kd_protocol :: "string option"
  kd_role :: "kad_role option"

datatype protocol_support = Inbound | Outbound | Full

record 'k presidium_behaviour =
  bh_identify :: "string \<times> 'k"
  bh_ping :: unit
  bh_kademlia :: kademlia
  bh_mdns :: peer_id
  bh_gossipsub_signed :: 'k
  bh_request_response :: "(string \<times> protocol_support) list"
  bh_request_timeout :: nat

record 'k swarm_answers =
  sa_tcp :: "string + unit"
  sa_dns :: "string + unit"
  sa_mdns :: "peer_id \<Rightarrow> string + unit"
  sa_gossipsub :: "'k \<Rightarrow> string + unit"
  sa_show_boxed :: "string \<Rightarrow> string"

fun show_network_error :: "network_error \<Rightarrow> string" where
  "show_network_error (ListenError s) = ''listen failure: '' @ s"
| "show_network_error (DialError s) = ''dial failure: '' @ s"
| "show_network_error (PublishError s) = ''publish failure: '' @ s"
| "show_network_error (BehaviourError s) = ''behaviour construction: '' @ s"
| "show_network_error (TransportError s) = ''transport construction: '' @ s"
| "show_network_error (InvalidNetworkKey s) = ''invalid key: '' @ s"
| "show_network_error (InvalidAddress s) = ''invalid multiaddr: '' @ s"
| "show_network_error NotRunning = ''node is not running''"

text \<open>The version in the name is the package's, \<open>CARGO_PKG_VERSION\<close>.\<close>

definition IDENTIFY_PROTOCOL_VERSION :: string where
  "IDENTIFY_PROTOCOL_VERSION = ''/presidium/identify/'' @ ''0.1.0''"

definition KAD_PROTOCOL_NAME :: string where
  "KAD_PROTOCOL_NAME = ''/presidium/kad/0.1.0''"

definition REQUEST_RESPONSE_PROTOCOL :: string where
  "REQUEST_RESPONSE_PROTOCOL = ''/presidium/request-response/0.1.0''"

definition kad_new :: "peer_id \<Rightarrow> kad_mode \<Rightarrow> kademlia" where
  "kad_new local_peer_id mode =
    (case mode of
       Disabled \<Rightarrow> \<lparr>kd_peer = local_peer_id, kd_protocol = None, kd_role = Some ClientRole\<rparr>
     | Client \<Rightarrow> \<lparr>kd_peer = local_peer_id, kd_protocol = Some KAD_PROTOCOL_NAME, kd_role = None\<rparr>
     | Server \<Rightarrow> \<lparr>kd_peer = local_peer_id, kd_protocol = Some KAD_PROTOCOL_NAME, kd_role = Some ServerRole\<rparr>)"

definition behaviour_new :: "'k keypairs \<Rightarrow> 'k swarm_answers \<Rightarrow> 'k \<Rightarrow> node_config \<Rightarrow> 'k presidium_behaviour network_result" where
  "behaviour_new K S keypair config =
    (let local_peer_id = kp_peer_id K keypair in
     and_then (map_err (\<lambda>e. BehaviourError (''mdns: '' @ e)) (sa_mdns S local_peer_id)) (\<lambda>_.
     and_then (map_err (\<lambda>e. BehaviourError (''gossipsub: '' @ e)) (sa_gossipsub S keypair)) (\<lambda>_.
     Inr \<lparr>bh_identify = (IDENTIFY_PROTOCOL_VERSION, keypair),
          bh_ping = (),
          bh_kademlia = kad_new local_peer_id (nc_kad_mode config),
          bh_mdns = local_peer_id,
          bh_gossipsub_signed = keypair,
          bh_request_response = [(REQUEST_RESPONSE_PROTOCOL, Full)],
          bh_request_timeout = nc_request_timeout config\<rparr>)))"

record 'k swarm =
  sw_behaviour :: "'k presidium_behaviour"
  sw_idle_timeout :: nat

definition build_swarm :: "'k keypairs \<Rightarrow> 'k swarm_answers \<Rightarrow> 'k \<Rightarrow> node_config \<Rightarrow> 'k swarm network_result" where
  "build_swarm K S identity config =
     and_then (map_err TransportError (sa_tcp S)) (\<lambda>_.
     and_then (map_err TransportError (sa_dns S)) (\<lambda>_.
     and_then (map_err (\<lambda>e. BehaviourError (sa_show_boxed S (show_network_error e))) (behaviour_new K S identity config)) (\<lambda>behaviour.
     Inr \<lparr>sw_behaviour = behaviour, sw_idle_timeout = nc_idle_connection_timeout config\<rparr>)))"

text \<open>A node that was started: its identity, its swarm, and the empty queue of control messages.\<close>

record 'k p2p_node =
  pn_identity :: 'k
  pn_swarm :: "'k swarm"
  pn_queue :: "control list"

definition p2p_start :: "'k keypairs \<Rightarrow> 'k swarm_answers \<Rightarrow> 'k \<Rightarrow> node_config \<Rightarrow> 'k p2p_node network_result" where
  "p2p_start K S drawn config =
     and_then (build_swarm K S drawn config) (\<lambda>swarm.
     Inr \<lparr>pn_identity = drawn, pn_swarm = swarm, pn_queue = []\<rparr>)"

text \<open>\<^term>\<open>None\<close> is the panic of \<open>from_device_id\<close>.\<close>

definition p2p_start_with_device_id ::
    "prims \<Rightarrow> 'k keypairs \<Rightarrow> 'k swarm_answers \<Rightarrow> bytes \<Rightarrow> node_config \<Rightarrow> 'k p2p_node network_result option"
where
  "p2p_start_with_device_id P K S device_id config =
    (case network_from_device_id P K device_id of
       None \<Rightarrow> None
     | Some identity \<Rightarrow> Some (
         and_then (build_swarm K S identity config) (\<lambda>swarm.
         Inr \<lparr>pn_identity = identity, pn_swarm = swarm, pn_queue = []\<rparr>)))"

definition p2p_peer_id :: "'k keypairs \<Rightarrow> 'k p2p_node \<Rightarrow> peer_id" where
  "p2p_peer_id K n = kp_peer_id K (pn_identity n)"

section \<open>Lemmas\<close>

text \<open>When a node starts, and with what.\<close>

lemma build_swarm_ok_iff:
  "build_swarm K S identity config = Inr swarm \<longleftrightarrow>
    sa_tcp S = Inr () \<and> sa_dns S = Inr () \<and> sa_mdns S (kp_peer_id K identity) = Inr () \<and> sa_gossipsub S identity = Inr () \<and>
    swarm = \<lparr>sw_behaviour = \<lparr>bh_identify = (IDENTIFY_PROTOCOL_VERSION, identity), bh_ping = (),
        bh_kademlia = kad_new (kp_peer_id K identity) (nc_kad_mode config), bh_mdns = kp_peer_id K identity,
        bh_gossipsub_signed = identity, bh_request_response = [(REQUEST_RESPONSE_PROTOCOL, Full)],
        bh_request_timeout = nc_request_timeout config\<rparr>, sw_idle_timeout = nc_idle_connection_timeout config\<rparr>"
  by (auto simp: build_swarm_def behaviour_new_def result_simps Let_def)

text \<open>
  A failing mDNS socket stops every node, one with mDNS switched off too: the behaviour is always
  constructed.
\<close>

lemma mdns_required:
  assumes "sa_tcp S = Inr ()" "sa_dns S = Inr ()" "sa_mdns S (kp_peer_id K drawn) = Inl e"
  shows "p2p_start K S drawn (config\<lparr>nc_mdns_enabled := False\<rparr>) =
    Inl (BehaviourError (sa_show_boxed S (''behaviour construction: '' @ ''mdns: '' @ e)))"
  using assms by (simp add: p2p_start_def build_swarm_def behaviour_new_def Let_def)

text \<open>
  A node with Kademlia disabled still runs it, as a client of the network under the library's
  default name; only the other two modes use the name of this application, and only the
  server's role is fixed.
\<close>

lemma kad_disabled_still_client:
  assumes "p2p_start K S drawn (config\<lparr>nc_kad_mode := Disabled\<rparr>) = Inr n"
  shows "kd_role (bh_kademlia (sw_behaviour (pn_swarm n))) = Some ClientRole \<and>
    kd_protocol (bh_kademlia (sw_behaviour (pn_swarm n))) = None"
  using assms by (auto simp: p2p_start_def result_simps build_swarm_ok_iff kad_new_def)

text \<open>The peer id of a node with a device id is the same at every start, under every configuration.\<close>

lemma device_peer_id_stable:
  assumes "p2p_start_with_device_id P K S d config = Some (Inr n)" "p2p_start_with_device_id P K S d config' = Some (Inr n')"
  shows "p2p_peer_id K n = p2p_peer_id K n'"
  using assms by (auto simp: p2p_start_with_device_id_def p2p_peer_id_def result_simps split: option.split_asm)

end
