(* ===== verification/Program.thy ===== *)
theory Program
  imports App_Invariant Behaviour
begin

text \<open>
  The whole program of \<open>presidium-demo/src/main.rs\<close>: \<open>main\<close> with its thread, \<open>run_demo\<close> with its runtime, the
  start of the node and the opening of the store, and what is left on the disk for the next
  start in the same directory.
\<close>

section \<open>Model\<close>

text \<open>The options as \<open>clap\<close> returns them; the directory is the disk that the program is run on.\<close>

record cli =
  cli_role :: role
  cli_peer :: "string option"

text \<open>
  What one start of the program takes from outside: the thread and the runtime, libp2p, the
  engine of the database, and the draws.
\<close>

record 'k boot =
  bt_spawn :: bool
  bt_runtime :: bool
  bt_keypairs :: "'k keypairs"
  bt_swarm :: "'k swarm_answers"
  bt_keypair :: 'k
  bt_argon2 :: argon2
  bt_sqlite :: "string \<Rightarrow> bool \<times> int \<times> string option"
  bt_path :: "string option"
  bt_key_answer :: "bytes \<Rightarrow> unit sql_result"
  bt_salt :: bytes
  bt_identity :: identity_draws
  bt_listening :: "multiaddr list option"
  bt_world :: world

type_synonym disk = "fs \<times> db"
type_synonym outcome_of_run = "unit app_result option \<times> app option \<times> disk"

definition boot_store :: "'k boot \<Rightarrow> disk \<Rightarrow> node_store app_result \<times> disk" where
  "boot_store B disk = node_store_open (w_engine (bt_world B)) (bt_argon2 B) (w_hex (bt_world B)) (bt_sqlite B) (bt_path B)
     (bt_key_answer B) (bt_salt B) (bt_identity B) disk"

text \<open>\<open>demo_main\<close> from its beginning: the node, the store, then the application.\<close>

definition demo_run :: "'k boot \<Rightarrow> cli \<Rightarrow> (world \<times> app_input) list \<Rightarrow> disk \<Rightarrow> outcome_of_run" where
  "demo_run B cli inputs disk =
    (case p2p_start (bt_keypairs B) (bt_swarm B) (bt_keypair B) demo_config of
       Inl e \<Rightarrow> (Some (Inl (AppNetwork e)), None, disk)
     | Inr node \<Rightarrow>
        (case boot_store B disk of
           (Inl e, disk1) \<Rightarrow> (Some (Inl e), None, disk1)
         | (Inr store, disk1) \<Rightarrow>
            (case demo_main ((bt_world B)\<lparr>w_peer_id := p2p_peer_id (bt_keypairs B) node\<rparr>) (cli_role cli) (cli_peer cli)
                (bt_listening B) store \<lparr>ph_running = True, ph_queue = pn_queue node\<rparr> inputs of
               (r, None) \<Rightarrow> (r, None, disk1)
             | (r, Some a) \<Rightarrow> (r, Some a, ns_fs (app_store a), ns_db (app_store a)))))"

definition run_demo :: "'k boot \<Rightarrow> cli \<Rightarrow> (world \<times> app_input) list \<Rightarrow> disk \<Rightarrow> outcome_of_run" where
  "run_demo B cli inputs disk =
    (if bt_runtime B then demo_run B cli inputs disk
     else (Some (Inl (AppContext ''build tokio runtime'' AppIo)), None, disk))"

text \<open>\<open>join\<close>: a panic of the thread is an error of the program.\<close>

fun join_thread :: "unit app_result option \<Rightarrow> unit app_result option" where
  "join_thread (Some (Inl (AppPanic _))) = Some (Inl (AppMsg ''demo thread panicked''))"
| "join_thread r = r"

definition main :: "'k boot \<Rightarrow> cli \<Rightarrow> (world \<times> app_input) list \<Rightarrow> disk \<Rightarrow> outcome_of_run" where
  "main B cli inputs disk =
    (if bt_spawn B then case run_demo B cli inputs disk of (r, result) \<Rightarrow> (join_thread r, result)
     else (Some (Inl (AppPanic ''spawn demo thread'')), None, disk))"

section \<open>Opening a store\<close>

text \<open>The identity that is in the tables.\<close>

definition known_identity :: "column_engine \<Rightarrow> identity_key_pair \<Rightarrow> string \<Rightarrow> tables \<Rightarrow> bool" where
  "known_identity E kp did t \<longleftrightarrow>
     (\<exists>row r. t_identity t = Some row \<and> identity_from_row E row = Inr r \<and> ir_device_id r = did \<and>
        identity_from_seed (ir_classical_seed r) (ir_pq_seed r) = Inr kp)"

text \<open>
  What a store leaves for the next start: a salt from which a key is derived that the engine takes
  for this database (\<open>unlocks\<close>), the schema, and the identity.
\<close>

definition settled_store :: "column_engine \<Rightarrow> argon2 \<Rightarrow> (bytes \<Rightarrow> bool) \<Rightarrow> node_store \<Rightarrow> bool" where
  "settled_store E A unlocks s \<longleftrightarrow> fs_directory (ns_fs s) \<and> fs_readable (ns_fs s) ''db.salt'' \<and>
     (\<exists>salt key. fs_files (ns_fs s) ''db.salt'' = Some salt \<and> length salt = ARGON2_SALT_SIZE \<and>
        derive_db_key A DEFAULT_PASSPHRASE salt = Inr key \<and> unlocks key) \<and>
     1 \<le> t_user_version (cn_tables (ns_db s)) \<and> known_identity E (ns_identity s) (ns_device_id s) (cn_tables (ns_db s))"

lemma db_key_ok:
  assumes "db_key A d f = (Inr key, f')" "length d = ARGON2_SALT_SIZE"
  shows "\<exists>salt. fs_files f' ''db.salt'' = Some salt \<and> length salt = ARGON2_SALT_SIZE \<and>
    derive_db_key A DEFAULT_PASSPHRASE salt = Inr key \<and> fs_directory f' = fs_directory f \<and> fs_readable f' = fs_readable f"
  using assms by (auto simp: db_key_def fs_read_def fs_write_def context_storage_def try_into_def result_simps
      split: option.splits st_splits_asm if_splits write_answer.splits)

lemma db_key_again:
  assumes "fs_files f ''db.salt'' = Some salt" "length salt = ARGON2_SALT_SIZE" "derive_db_key A DEFAULT_PASSPHRASE salt = Inr key"
    and "fs_readable f ''db.salt''"
  shows "db_key A d f = (Inr key, f)"
  using assms by (simp add: db_key_def fs_read_def context_storage_def)

lemma run_migrations_version:
  assumes "cn_saved c = None" "run_migrations E c = (Inr (), c')"
  shows "cn_saved c' = None \<and> 1 \<le> t_user_version (cn_tables c')"
proof -
  obtain v c1 where q: "lift_db (pragma_i64 E stmt_user_version c) = (Inr v, c1)"
    using assms(2) by (cases "lift_db (pragma_i64 E stmt_user_version c)"; cases "fst (lift_db (pragma_i64 E stmt_user_version c))")
      (auto simp: run_migrations_def)
  have c1: "cn_saved c1 = None" "v = t_user_version (cn_tables c1)"
    using tx_kept_closed [OF pragma_kept [of E c] assms(1)] q pragma_user_version [OF q] by simp_all
  show ?thesis
  proof (cases "1 \<le> v")
    case True
    then show ?thesis using assms(2) q c1 by (simp add: run_migrations_def MIGRATIONS_def migration_target_def)
  next
    case False
    let ?tx = "with_transaction Database (migration_body migration_0001 1) c1"
    have tx: "?tx = (Inr (), c')"
      using assms(2) q False by (cases ?tx; cases "fst ?tx") (auto simp: run_migrations_def MIGRATIONS_def migration_target_def)
    obtain c2 c3 where b: "migration_body migration_0001 1 c2 = (Inr (), c3)" "cn_saved c' = None" "cn_tables c' = cn_tables c3"
      using migration_tx.atomic [OF c1(1) tx] by auto
    from migration_body_ok [OF b(1) [unfolded migration_0001_def]] b(2,3) show ?thesis by simp
  qed
qed

lemma engine_call_same:
  "cn_saved c = None \<Longrightarrow> cn_saved (snd (engine_call c)) = None" "cn_saved c = None \<Longrightarrow> cn_tables (snd (engine_call c)) = cn_tables c"
  using engine_call_closed [of c] by (metis prod.collapse)+

lemma database_open_ok:
  assumes "cn_saved c = None" "database_open E engine path key_answer c = (Inr (), c')"
  shows "cn_saved c' = None \<and> 1 \<le> t_user_version (cn_tables c') \<and> (conn_wf c \<longrightarrow> conn_wf c')"
proof -
  define c3 where "c3 = snd (engine_call (snd (engine_call (snd (engine_call c)))))"
  have c3: "cn_saved c3 = None" "cn_tables c3 = cn_tables c" "run_migrations E c3 = (Inr (), c')"
    using assms by (auto simp: c3_def database_open_def database_finish_def lift_db_def engine_call_same split: st_splits_asm)
  obtain v c4 where q: "lift_db (pragma_i64 E stmt_user_version c3) = (Inr v, c4)" "apply_migrations v 0 MIGRATIONS c4 = (Inr (), c')"
    using c3(3) by (auto simp: run_migrations_def split: st_splits_asm)
  have "conn_wf c'" if "conn_wf c"
  proof -
    have "conn_wf c4"
      using that c3(1,2) tx_kept_closed [OF pragma_kept [of E c3] c3(1)] pragma_tables [of c3 E] q(1) by (simp add: conn_wf_def)
    then show ?thesis
      using apply_migrations_wf [of MIGRATIONS c4 v 0] q(2) migration_wf(1) by (simp add: MIGRATIONS_def)
  qed
  with run_migrations_version [OF c3(1,3)] show ?thesis by blast
qed

lemma database_open_again:
  assumes "cn_faults c = []" "1 \<le> t_user_version (cn_tables c)" "connection_open engine path = Inr ()" "key_answer = Inr ()"
  shows "database_open E engine path key_answer c = (Inr (), c)"
proof -
  have "pragma_i64 E stmt_user_version c = (Inr (t_user_version (cn_tables c)), c)"
    using query_row_quiet [OF assms(1), of "[]" stmt_user_version "[[PI64 (t_user_version (cn_tables c))]]" 0 "\<lambda>row. get_i64 E row 0"]
    by (simp add: pragma_i64_def get_i64_def column_i64_def column_simps)
  then show ?thesis
    using assms by (simp add: database_open_def database_finish_def lift_db_def run_migrations_def MIGRATIONS_def migration_target_def)
qed

lemma load_or_create_known:
  assumes "load_or_create_identity E hex d c = (Inr (kp, did), c')" "length (dr_classical d) = 32" "length (dr_pq d) = 32" "cn_saved c = None"
  shows "known_identity E kp did (cn_tables c') \<and> cn_saved c' = None \<and>
    t_user_version (cn_tables c') = t_user_version (cn_tables c) \<and> (conn_wf c \<longrightarrow> conn_wf c')"
proof -
  let ?row = "case t_identity (cn_tables c) of None \<Rightarrow> [] | Some r \<Rightarrow> [r]"
  obtain found c1 where q: "query_row stmt_load_identity [] (identity_from_row E) c = (Inr found, c1)"
    using assms(1) by (cases "query_row stmt_load_identity [] (identity_from_row E) c";
        cases "fst (query_row stmt_load_identity [] (identity_from_row E) c)")
      (auto simp: load_or_create_identity_def load_identity_def lift_db_def)
  have stmt: "stmt_load_identity [] (cn_tables c) = (map Row ?row, 0, cn_tables c)" by (simp split: option.split)
  have c1: "cn_tables c1 = cn_tables c" "cn_saved c1 = None"
    using query_row_tables [OF q stmt assms(4)] saved_closed(3) [OF assms(4), of stmt_load_identity "[]" "identity_from_row E"] q by simp_all
  have load: "load_identity E c = (Inr found, c1)" using q by (simp add: load_identity_def lift_db_def)
  show ?thesis
  proof (cases found)
    case None
    then have none: "t_identity (cn_tables c) = None" using query_row_ok [OF q stmt] by (auto split: option.splits)
    let ?r = "\<lparr>ir_device_id = hex (dr_device d), ir_classical_seed = dr_classical d, ir_pq_seed = dr_pq d, ir_created_at = dr_now d\<rparr>"
    obtain x c2 where x: "save_identity ?r c1 = (x, c2)" by (cases "save_identity ?r c1")
    have "x = Inr () \<and> c2 = c' \<and> did = hex (dr_device d) \<and> kp = \<lparr>ikp_classical = dr_classical d, ikp_pq = \<lparr>mlsk_key = dr_pq d\<rparr>\<rparr>"
      using assms(1) x
      by (cases x) (simp_all add: load_or_create_identity_def load None identity_generate_def identity_seeds_def
          random_hex_device_id_def Let_def)
    with x have save: "run_db stmt_save_identity (identity_params ?r) c1 = (Inr (), c')" and kp: "did = hex (dr_device d)"
        "kp = \<lparr>ikp_classical = dr_classical d, ikp_pq = \<lparr>mlsk_key = dr_pq d\<rparr>\<rparr>"
      by (simp_all add: save_identity_def)
    have t: "stmt_save_identity (identity_params ?r) (cn_tables c1) = ([], 1, (cn_tables c)\<lparr>t_identity := Some (identity_params ?r)\<rparr>)"
      using none c1 by (simp add: identity_params_def)
    note t' = run_db_ok [OF save t]
    have "known_identity E kp did (cn_tables c')"
      unfolding known_identity_def using assms(2,3)
      by (intro exI [of _ "identity_params ?r"] exI [of _ ?r]) (simp add: t' kp identity_row.from_to_row identity_from_seed_def)
    moreover have "conn_wf c'" if "conn_wf c"
    proof -
      have "conn_wf c1" using that assms(4) by (simp add: conn_wf_def c1)
      from run_db_wf [OF stmt_save_identity_wf this, of "identity_params ?r"] show ?thesis unfolding save snd_conv .
    qed
    moreover have "cn_saved c' = None" using run_db_saved [OF c1(2), of stmt_save_identity "identity_params ?r"] by (simp add: save)
    ultimately show ?thesis by (simp add: t')
  next
    case (Some r)
    then obtain row where "t_identity (cn_tables c) = Some row" "identity_from_row E row = Inr r"
      using query_row_ok [OF q stmt] by (auto split: option.splits)
    with assms(1,4) load Some c1 show ?thesis
      by (auto simp: load_or_create_identity_def known_identity_def result_simps conn_wf_def)
  qed
qed

lemma load_or_create_again:
  assumes "cn_faults c = []" "known_identity E kp did (cn_tables c)"
  shows "load_or_create_identity E hex d c = (Inr (kp, did), c)"
proof -
  obtain row r where r: "t_identity (cn_tables c) = Some row" "identity_from_row E row = Inr r" "ir_device_id r = did"
      "identity_from_seed (ir_classical_seed r) (ir_pq_seed r) = Inr kp"
    using assms(2) by (auto simp: known_identity_def)
  have "query_row stmt_load_identity [] (identity_from_row E) c = (Inr (Some r), c)"
    using query_row_quiet [OF assms(1), of "[]" stmt_load_identity "[row]" 0 "identity_from_row E"] r(1,2) by simp
  then show ?thesis using r(3,4) by (simp add: load_or_create_identity_def load_identity_def lift_db_def)
qed

text \<open>What a start leaves behind when it gets as far as the application.\<close>

lemma boot_store_settled:
  assumes "boot_store B (f, c) = (Inr s, disk)" "cn_saved c = None" "length (bt_salt B) = ARGON2_SALT_SIZE"
    and "length (dr_classical (bt_identity B)) = 32" "length (dr_pq (bt_identity B)) = 32" "fs_readable f ''db.salt''"
  shows "settled_store (w_engine (bt_world B)) (bt_argon2 B) (\<lambda>key. bt_key_answer B key = Inr ()) s \<and> (conn_wf c \<longrightarrow> store_ok s)"
proof -
  obtain key f1 c1 where k: "fs_directory f" "db_key (bt_argon2 B) (bt_salt B) f = (Inr key, f1)"
      "database_open (w_engine (bt_world B)) (bt_sqlite B) (bt_path B) (bt_key_answer B key) c = (Inr (), c1)"
      "load_or_create_identity (w_engine (bt_world B)) (w_hex (bt_world B)) (bt_identity B) c1 =
        (Inr (ns_identity s, ns_device_id s), ns_db s)" "ns_fs s = f1"
    using assms(1) by (auto simp: boot_store_def node_store_open_def split: if_splits prod.splits sum.splits)
  have "bt_key_answer B key = Inr ()"
    using k(3) by (cases "bt_key_answer B key") (auto simp: database_open_def database_finish_def split: st_splits_asm)
  moreover have "cn_saved c1 = None" "1 \<le> t_user_version (cn_tables c1)" "conn_wf c \<longrightarrow> conn_wf c1"
    using database_open_ok [OF assms(2) k(3)] by simp_all
  ultimately show ?thesis
    using load_or_create_known [OF k(4) assms(4,5)] db_key_ok [OF k(2) assms(3)] k(1,5) assms(6)
    by (auto simp: settled_store_def store_ok_def db_ok_def)
qed

text \<open>A store that is opened again, by an engine that answers, is the store it was.\<close>

lemma boot_store_again:
  assumes "settled_store (w_engine (bt_world B)) (bt_argon2 B) unlocks s" "cn_faults (ns_db s) = []"
    and "connection_open (bt_sqlite B) (bt_path B) = Inr ()" "\<And>key. unlocks key \<Longrightarrow> bt_key_answer B key = Inr ()"
  shows "boot_store B (ns_fs s, ns_db s) = (Inr s, ns_fs s, ns_db s)"
proof -
  obtain salt key where salt: "fs_directory (ns_fs s)" "fs_files (ns_fs s) ''db.salt'' = Some salt" "length salt = ARGON2_SALT_SIZE"
      "derive_db_key (bt_argon2 B) DEFAULT_PASSPHRASE salt = Inr key" "1 \<le> t_user_version (cn_tables (ns_db s))"
      "known_identity (w_engine (bt_world B)) (ns_identity s) (ns_device_id s) (cn_tables (ns_db s))"
      "fs_readable (ns_fs s) ''db.salt''" "unlocks key"
    using assms(1) by (auto simp: settled_store_def)
  have "database_open (w_engine (bt_world B)) (bt_sqlite B) (bt_path B) (bt_key_answer B key) (ns_db s) = (Inr (), ns_db s)"
    by (rule database_open_again [OF assms(2) salt(5) assms(3) assms(4) [OF salt(8)]])
  with salt db_key_again [OF salt(2-4,7), of "bt_salt B"] load_or_create_again [OF assms(2) salt(6)]
  show ?thesis by (simp add: boot_store_def node_store_open_def)
qed

lemma settled_ext:
  assumes "settled_store E A unlocks s" "store_ext s s'"
  shows "settled_store E A unlocks s'"
  using assms by (auto simp: settled_store_def store_ext_def db_ext_def history_grows_def known_identity_def)

section \<open>Properties\<close>

lemma main_application:
  assumes "main B cli inputs disk = (r, Some a, disk')"
  obtains w node store disk1 where "boot_store B disk = (Inr store, disk1)" "disk' = (ns_fs (app_store a), ns_db (app_store a))"
    "\<exists>r'. demo_main w (cli_role cli) (cli_peer cli) (bt_listening B) store node inputs = (r', Some a)"
  using assms
  by (auto simp: main_def run_demo_def demo_run_def split: if_splits prod.splits sum.splits option.splits)

text \<open>
  C9. A node can be stopped at any time and started again: whatever the role, the lines typed and
  the events of a run, and whatever faults the database had meanwhile, the next start in the
  directory derives again a key that the engine takes, and finds the identity, the device id and all that was
  stored exactly as the run left it. The engine is only assumed to accept a key that it accepted before, and
  the file of the salt to be readable.
\<close>

theorem program_restart:
  assumes "main B cli inputs (f, c) = (r, Some a, disk)" "cn_saved c = None" "conn_wf c" "\<forall>i\<in>set inputs. world_ok (fst i)"
    and "length (bt_salt B) = ARGON2_SALT_SIZE" "length (dr_classical (bt_identity B)) = 32" "length (dr_pq (bt_identity B)) = 32"
    and "w_engine (bt_world B') = w_engine (bt_world B)" "bt_argon2 B' = bt_argon2 B"
    and "connection_open (bt_sqlite B') (bt_path B') = Inr ()" "\<forall>key. bt_key_answer B key = Inr () \<longrightarrow> bt_key_answer B' key = Inr ()"
    and "fs_readable f ''db.salt''" "c' = (snd disk)\<lparr>cn_faults := []\<rparr>"
  shows "boot_store B' (fst disk, c') = (Inr ((app_store a)\<lparr>ns_db := c'\<rparr>), fst disk, c')"
proof -
  obtain w node store disk1 r' where run: "boot_store B (f, c) = (Inr store, disk1)"
      "disk = (ns_fs (app_store a), ns_db (app_store a))"
      "demo_main w (cli_role cli) (cli_peer cli) (bt_listening B) store node inputs = (r', Some a)"
    using main_application [OF assms(1)] by metis
  let ?unlocks = "\<lambda>key. bt_key_answer B key = Inr ()"
  have "settled_store (w_engine (bt_world B)) (bt_argon2 B) ?unlocks store" "store_ok store"
    using boot_store_settled [OF run(1) assms(2,5-7,12)] assms(3) by simp_all
  then have "settled_store (w_engine (bt_world B)) (bt_argon2 B) ?unlocks (app_store a)"
    using demo_main_keeps [OF _ assms(4) run(3)] settled_ext by blast
  then have "settled_store (w_engine (bt_world B')) (bt_argon2 B') ?unlocks ((app_store a)\<lparr>ns_db := c'\<rparr>)"
    using assms(8,9,13) run(2) by (simp add: settled_store_def)
  from boot_store_again [OF this] assms(10,11,13) run(2) show ?thesis by simp
qed

text \<open>The one key of the samples: derived from the salt \<open>3, ..., 3\<close> by a stand-in for Argon2id.\<close>

definition sample_unlocks :: "bytes \<Rightarrow> bool" where
  "sample_unlocks key \<longleftrightarrow> key = replicate 16 3 @ take 16 DEFAULT_PASSPHRASE"

definition sample_boot :: "unit boot" where
  "sample_boot = \<lparr>bt_spawn = True, bt_runtime = True, bt_keypairs = \<lparr>kp_from_bytes = (\<lambda>_. Inr ()), kp_peer_id = (\<lambda>_. ''peer-a'')\<rparr>,
     bt_swarm = \<lparr>sa_tcp = Inr (), sa_dns = Inr (), sa_mdns = (\<lambda>_. Inr ()), sa_gossipsub = (\<lambda>_. Inr ()), sa_show_boxed = (\<lambda>s. s)\<rparr>,
     bt_keypair = (), bt_argon2 = \<lparr>ar_params = (\<lambda>_ _ _ _. Inr ()), ar_hash = (\<lambda>p s n. Inr (take n (s @ p)))\<rparr>,
     bt_sqlite = (\<lambda>_. (False, SQLITE_OK, None)), bt_path = Some ''presidium.db'',
     bt_key_answer = (\<lambda>key. if sample_unlocks key then Inr () else Inl \<lparr>se_code = 26, se_message = ''file is not a database''\<rparr>),
     bt_salt = replicate 16 3, bt_identity = \<lparr>dr_classical = replicate 32 1, dr_pq = replicate 32 2, dr_device = [10], dr_now = 3\<rparr>,
     bt_listening = None, bt_world = sample_start_world\<rparr>"

text \<open>A store that an earlier start has left, with a prekey file.\<close>

definition sample_home :: "byte \<Rightarrow> string \<Rightarrow> bytes \<Rightarrow> node_store" where
  "sample_home b did prekey_file =
     \<lparr>ns_db = sample_db (migrated_tables\<lparr>t_identity := Some (identity_params
        \<lparr>ir_device_id = did, ir_classical_seed = replicate 32 b, ir_pq_seed = replicate 32 b, ir_created_at = 1\<rparr>)\<rparr>) [],
      ns_fs = \<lparr>fs_directory = True, fs_files = [''db.salt'' \<mapsto> replicate 16 3, ''bundle.json'' \<mapsto> prekey_file],
        fs_readable = (\<lambda>_. True), fs_writes = (\<lambda>_. Written)\<rparr>,
      ns_identity = sample_identity b, ns_device_id = did\<rparr>"

lemma sample_home_settled: "settled_store sample_engine (bt_argon2 sample_boot) sample_unlocks (sample_home b did prekey_file)"
  by (simp add: sample_unlocks_def settled_store_def sample_home_def sample_boot_def sample_db_def migrated_tables_def
      known_identity_def identity_row.from_to_row identity_from_seed_def sample_identity_def derive_db_key_def)

lemma sample_home_ok: "store_ok (sample_home b did prekey_file)"
  by (simp add: store_ok_def db_ok_def sample_home_def sample_db_def conn_wf_def db_wf_def migrated_tables_def empty_tables_def)

lemma sample_sqlite_opens: "connection_open (bt_sqlite sample_boot) (bt_path sample_boot) = Inr ()"
  by (simp add: sample_boot_def connection_open_def check_def NUL_def)

theorem program_restart_witness:
  "\<exists>r a f c. main sample_boot \<lparr>cli_role = Initiator, cli_peer = Some ''/p2p/peer-b''\<rparr>
      [(sample_world 1 1, NodeEvent (DirectMessage ''mallory'' sample_garbage))]
      (ns_fs (sample_home 2 ''dev-bob'' []), ns_db (sample_home 2 ''dev-bob'' [])) = (r, Some a, f, c) \<and>
    boot_store (sample_boot\<lparr>bt_salt := []\<rparr>) (f, c\<lparr>cn_faults := []\<rparr>) = (Inr ((app_store a)\<lparr>ns_db := c\<lparr>cn_faults := []\<rparr>\<rparr>), f, c\<lparr>cn_faults := []\<rparr>)"
proof -
  let ?cli = "\<lparr>cli_role = Initiator, cli_peer = Some ''/p2p/peer-b''\<rparr>"
  let ?inputs = "[(sample_world 1 1, NodeEvent (DirectMessage ''mallory'' sample_garbage))]"
  let ?fs = "ns_fs (sample_home 2 ''dev-bob'' [])" let ?db = "ns_db (sample_home 2 ''dev-bob'' [])"
  have db: "cn_faults ?db = []" "cn_saved ?db = None" "conn_wf ?db"
    using sample_home_ok [of 2 "''dev-bob''" "[]"] by (simp_all add: store_ok_def db_ok_def) (simp add: sample_home_def sample_db_def)
  have E: "w_engine (bt_world sample_boot) = sample_engine" by (simp add: sample_boot_def sample_start_world_def sample_world_def)
  have key: "sample_unlocks key \<Longrightarrow> bt_key_answer sample_boot key = Inr ()" for key by (simp add: sample_boot_def)
  have readable: "fs_readable ?fs ''db.salt''" by (simp add: sample_home_def)
  have "boot_store sample_boot (?fs, ?db) = (Inr (sample_home 2 ''dev-bob'' []), ?fs, ?db)"
    by (rule boot_store_again [where unlocks = sample_unlocks, OF _ db(1) sample_sqlite_opens]) (simp_all add: key E sample_home_settled)
  moreover obtain node where "p2p_start (bt_keypairs sample_boot) (bt_swarm sample_boot) (bt_keypair sample_boot) demo_config = Inr node"
    by (simp add: sample_boot_def p2p_start_def build_swarm_def behaviour_new_def Let_def)
  moreover have "bt_spawn sample_boot" "bt_runtime sample_boot" by (simp_all add: sample_boot_def)
  moreover obtain r0 a where "demo_main ((bt_world sample_boot)\<lparr>w_peer_id := p2p_peer_id (bt_keypairs sample_boot) node\<rparr>) Initiator
      (Some ''/p2p/peer-b'') (bt_listening sample_boot) (sample_home 2 ''dev-bob'' []) \<lparr>ph_running = True, ph_queue = pn_queue node\<rparr> ?inputs = (r0, Some a)"
    using demo_main_some by blast
  ultimately have run: "main sample_boot ?cli ?inputs (?fs, ?db) = (join_thread r0, Some a, ns_fs (app_store a), ns_db (app_store a))"
    by (simp add: main_def run_demo_def demo_run_def)
  have w: "\<forall>i\<in>set ?inputs. world_ok (fst i)" by (simp add: sample_world_ok)
  have b: "length (bt_salt sample_boot) = ARGON2_SALT_SIZE" "length (dr_classical (bt_identity sample_boot)) = 32"
      "length (dr_pq (bt_identity sample_boot)) = 32" by (simp_all add: sample_boot_def)
  have "boot_store (sample_boot\<lparr>bt_salt := []\<rparr>) (ns_fs (app_store a), (ns_db (app_store a))\<lparr>cn_faults := []\<rparr>) =
      (Inr ((app_store a)\<lparr>ns_db := (ns_db (app_store a))\<lparr>cn_faults := []\<rparr>\<rparr>), ns_fs (app_store a), (ns_db (app_store a))\<lparr>cn_faults := []\<rparr>)"
    using program_restart [OF run db(2,3) w b, of "sample_boot\<lparr>bt_salt := []\<rparr>"] sample_sqlite_opens readable by simp
  with run show ?thesis by blast
qed

end
