(* ===== verification/Restarts.thy ===== *)
theory Restarts
  imports Program
begin

text \<open>
  Conversations that outlive the programs: both sides may be stopped between any two steps
  and started again in their directories, and messages may arrive in any order or not at all.
\<close>

section \<open>Programs that start\<close>

text \<open>A start whose engine opens the file with the keys \<open>U\<close>, those it was encrypted with.\<close>

definition boots :: "column_engine \<Rightarrow> argon2 \<Rightarrow> (bytes \<Rightarrow> bool) \<Rightarrow> json_text \<Rightarrow> 'k boot \<Rightarrow> bool" where
  "boots E A U J B \<longleftrightarrow> bt_spawn B \<and> bt_runtime B \<and>
     is_ok (p2p_start (bt_keypairs B) (bt_swarm B) (bt_keypair B) demo_config) \<and>
     connection_open (bt_sqlite B) (bt_path B) = Inr () \<and> (\<forall>key. U key \<longrightarrow> bt_key_answer B key = Inr ()) \<and>
     bt_argon2 B = A \<and> w_engine (bt_world B) = E \<and> w_json (bt_world B) = J"

lemma main_booted:
  assumes "boots E A U J B" "settled_store E A U s" "cn_faults (ns_db s) = []"
  shows "\<exists>peer r a. demo_main ((bt_world B)\<lparr>w_peer_id := peer\<rparr>) (cli_role cli) (cli_peer cli) (bt_listening B) s
      \<lparr>ph_running = True, ph_queue = []\<rparr> inputs = (r, Some a) \<and>
    main B cli inputs (ns_fs s, ns_db s) = (join_thread r, Some a, ns_fs (app_store a), ns_db (app_store a))"
proof -
  obtain node where node: "p2p_start (bt_keypairs B) (bt_swarm B) (bt_keypair B) demo_config = Inr node"
    using assms(1) by (auto simp: boots_def is_ok_iff)
  then have q: "pn_queue node = []" by (auto simp: p2p_start_def result_simps)
  let ?peer = "p2p_peer_id (bt_keypairs B) node"
  obtain r a where d: "demo_main ((bt_world B)\<lparr>w_peer_id := ?peer\<rparr>) (cli_role cli) (cli_peer cli) (bt_listening B) s
      \<lparr>ph_running = True, ph_queue = []\<rparr> inputs = (r, Some a)"
    using demo_main_some by blast
  have "boot_store B (ns_fs s, ns_db s) = (Inr s, ns_fs s, ns_db s)"
    using assms by (intro boot_store_again [where unlocks = U]) (auto simp: boots_def)
  with node q d assms(1) show ?thesis
    by (intro exI [of _ ?peer] exI [of _ r] exI [of _ a]) (simp add: main_def run_demo_def demo_run_def boots_def)
qed

lemma app_new_booted:
  "\<exists>a. app_new w store node = Inr a \<and> app_store a = store \<and> app_node a = node \<and> app_session a = None"
  by (simp add: app_new_def group_new_def group_topic_def topic_for_def DEMO_GROUP_def bstr_def print_banner_def say_def)

section \<open>The responder\<close>

text \<open>The prekey of an earlier start is there, and addresses that are put together parse.\<close>

definition prekey_stored :: "json_text \<Rightarrow> node_store \<Rightarrow> bool" where
  "prekey_stored J s \<longleftrightarrow> (\<exists>t m. fs_read_string ''bundle.json'' (ns_fs s) = Inr t \<and>
     from_str J prekey_material_of_json t = Inr m)"

definition addresses_parse :: "world \<Rightarrow> bool" where
  "addresses_parse w \<longleftrightarrow> (\<forall>addrs peer. is_ok (dialable_address w addrs peer))"

lemma start_responder_ok:
  assumes "prekey_stored (w_json w) (app_store a)" "addresses_parse w" "ph_running (app_node a)"
  shows "\<exists>a'. start_responder w answer a = (Inr (), a') \<and> app_store a' = app_store a \<and> app_session a' = app_session a"
proof -
  obtain t m where m: "fs_read_string ''bundle.json'' (ns_fs (app_store a)) = Inr t"
      "from_str (w_json w) prekey_material_of_json t = Inr m"
    using assms(1) by (auto simp: prekey_stored_def)
  have "\<exists>d. dialable_address w addrs peer = Inr d" for addrs peer
    using assms(2) by (simp add: addresses_parse_def is_ok_iff)
  then obtain d where d: "\<And>addrs peer. dialable_address w addrs peer = Inr (d addrs peer)" by metis
  show ?thesis
    using m assms(3)
    by (simp add: start_responder_def app_subscribe_def node_subscribe_def send_control_def with_store_def store_prekey_def context_json_def
        Let_def node_listen_addrs_def d)
qed

text \<open>A store from which a run of the responder goes on reading.\<close>

definition reads_on ::
    "prims \<Rightarrow> json_text \<Rightarrow> column_engine \<Rightarrow> argon2 \<Rightarrow> (bytes \<Rightarrow> bool) \<Rightarrow> identity_key_pair \<Rightarrow> bytes \<Rightarrow> string \<Rightarrow> chain_key \<Rightarrow> nat set \<Rightarrow> bytes list \<Rightarrow>
      node_store \<Rightarrow> bool"
where
  "reads_on P J E A U alice k cid c D uids s \<longleftrightarrow> settled_store E A U s \<and> prekey_stored J s \<and> room_for cid uids s \<and>
     (\<exists>chat. reads_session P alice k c D chat \<and> saved J cid chat s)"

lemma reads_on_frame:
  assumes "reads_on P J E A U alice k cid c D uids s" "store_ext s s'" "reads_any P J alice k cid c D' b" "app_store b = s'"
    and "room_for cid uids' s'"
  shows "reads_on P J E A U alice k cid c D' uids' s'"
proof -
  have "prekey_stored J s'" using assms(1,2) by (auto simp: reads_on_def prekey_stored_def store_ext_def)
  with assms settled_ext show ?thesis by (auto simp: reads_on_def reads_any_def)
qed

text \<open>
  One run of the responder: it starts, resumes the session at the first message that arrives,
  prints the messages and leaves a store from which the next run goes on.
\<close>

lemma responder_run:
  assumes laws: "text_laws P J" "fresh_chain P c" "plain cid" "utf8 (bstr cid)"
    and sent: "all_sent P J alice k cid c sent es" "length sent \<le> Suc MAX_SKIP_MESSAGES" "\<forall>m\<in>set sent. utf8 (snd m)"
      "\<forall>e\<in>set es. unmarked e"
    and B: "boots E A U J B" "addresses_parse (bt_world B)" "cli_role cli = Responder"
    and arr: "arrivals_ok P J sent D arrivals" "\<forall>(w, sender, i)\<in>set arrivals. world_ok w"
    and s: "reads_on P J E A U alice k cid c D (arrival_ids sent arrivals @ uids) s" "store_ok s"
  shows "\<exists>b printed. main B cli (arrival_inputs es arrivals) (ns_fs s, ns_db s) =
      (None, Some b, ns_fs (app_store b), ns_db (app_store b)) \<and>
    app_output b = printed @ map (printed_line sent) arrivals \<and>
    reads_on P J E A U alice k cid c (D \<union> (snd \<circ> snd) ` set arrivals) uids (app_store b) \<and> store_ok (app_store b)"
proof -
  obtain chat where chat: "settled_store E A U s" "prekey_stored J s" "room_for cid (arrival_ids sent arrivals @ uids) s"
      "reads_session P alice k c D chat" "saved J cid chat s"
    using s(1) by (auto simp: reads_on_def)
  have f: "cn_faults (ns_db s) = []" using chat(5) by (simp add: saved_def)
  obtain peer r b where run: "demo_main ((bt_world B)\<lparr>w_peer_id := peer\<rparr>) (cli_role cli) (cli_peer cli) (bt_listening B) s
      \<lparr>ph_running = True, ph_queue = []\<rparr> (arrival_inputs es arrivals) = (r, Some b)"
    "main B cli (arrival_inputs es arrivals) (ns_fs s, ns_db s) = (join_thread r, Some b, ns_fs (app_store b), ns_db (app_store b))"
    using main_booted [OF B(1) chat(1) f] by blast
  let ?w = "(bt_world B)\<lparr>w_peer_id := peer\<rparr>"
  obtain a0 where a0: "app_new ?w s \<lparr>ph_running = True, ph_queue = []\<rparr> = Inr a0" "app_store a0 = s"
      "app_node a0 = \<lparr>ph_running = True, ph_queue = []\<rparr>" "app_session a0 = None"
    using app_new_booted by blast
  have "dialable_address ?w = dialable_address (bt_world B)"
    by (intro ext) (simp add: dialable_address_def split: option.split)
  then have "prekey_stored (w_json ?w) (app_store a0)" "addresses_parse ?w" "ph_running (app_node a0)"
    using chat(2) B(1,2) a0 by (simp_all add: boots_def addresses_parse_def)
  then obtain a1 where a1: "start_responder ?w (bt_listening B) a0 = (Inr (), a1)" "app_store a1 = s" "app_session a1 = None"
    using start_responder_ok [of ?w a0 "bt_listening B"] a0(2,4) by auto
  have any: "reads_any P J alice k cid c D a1" using chat(4,5) a1(2,3) by (auto simp: reads_any_def)
  obtain b' where b': "run_loop (arrival_inputs es arrivals) False a1 = (None, b')"
      "app_output b' = app_output a1 @
        (if app_session a1 = None \<and> arrivals \<noteq> [] then [''[responder] resumed persisted session''] else []) @
        map (printed_line sent) arrivals"
      "reads_any P J alice k cid c (D \<union> (snd \<circ> snd) ` set arrivals) b'" "room_for cid uids (app_store b')"
    using arrivals_read [OF laws sent arr(1) any, of uids False] chat(3) a1(2) by blast
  have b: "r = None" "b = b'" using run(1) a0(1) a1(1) b'(1) B(3) by (simp_all add: demo_main_def)
  have "\<forall>i\<in>set (arrival_inputs es arrivals). world_ok (fst i)" using arr(2) by auto
  from demo_main_keeps [OF s(2) this run(1)] have "app_ok b" "store_ext s (app_store b)" by simp_all
  then show ?thesis
    using run(2) b b'(2) reads_on_frame [OF s(1) _ b'(3) _ b'(4)]
    by (intro exI [of _ b'] exI [of _ "app_output a1 @ (if arrivals \<noteq> [] then [''[responder] resumed persisted session''] else [])"])
      (simp add: app_ok_def a1(3))
qed

section \<open>The initiator\<close>

text \<open>A store from which a run of the initiator goes on sending, at position \<open>n\<close> of the chain.\<close>

definition sends_on ::
    "prims \<Rightarrow> json_text \<Rightarrow> column_engine \<Rightarrow> argon2 \<Rightarrow> (bytes \<Rightarrow> bool) \<Rightarrow> identity_key_pair \<Rightarrow> bytes \<Rightarrow> string \<Rightarrow> chain_key \<Rightarrow> nat \<Rightarrow> bytes list \<Rightarrow>
      node_store \<Rightarrow> bool"
where
  "sends_on P J E A U alice k cid c n uids s \<longleftrightarrow> settled_store E A U s \<and> room_for cid uids s \<and> store_open cid s \<and>
     ns_identity s = alice \<and> ns_device_id s = cid \<and>
     (\<exists>chat. saved J cid chat s \<and> rc_our_ratchet_key (dr_sending_chain (ch_ratchet chat)) = Some k \<and>
        rc_chain_key (dr_sending_chain (ch_ratchet chat)) = Some (link P c n))"

lemma sends_at_on:
  assumes "sends_at P alice k cid peer c n a" "persisted J cid a" "settled_store E A U (app_store a)" "room_for cid uids (app_store a)"
  shows "sends_on P J E A U alice k cid c n uids (app_store a)"
  using assms by (auto simp: sends_at_def sends_on_def persisted_def)

lemma start_initiator_resumes:
  assumes "w_parse_addr w t = Some addr" "peer_id_of addr = Inr peer" "ph_running (app_node a)" "w_json w = J"
    and "saved J cid chat (app_store a)" "plain cid" "ns_device_id (app_store a) = cid"
  shows "\<exists>a'. start_initiator w (Some t) a = (Inr (), a') \<and> app_store a' = app_store a \<and> app_session a' = Some chat \<and>
    app_peer a' = Some peer \<and> ph_running (app_node a') \<and>
    ph_queue (app_node a') = ph_queue (app_node a) @ [Subscribe (gc_topic (app_group a)), Dial addr]"
  using assms(1-4,7) saved_resume [OF assms(5,6), of "w_engine w"]
  by (simp add: start_initiator_def app_subscribe_def node_subscribe_def node_dial_def send_control_def with_store_def Let_def)

text \<open>
  One run of the initiator: it resumes its session, sends the lines along the chain where
  the run before stopped, and leaves a store for the next run. The peer may have another address.
\<close>

lemma initiator_run:
  assumes laws: "text_laws P J" "ikp_wf alice" "length k = 32" "fresh_chain P c" "plain cid"
    and B: "boots E A U J B" "cli_role cli = Initiator" "cli_peer cli = Some t" "w_parse_addr (bt_world B) t = Some addr"
      "peer_id_of addr = Inr peer"
    and typed: "\<forall>(w, line)\<in>set typed. w_prims w = P \<and> w_json w = J \<and> chat_line line \<and> world_ok w" "n + length typed \<le> 2 ^ 64"
    and s: "sends_on P J E A U alice k cid c n (sent_ids typed @ uids) s" "store_ok s"
  shows "\<exists>a es controls. main B cli (line_inputs typed) (ns_fs s, ns_db s) =
      (None, Some a, ns_fs (app_store a), ns_db (app_store a)) \<and>
    ph_queue (app_node a) = controls @ map (SendDirect peer) es \<and> length controls = 2 \<and> chat_stream P J alice k cid c n typed es \<and>
    sends_on P J E A U alice k cid c (n + length typed) uids (app_store a) \<and> store_ok (app_store a)"
proof -
  obtain chat where chat: "settled_store E A U s" "room_for cid (sent_ids typed @ uids) s" "store_open cid s" "ns_identity s = alice"
      "ns_device_id s = cid" "saved J cid chat s" "rc_our_ratchet_key (dr_sending_chain (ch_ratchet chat)) = Some k"
      "rc_chain_key (dr_sending_chain (ch_ratchet chat)) = Some (link P c n)"
    using s(1) by (auto simp: sends_on_def)
  have f: "cn_faults (ns_db s) = []" "chat_wf chat" "ch_conversation_id chat = cid" using chat(6) by (simp_all add: saved_def)
  obtain own r b where run: "demo_main ((bt_world B)\<lparr>w_peer_id := own\<rparr>) (cli_role cli) (cli_peer cli) (bt_listening B) s
      \<lparr>ph_running = True, ph_queue = []\<rparr> (line_inputs typed) = (r, Some b)"
    "main B cli (line_inputs typed) (ns_fs s, ns_db s) = (join_thread r, Some b, ns_fs (app_store b), ns_db (app_store b))"
    using main_booted [OF B(1) chat(1) f(1)] by blast
  let ?w = "(bt_world B)\<lparr>w_peer_id := own\<rparr>"
  obtain a0 where a0: "app_new ?w s \<lparr>ph_running = True, ph_queue = []\<rparr> = Inr a0" "app_store a0 = s"
      "app_node a0 = \<lparr>ph_running = True, ph_queue = []\<rparr>"
    using app_new_booted by blast
  have w: "w_parse_addr ?w t = Some addr" "w_json ?w = J" using B(1,4) by (simp_all add: boots_def)
  obtain a1 where a1: "start_initiator ?w (Some t) a0 = (Inr (), a1)" "app_store a1 = s" "app_session a1 = Some chat"
      "app_peer a1 = Some peer" "ph_running (app_node a1)" "ph_queue (app_node a1) = [Subscribe (gc_topic (app_group a0)), Dial addr]"
    using start_initiator_resumes [OF w(1) B(5) _ w(2), of a0 cid chat] chat(5,6) laws(5) a0(2,3) by auto
  have at: "sends_at P alice k cid peer c n a1" "persisted J cid a1" "room_for cid (sent_ids typed @ uids) (app_store a1)"
    using a1 chat f by (simp_all add: sends_at_def persisted_def)
  have "\<forall>(w, line)\<in>set typed. w_prims w = P \<and> w_json w = J \<and> chat_line line" using typed(1) by auto
  then obtain es a' where es: "run_loop (line_inputs typed) False a1 = (None, a')" "chat_stream P J alice k cid c n typed es"
      "ph_queue (app_node a') = ph_queue (app_node a1) @ map (SendDirect peer) es" "sends_at P alice k cid peer c (n + length typed) a'"
      "persisted J cid a'" "room_for cid uids (app_store a')"
    using lines_sent [OF laws _ typed(2) at(1,3), of False] at(2) by blast
  have b: "r = None" "b = a'" using run(1) a0(1) a1(1) es(1) B(2,3) by (simp_all add: demo_main_def)
  have "\<forall>i\<in>set (line_inputs typed). world_ok (fst i)" using typed(1) by auto
  from demo_main_keeps [OF s(2) this run(1)] have keeps: "app_ok b" "store_ext s (app_store b)" by simp_all
  have "sends_on P J E A U alice k cid c (n + length typed) uids (app_store a')"
    using sends_at_on [OF es(4,5) settled_ext [OF chat(1)] es(6)] keeps(2) b(2) by simp
  with run(2) b es(2,3) a1(6) keeps(1) show ?thesis
    by (intro exI [of _ a'] exI [of _ es] exI [of _ "[Subscribe (gc_topic (app_group a0)), Dial addr]"]) (simp add: app_ok_def)
qed

section \<open>Runs one after the other\<close>

text \<open>The program started again and again in one directory.\<close>

fun runs :: "('k boot \<times> cli \<times> (world \<times> app_input) list) list \<Rightarrow> disk \<Rightarrow> (unit app_result option \<times> app option) list" where
  "runs [] disk = []"
| "runs ((B, cli, inputs) # rest) disk = (case main B cli inputs disk of (r, a, disk1) \<Rightarrow> (r, a) # runs rest disk1)"

definition disk_of :: "app \<Rightarrow> disk" where
  "disk_of a = (ns_fs (app_store a), ns_db (app_store a))"

text \<open>Runs of the responder with what arrives in them, and runs of the initiator with what is typed.\<close>

type_synonym 'k reading = "'k boot \<times> cli \<times> arrival list"
type_synonym 'k typing = "'k boot \<times> cli \<times> peer_id \<times> (world \<times> string) list"

definition arrivals_of :: "'k reading list \<Rightarrow> arrival list" where
  "arrivals_of rs = concat (map (\<lambda>(B, cli, arrivals). arrivals) rs)"

definition typed_of :: "'k typing list \<Rightarrow> (world \<times> string) list" where
  "typed_of ts = concat (map (\<lambda>(B, cli, peer, typed). typed) ts)"

definition reading_ok :: "column_engine \<Rightarrow> argon2 \<Rightarrow> (bytes \<Rightarrow> bool) \<Rightarrow> json_text \<Rightarrow> 'k reading \<Rightarrow> bool" where
  "reading_ok E A U J run = (case run of (B, cli, arrivals) \<Rightarrow>
     boots E A U J B \<and> addresses_parse (bt_world B) \<and> cli_role cli = Responder \<and> (\<forall>(w, sender, i)\<in>set arrivals. world_ok w))"

definition typing_ok :: "prims \<Rightarrow> column_engine \<Rightarrow> argon2 \<Rightarrow> (bytes \<Rightarrow> bool) \<Rightarrow> json_text \<Rightarrow> 'k typing \<Rightarrow> bool" where
  "typing_ok P E A U J run = (case run of (B, cli, peer, typed) \<Rightarrow>
     boots E A U J B \<and> cli_role cli = Initiator \<and>
     (\<exists>t addr. cli_peer cli = Some t \<and> w_parse_addr (bt_world B) t = Some addr \<and> peer_id_of addr = Inr peer) \<and>
     (\<forall>(w, line)\<in>set typed. w_prims w = P \<and> w_json w = J \<and> chat_line line \<and> world_ok w))"

abbreviation reading_runs :: "network_envelope list \<Rightarrow> 'k reading list \<Rightarrow> ('k boot \<times> cli \<times> (world \<times> app_input) list) list" where
  "reading_runs es rs \<equiv> map (\<lambda>(B, cli, arrivals). (B, cli, arrival_inputs es arrivals)) rs"

abbreviation typing_runs :: "'k typing list \<Rightarrow> ('k boot \<times> cli \<times> (world \<times> app_input) list) list" where
  "typing_runs ts \<equiv> map (\<lambda>(B, cli, peer, typed). (B, cli, line_inputs typed)) ts"

text \<open>What a run of each kind does.\<close>

definition prints :: "(int \<times> bytes) list \<Rightarrow> 'k reading \<Rightarrow> app \<Rightarrow> bool" where
  "prints sent run b \<longleftrightarrow> (\<exists>printed. app_output b = printed @ (case run of (B, cli, arrivals) \<Rightarrow> map (printed_line sent) arrivals))"

definition queues :: "'k typing \<Rightarrow> network_envelope list \<Rightarrow> app \<Rightarrow> bool" where
  "queues run es a \<longleftrightarrow> (case run of (B, cli, peer, typed) \<Rightarrow>
     \<exists>controls. length controls = 2 \<and> ph_queue (app_node a) = controls @ map (SendDirect peer) es)"

lemma arrivals_ok_append:
  "arrivals_ok P J sent D (xs @ ys) \<longleftrightarrow> arrivals_ok P J sent D xs \<and> arrivals_ok P J sent (D \<union> (snd \<circ> snd) ` set xs) ys"
  by (auto simp: arrivals_ok_def)

lemma arrival_ids_append: "arrival_ids sent (xs @ ys) = arrival_ids sent xs @ arrival_ids sent ys"
  by (simp add: arrival_ids_def)

lemma sent_ids_append: "sent_ids (xs @ ys) = sent_ids xs @ sent_ids ys"
  by (simp add: sent_ids_def)

lemma responder_runs:
  assumes laws: "text_laws P J" "fresh_chain P c" "plain cid" "utf8 (bstr cid)"
    and sent: "all_sent P J alice k cid c sent es" "length sent \<le> Suc MAX_SKIP_MESSAGES" "\<forall>m\<in>set sent. utf8 (snd m)"
      "\<forall>e\<in>set es. unmarked e"
  shows "\<forall>run\<in>set rs. reading_ok E A U J run \<Longrightarrow> arrivals_ok P J sent D (arrivals_of rs) \<Longrightarrow>
    reads_on P J E A U alice k cid c D (arrival_ids sent (arrivals_of rs)) s \<Longrightarrow> store_ok s \<Longrightarrow>
    \<exists>bs. runs (reading_runs es rs) (ns_fs s, ns_db s) = map (\<lambda>b. (None, Some b)) bs \<and> list_all2 (prints sent) rs bs"
proof (induction rs arbitrary: D s)
  case Nil
  then show ?case by simp
next
  case (Cons run rs)
  obtain B cli arrivals where run: "run = (B, cli, arrivals)" by (cases run)
  have ok: "boots E A U J B" "addresses_parse (bt_world B)" "cli_role cli = Responder" "\<forall>(w, sender, i)\<in>set arrivals. world_ok w"
    using Cons.prems(1) by (simp_all add: run reading_ok_def)
  have split: "arrivals_of (run # rs) = arrivals @ arrivals_of rs" by (simp add: arrivals_of_def run)
  have arr: "arrivals_ok P J sent D arrivals" "arrivals_ok P J sent (D \<union> (snd \<circ> snd) ` set arrivals) (arrivals_of rs)"
    using Cons.prems(2) by (simp_all add: split arrivals_ok_append)
  obtain b printed where b: "main B cli (arrival_inputs es arrivals) (ns_fs s, ns_db s) =
      (None, Some b, ns_fs (app_store b), ns_db (app_store b))" "app_output b = printed @ map (printed_line sent) arrivals"
      "reads_on P J E A U alice k cid c (D \<union> (snd \<circ> snd) ` set arrivals) (arrival_ids sent (arrivals_of rs)) (app_store b)"
      "store_ok (app_store b)"
    using responder_run [OF laws sent ok(1-3) arr(1) ok(4) Cons.prems(3) [unfolded split arrival_ids_append] Cons.prems(4)] by blast
  obtain bs where "runs (reading_runs es rs) (ns_fs (app_store b), ns_db (app_store b)) = map (\<lambda>b. (None, Some b)) bs"
      "list_all2 (prints sent) rs bs"
    using Cons.IH [OF _ arr(2) b(3,4)] Cons.prems(1) by auto
  moreover have "prints sent run b" using b(2) by (auto simp: run prints_def)
  ultimately show ?case using b(1) by (intro exI [of _ "b # bs"]) (simp add: run)
qed

lemma chat_stream_append:
  "chat_stream P J alice k cid c n xs es \<Longrightarrow> chat_stream P J alice k cid c (n + length xs) ys fs \<Longrightarrow>
    chat_stream P J alice k cid c n (xs @ ys) (es @ fs)"
proof (induction xs arbitrary: n es)
  case Nil
  then show ?case by simp
next
  case (Cons x xs)
  obtain w l where x: "x = (w, l)" by (cases x)
  obtain e es' where e: "es = e # es'" using Cons.prems(1) by (cases es) (simp_all add: x)
  show ?case using Cons.prems Cons.IH [of "Suc n" es'] by (simp add: x e)
qed

lemma initiator_runs:
  assumes laws: "text_laws P J" "ikp_wf alice" "length k = 32" "fresh_chain P c" "plain cid"
  shows "\<forall>run\<in>set ts. typing_ok P E A U J run \<Longrightarrow> n + length (typed_of ts) \<le> 2 ^ 64 \<Longrightarrow>
    sends_on P J E A U alice k cid c n (sent_ids (typed_of ts)) s \<Longrightarrow> store_ok s \<Longrightarrow>
    \<exists>as ess. runs (typing_runs ts) (ns_fs s, ns_db s) = map (\<lambda>a. (None, Some a)) as \<and>
      length ess = length ts \<and> length as = length ts \<and> (\<forall>i<length ts. queues (ts ! i) (ess ! i) (as ! i)) \<and>
      chat_stream P J alice k cid c n (typed_of ts) (concat ess)"
proof (induction ts arbitrary: n s)
  case Nil
  then show ?case by (simp add: typed_of_def)
next
  case (Cons run ts)
  obtain B cli peer typed where run: "run = (B, cli, peer, typed)" by (cases run)
  obtain t addr where ok: "boots E A U J B" "cli_role cli = Initiator" "cli_peer cli = Some t" "w_parse_addr (bt_world B) t = Some addr"
      "peer_id_of addr = Inr peer" "\<forall>(w, line)\<in>set typed. w_prims w = P \<and> w_json w = J \<and> chat_line line \<and> world_ok w"
    using Cons.prems(1) by (auto simp: run typing_ok_def)
  have split: "typed_of (run # ts) = typed @ typed_of ts" by (simp add: typed_of_def run)
  have len: "n + length typed \<le> 2 ^ 64" "n + length typed + length (typed_of ts) \<le> 2 ^ 64" using Cons.prems(2) by (simp_all add: split)
  obtain a es controls where a: "main B cli (line_inputs typed) (ns_fs s, ns_db s) = (None, Some a, ns_fs (app_store a), ns_db (app_store a))"
      "ph_queue (app_node a) = controls @ map (SendDirect peer) es" "length controls = 2" "chat_stream P J alice k cid c n typed es"
      "sends_on P J E A U alice k cid c (n + length typed) (sent_ids (typed_of ts)) (app_store a)" "store_ok (app_store a)"
    using initiator_run [OF laws ok len(1) Cons.prems(3) [unfolded split sent_ids_append] Cons.prems(4)] by blast
  obtain as ess where rest: "runs (typing_runs ts) (ns_fs (app_store a), ns_db (app_store a)) = map (\<lambda>a. (None, Some a)) as"
      "length ess = length ts" "length as = length ts" "\<forall>i<length ts. queues (ts ! i) (ess ! i) (as ! i)"
      "chat_stream P J alice k cid c (n + length typed) (typed_of ts) (concat ess)"
    using Cons.IH [OF _ len(2) a(5,6)] Cons.prems(1) by auto
  have "queues run es a" using a(2,3) by (auto simp: queues_def run)
  then have "\<forall>i<length (run # ts). queues ((run # ts) ! i) ((es # ess) ! i) ((a # as) ! i)"
    using rest(4) by (simp add: All_less_Suc2)
  with a(1) rest chat_stream_append [OF a(4) rest(5)] show ?case
    by (intro exI [of _ "a # as"] exI [of _ "es # ess"]) (simp add: run split [unfolded run])
qed

section \<open>The whole conversation\<close>

text \<open>Times and texts of the greeting and the lines.\<close>

definition conversation :: "world \<Rightarrow> string \<Rightarrow> (world \<times> string) list \<Rightarrow> (int \<times> bytes) list" where
  "conversation w cid typed = (w_now w, hello cid) # map (\<lambda>(w, line). (w_now w, bstr (trim line))) typed"

lemma stream_all_sent:
  assumes "chat_envelope P J alice k cid c 0 (w_now w) (hello cid) e" "chat_stream P J alice k cid c 1 typed es"
  shows "all_sent P J alice k cid c (conversation w cid typed) (e # es)"
proof -
  have "\<forall>i<length typed. chat_envelope P J alice k cid c (n + i) (w_now (fst (typed ! i))) (bstr (trim (snd (typed ! i)))) (es ! i)"
    if "chat_stream P J alice k cid c n typed es" for n
    using that
  proof (induction typed arbitrary: n es)
    case (Cons t typed)
    obtain w l where t: "t = (w, l)" by (cases t)
    obtain e es' where e: "es = e # es'" using Cons.prems by (cases es) (simp_all add: t)
    show ?case using Cons.prems Cons.IH [of "Suc n" es'] by (simp add: t e All_less_Suc2)
  qed simp
  from this [OF assms(2)] assms(1) chat_stream_length [OF assms(2)] show ?thesis
    by (auto simp: all_sent_def conversation_def All_less_Suc2 split_beta)
qed

lemma conversation_utf8:
  assumes "utf8 (bstr cid)" "\<forall>(w, line)\<in>set typed. chat_line line"
  shows "\<forall>m\<in>set (conversation w cid typed). utf8 (snd m)"
proof -
  have "utf8 (hello cid)" using assms(1) by (simp add: hello_def bstr_def between_def)
  with assms(2) show ?thesis by (auto simp: conversation_def chat_line_def Let_def)
qed

lemma loop_keeps:
  assumes "run_loop inputs hs a = (r, a')" "\<forall>i\<in>set inputs. world_ok (fst i)" "app_ok a" "settled_store E A U (app_store a)"
  shows "app_ok a'" "settled_store E A U (app_store a')" "prekey_stored J (app_store a) \<Longrightarrow> prekey_stored J (app_store a')"
proof -
  have e: "app_ok a'" "store_ext (app_store a) (app_store a')"
    using run_loop_evolves [OF assms(2), of a hs] assms(1,3) by (simp_all add: evolves_def app_ext_def)
  from e(1) show "app_ok a'" .
  from settled_ext [OF assms(4) e(2)] show "settled_store E A U (app_store a')" .
  show "prekey_stored J (app_store a')" if "prekey_stored J (app_store a)"
    using that e(2) by (auto simp: prekey_stored_def store_ext_def)
qed

lemma typed_across_restarts:
  assumes laws: "text_laws P J" "ikp_wf alice" "length k = 32" "fresh_chain P c" "plain cid"
    and a: "sends_at P alice k cid peer c n a" "persisted J cid a" "room_for cid (sent_ids (typed @ typed_of ts)) (app_store a)"
      "app_ok a" "settled_store E A U (app_store a)"
    and typed: "\<forall>(w, line)\<in>set typed. w_prims w = P \<and> w_json w = J \<and> chat_line line \<and> world_ok w"
      "\<forall>run\<in>set ts. typing_ok P E A U J run" "n + length (typed @ typed_of ts) \<le> 2 ^ 64"
  shows "\<exists>es a' as ess. run_loop (line_inputs typed) hs a = (None, a') \<and>
    ph_queue (app_node a') = ph_queue (app_node a) @ map (SendDirect peer) es \<and> length es = length typed \<and>
    runs (typing_runs ts) (disk_of a') = map (\<lambda>a. (None, Some a)) as \<and> length as = length ts \<and> length ess = length ts \<and>
    (\<forall>i<length ts. queues (ts ! i) (ess ! i) (as ! i)) \<and> chat_stream P J alice k cid c n (typed @ typed_of ts) (es @ concat ess)"
proof -
  have lines: "\<forall>(w, line)\<in>set typed. w_prims w = P \<and> w_json w = J \<and> chat_line line" using typed(1) by auto
  have len: "n + length typed \<le> 2 ^ 64" "n + length typed + length (typed_of ts) \<le> 2 ^ 64" using typed(3) by simp_all
  obtain es a' where es: "run_loop (line_inputs typed) hs a = (None, a')" "chat_stream P J alice k cid c n typed es"
      "ph_queue (app_node a') = ph_queue (app_node a) @ map (SendDirect peer) es"
      "sends_at P alice k cid peer c (n + length typed) a'" "persisted J cid a'" "room_for cid (sent_ids (typed_of ts)) (app_store a')"
    using lines_sent [OF laws lines len(1) a(1) a(3) [unfolded sent_ids_append], of hs] a(2) by blast
  have "\<forall>i\<in>set (line_inputs typed). world_ok (fst i)" using typed(1) by auto
  note a' = loop_keeps(1,2) [OF es(1) this a(4,5)]
  obtain as ess where "runs (typing_runs ts) (ns_fs (app_store a'), ns_db (app_store a')) = map (\<lambda>a. (None, Some a)) as"
      "length ess = length ts" "length as = length ts" "\<forall>i<length ts. queues (ts ! i) (ess ! i) (as ! i)"
      "chat_stream P J alice k cid c (n + length typed) (typed_of ts) (concat ess)"
    using initiator_runs [OF laws typed(2) len(2) sends_at_on [OF es(4,5) a'(2) es(6)]] a'(1) by (auto simp: app_ok_def)
  with es(1,3) chat_stream_length [OF es(2)] chat_stream_append [OF es(2)] show ?thesis
    by (intro exI [of _ es] exI [of _ a'] exI [of _ as] exI [of _ ess]) (simp add: disk_of_def)
qed

lemma read_across_restarts:
  assumes laws: "text_laws P J" "fresh_chain P c" "plain cid" "utf8 (bstr cid)"
    and sent: "all_sent P J alice k cid c sent es" "length sent \<le> Suc MAX_SKIP_MESSAGES" "\<forall>m\<in>set sent. utf8 (snd m)"
      "\<forall>e\<in>set es. unmarked e"
    and b: "reads_any P J alice k cid c {} b" "room_for cid (arrival_ids sent (arrivals @ arrivals_of rs)) (app_store b)"
      "app_ok b" "settled_store E A U (app_store b)" "prekey_stored J (app_store b)"
    and arr: "arrivals_ok P J sent {} (arrivals @ arrivals_of rs)" "\<forall>(w, sender, i)\<in>set arrivals. world_ok w"
      "\<forall>run\<in>set rs. reading_ok E A U J run"
  shows "\<exists>b' printed bs. run_loop (arrival_inputs es arrivals) hs b = (None, b') \<and> app_node b' = app_node b \<and>
    app_output b' = printed @ map (printed_line sent) arrivals \<and>
    runs (reading_runs es rs) (disk_of b') = map (\<lambda>b. (None, Some b)) bs \<and> list_all2 (prints sent) rs bs"
proof -
  let ?D = "{} \<union> (snd \<circ> snd) ` set arrivals"
  have ok: "arrivals_ok P J sent {} arrivals" "arrivals_ok P J sent ?D (arrivals_of rs)" using arr(1) by (simp_all add: arrivals_ok_append)
  obtain b' where b': "run_loop (arrival_inputs es arrivals) hs b = (None, b')"
      "app_output b' = app_output b @ (if app_session b = None \<and> arrivals \<noteq> [] then [''[responder] resumed persisted session''] else []) @
        map (printed_line sent) arrivals"
      "app_node b' = app_node b" "reads_any P J alice k cid c ?D b'" "room_for cid (arrival_ids sent (arrivals_of rs)) (app_store b')"
    using arrivals_read [OF laws sent ok(1) b(1) b(2) [unfolded arrival_ids_append], of hs] by blast
  have "\<forall>i\<in>set (arrival_inputs es arrivals). world_ok (fst i)" using arr(2) by auto
  note keeps = loop_keeps [OF b'(1) this b(3,4)]
  have "reads_on P J E A U alice k cid c ?D (arrival_ids sent (arrivals_of rs)) (app_store b')"
    using b'(4,5) keeps(2) keeps(3) [OF b(5)] by (auto simp: reads_on_def reads_any_def)
  from responder_runs [OF laws sent arr(3) ok(2) this] keeps(1) obtain bs where
      "runs (reading_runs es rs) (ns_fs (app_store b'), ns_db (app_store b')) = map (\<lambda>b. (None, Some b)) bs" "list_all2 (prints sent) rs bs"
    by (auto simp: app_ok_def)
  with b'(1-3) show ?thesis
    by (intro exI [of _ b'] exI [of _ "app_output b @ (if app_session b = None \<and> arrivals \<noteq> []
        then [''[responder] resumed persisted session''] else [])"] exI [of _ bs]) (simp add: disk_of_def)
qed

text \<open>
  C2. A conversation outlives the programs. Two started applications complete the handshake; lines
  are typed at the initiator, which may be stopped and started again any number of times,
  each time with another address of its peer; every line is queued exactly once, in order. The responder may
  be stopped and started again at any point too, and the greeting and the lines, up to
  \<open>MAX_SKIP_MESSAGES + 1\<close> of them, may reach any of its runs in any order, from any peer id, and some not at all:
  every run prints exactly the texts that arrive in it.
\<close>

theorem conversation_across_restarts:
  assumes "text_laws P J" "ikp_wf alice" "ikp_wf bob" "kpriv_wf eph"
    and "plain cid" "utf8 (bstr cid)" "length cid < 2 ^ 31"
    and "initiator_ready alice cid peer_b a" "room_for cid (sent_ids (typed @ typed_of ts)) (app_store a)"
    and "responder_ready P bob k b" "room_for cid (arrival_ids sent (arrivals @ arrivals_of rs)) (app_store b)"
    and "\<forall>w\<in>{w1, w2, w3, v1, v2, v3}. w_prims w = P \<and> w_json w = J"
      "pd_classical (w_prekey_draws w2) = kpriv_classical eph" "pd_seed (w_prekey_draws w2) = Some (kpriv_pq eph)"
      "length (w_ratchet_draw v2) = 32" "length (w_ratchet_draw w3) = 32" "length (w_chain_draw w3) = 32"
    and worlds: "\<forall>w\<in>{w1, w2, w3, v0, v1, v2, v3}. world_ok w"
    and stores: "app_ok a" "settled_store E A U (app_store a)" "app_ok b" "settled_store E' A' U' (app_store b)" "prekey_stored J (app_store b)"
    and typed: "\<forall>(w, line)\<in>set typed. w_prims w = P \<and> w_json w = J \<and> chat_line line \<and> world_ok w"
      "\<forall>run\<in>set ts. typing_ok P E A U J run" "length (typed @ typed_of ts) \<le> MAX_SKIP_MESSAGES"
    and sent: "sent = conversation w3 cid (typed @ typed_of ts)"
    and arr: "arrivals_ok P J sent {} (arrivals @ arrivals_of rs)" "\<forall>(w, sender, i)\<in>set arrivals. world_ok w"
      "\<forall>run\<in>set rs. reading_ok E' A' U' J run"
  shows "\<exists>e1 e2 e3 e4 e5 e6 es a' as ess.
    run_loop ((w1, NodeEvent (PeerConnected peer_b)) # map (from_peer peer_b) [(w2, e2), (w3, e4)] @ line_inputs typed) False a =
      (None, a') \<and>
    ph_queue (app_node a') = ph_queue (app_node a) @ map (SendDirect peer_b) ([e1, e3, e5, e6] @ es) \<and> length es = length typed \<and>
    runs (typing_runs ts) (disk_of a') = map (\<lambda>a. (None, Some a)) as \<and> length as = length ts \<and> length ess = length ts \<and>
    (\<forall>i<length ts. queues (ts ! i) (ess ! i) (as ! i)) \<and> length (concat ess) = length (typed_of ts) \<and>
    (\<forall>e\<in>set (e6 # es @ concat ess). sealed_payload P e) \<and>
    ((\<forall>e\<in>set (e6 # es @ concat ess). unmarked e) \<longrightarrow> (\<exists>b' printed bs.
      run_loop ((v0, NodeEvent (PeerConnected peer_a)) # map (from_peer peer_a) [(v1, e1), (v2, e3), (v3, e5)] @
        arrival_inputs (e6 # es @ concat ess) arrivals) False b = (None, b') \<and>
      ph_queue (app_node b') = ph_queue (app_node b) @ map (SendDirect peer_a) [e2, e4] \<and>
      app_output b' = printed @ map (printed_line sent) arrivals \<and>
      runs (reading_runs (e6 # es @ concat ess) rs) (disk_of b') = map (\<lambda>b. (None, Some b)) bs \<and>
      list_all2 (prints sent) rs bs))"
proof -
  let ?k = "w_ratchet_draw w3"
  obtain e1 e2 e3 e4 e5 e6 a1 b1 c where h:
    "run_loop ((w1, NodeEvent (PeerConnected peer_b)) # map (from_peer peer_b) [(w2, e2), (w3, e4)]) False a = (None, a1)"
    "run_loop ((v0, NodeEvent (PeerConnected peer_a)) # map (from_peer peer_a) [(v1, e1), (v2, e3), (v3, e5)]) False b = (None, b1)"
    "ph_queue (app_node a1) = ph_queue (app_node a) @ map (SendDirect peer_b) [e1, e3, e5, e6]"
    "ph_queue (app_node b1) = ph_queue (app_node b) @ map (SendDirect peer_a) [e2, e4]"
    "fresh_chain P c" "chat_envelope P J alice ?k cid c 0 (w_now w3) (hello cid) e6"
    "sends_at P alice ?k cid peer_b c 1 a1" "room_for cid (sent_ids (typed @ typed_of ts)) (app_store a1)"
    "reads_at P alice ?k cid c 0 b1" "room_for cid (arrival_ids sent (arrivals @ arrivals_of rs)) (app_store b1)"
    "persisted J cid a1" "reads_any P J alice ?k cid c {} b1"
    using handshake_completes [OF assms(1-17), of v0 peer_a] by blast
  obtain hs hs' where next_a: "\<And>ys. run_loop (((w1, NodeEvent (PeerConnected peer_b)) # map (from_peer peer_b) [(w2, e2), (w3, e4)]) @ ys) False a
      = run_loop ys hs a1"
    and next_b: "\<And>ys. run_loop (((v0, NodeEvent (PeerConnected peer_a)) # map (from_peer peer_a) [(v1, e1), (v2, e3), (v3, e5)]) @ ys) False b
      = run_loop ys hs' b1"
    using run_loop_append [OF h(1)] run_loop_append [OF h(2)] by blast
  have "app_ok a1" "settled_store E A U (app_store a1)"
    using loop_keeps(1,2) [OF h(1) _ stores(1,2)] worlds by simp_all
  note a1 = this
  have b1: "app_ok b1" "settled_store E' A' U' (app_store b1)" "prekey_stored J (app_store b1)"
    using loop_keeps [OF h(2) _ stores(3,4)] worlds stores(5) by simp_all
  have len: "1 + length (typed @ typed_of ts) \<le> 2 ^ 64" "length sent \<le> Suc MAX_SKIP_MESSAGES"
    using typed(3) by (simp_all add: sent conversation_def MAX_SKIP_MESSAGES_def)
  obtain es a' as ess where es: "run_loop (line_inputs typed) hs a1 = (None, a')"
      "ph_queue (app_node a') = ph_queue (app_node a1) @ map (SendDirect peer_b) es" "length es = length typed"
      "runs (typing_runs ts) (disk_of a') = map (\<lambda>a. (None, Some a)) as" "length as = length ts" "length ess = length ts"
      "\<forall>i<length ts. queues (ts ! i) (ess ! i) (as ! i)" "chat_stream P J alice ?k cid c 1 (typed @ typed_of ts) (es @ concat ess)"
    using typed_across_restarts [OF assms(1,2,16) h(5) assms(5) h(7,11,8) a1 typed(1,2) len(1)] by blast
  note all = stream_all_sent [OF h(6) es(8), folded sent]
  have sealed: "\<forall>e\<in>set (e6 # es @ concat ess). sealed_payload P e"
    using chat_stream_sealed [OF es(8) h(5)] chat_envelope_sealed [OF h(6,5)] by simp
  have "\<forall>(w, line)\<in>set (typed @ typed_of ts). chat_line line"
    using typed(1,2) by (fastforce simp: typed_of_def typing_ok_def)
  from conversation_utf8 [OF assms(6) this] have utf8: "\<forall>m\<in>set sent. utf8 (snd m)" unfolding sent by blast
  have read: "\<exists>b' printed bs. run_loop ((v0, NodeEvent (PeerConnected peer_a)) # map (from_peer peer_a) [(v1, e1), (v2, e3), (v3, e5)] @
        arrival_inputs (e6 # es @ concat ess) arrivals) False b = (None, b') \<and>
      ph_queue (app_node b') = ph_queue (app_node b) @ map (SendDirect peer_a) [e2, e4] \<and>
      app_output b' = printed @ map (printed_line sent) arrivals \<and>
      runs (reading_runs (e6 # es @ concat ess) rs) (disk_of b') = map (\<lambda>b. (None, Some b)) bs \<and> list_all2 (prints sent) rs bs"
    if u: "\<forall>e\<in>set (e6 # es @ concat ess). unmarked e"
  proof -
    obtain b' printed bs where b': "run_loop (arrival_inputs (e6 # es @ concat ess) arrivals) hs' b1 = (None, b')"
        "app_node b' = app_node b1" "app_output b' = printed @ map (printed_line sent) arrivals"
        "runs (reading_runs (e6 # es @ concat ess) rs) (disk_of b') = map (\<lambda>b. (None, Some b)) bs" "list_all2 (prints sent) rs bs"
      using read_across_restarts [OF assms(1) h(5) assms(5,6) all len(2) utf8 u h(12,10) b1 arr] by blast
    then show ?thesis using next_b [of "arrival_inputs (e6 # es @ concat ess) arrivals"] h(4)
      by (intro exI [of _ b'] exI [of _ printed] exI [of _ bs]) (simp only: append_Cons simp_thms)
  qed
  have "length (concat ess) = length (typed_of ts)" using chat_stream_length [OF es(8)] es(3) by simp
  moreover have "run_loop ((w1, NodeEvent (PeerConnected peer_b)) # map (from_peer peer_b) [(w2, e2), (w3, e4)] @ line_inputs typed) False a =
      (None, a')"
    using next_a [of "line_inputs typed"] es(1) by (simp only: append_Cons)
  moreover have "ph_queue (app_node a') = ph_queue (app_node a) @ map (SendDirect peer_b) ([e1, e3, e5, e6] @ es)"
    using es(2) h(3) by simp
  ultimately show ?thesis using es(3-7) sealed read by (intro exI conjI) (assumption | rule impI | rule read)+
qed

section \<open>A sample conversation\<close>

definition sample_home_initiator :: app where
  "sample_home_initiator = sample_initiator_app\<lparr>app_store := sample_home 1 ''dev-a'' []\<rparr>"

definition sample_home_responder :: "prekey_material \<Rightarrow> bytes \<Rightarrow> app" where
  "sample_home_responder prekey blob = (sample_responder_app prekey)\<lparr>app_store := sample_home 2 ''dev-bob'' blob\<rparr>"

lemma sample_home_ready:
  assumes "published sample_prims (sample_kem 3) prekey"
  shows "initiator_ready (sample_identity 1) ''dev-a'' ''peer-b'' sample_home_initiator"
    "responder_ready sample_prims (sample_identity 2) (sample_kem 3) (sample_home_responder prekey blob)"
    "app_ok sample_home_initiator" "app_ok (sample_home_responder prekey blob)"
  using assms sample_home_ok
  by (auto simp: initiator_ready_def responder_ready_def sample_home_initiator_def sample_home_responder_def sample_initiator_app_def
      sample_responder_app_def sample_app_def sample_home_def sample_db_def app_ok_def group_ok_def keys_ok_def initiator_ok_def
      initiator_new_def)

lemma sample_home_room:
  assumes "distinct uids" "length uids < 9"
  shows "room_for cid uids (sample_home b did blob)"
  using assms by (simp add: room_for_def sample_home_def sample_db_def migrated_tables_def empty_tables_def MAX_ROWID_def Let_def)

lemma sample_prekey_file:
  assumes "published sample_prims (sample_kem 3) prekey"
  obtains blob where "prekey_stored sample_json (sample_home b did blob)"
proof -
  have "pmat_wf prekey" using assms by (simp add: published_def)
  from pmat_json.wire_roundtrip [OF sample_json_law this] obtain blob where
    "to_vec sample_json prekey_material_to_json prekey = Inr blob" "from_slice sample_json prekey_material_of_json blob = Inr prekey"
    by blast
  moreover from this(1) have "utf8 blob" using sample_json_utf8 by (auto simp: json_utf8_def to_vec_def)
  ultimately have "prekey_stored sample_json (sample_home b did blob)"
    by (simp add: prekey_stored_def sample_home_def fs_read_string_def fs_read_def from_utf8_def from_str_def)
  then show thesis by (rule that)
qed

lemma sample_boots:
  "boots sample_engine (bt_argon2 sample_boot) sample_unlocks sample_json sample_boot" "addresses_parse (bt_world sample_boot)"
  "w_parse_addr (bt_world sample_boot) t = Some [P2p ''peer-b'']"
  using sample_sqlite_opens
  by (simp_all add: boots_def sample_boot_def sample_start_world_def sample_world_def p2p_start_def build_swarm_def behaviour_new_def
      Let_def addresses_parse_def dialable_address_def split: option.split)

definition sample_typing :: "unit typing" where
  "sample_typing = (sample_boot, \<lparr>cli_role = Initiator, cli_peer = Some ''/p2p/peer-b''\<rparr>, ''peer-b'', [(sample_world 1 2, ''there'')])"

definition sample_reading :: "unit reading" where
  "sample_reading = (sample_boot, \<lparr>cli_role = Responder, cli_peer = None\<rparr>, [(sample_world 2 4, ''peer-c'', 1)])"

lemma sample_runs_ok:
  "typing_ok sample_prims sample_engine (bt_argon2 sample_boot) sample_unlocks sample_json sample_typing"
  "reading_ok sample_engine (bt_argon2 sample_boot) sample_unlocks sample_json sample_reading"
  by (simp_all add: typing_ok_def sample_typing_def reading_ok_def sample_reading_def sample_boots sample_world_simps sample_lines
      sample_world_ok peer_id_of_def)

text \<open>
  The second line, sent after a restart of the initiator, arrives first; the responder is
  restarted and gets the first line; the greeting is lost.
\<close>

theorem conversation_across_restarts_witness:
  "\<exists>prekey blob e1 e2 e3 e4 e5 e6 e7 e8 a' a'' controls b' b'' printed printed'.
    published sample_prims (sample_kem 3) prekey \<and>
    run_loop [(sample_world 1 0, NodeEvent (PeerConnected ''peer-b'')), (sample_world 1 0, NodeEvent (DirectMessage ''peer-b'' e2)),
      (sample_world 1 0, NodeEvent (DirectMessage ''peer-b'' e4)), (sample_world 1 1, Line ''hi'')] False sample_home_initiator = (None, a') \<and>
    ph_queue (app_node a') = map (SendDirect ''peer-b'') [e1, e3, e5, e6, e7] \<and>
    runs (typing_runs [sample_typing]) (disk_of a') = [(None, Some a'')] \<and>
    ph_queue (app_node a'') = controls @ [SendDirect ''peer-b'' e8] \<and> length controls = 2 \<and>
    run_loop [(sample_world 2 0, NodeEvent (PeerConnected ''peer-a'')), (sample_world 2 0, NodeEvent (DirectMessage ''peer-a'' e1)),
      (sample_world 2 0, NodeEvent (DirectMessage ''peer-a'' e3)), (sample_world 2 0, NodeEvent (DirectMessage ''peer-a'' e5)),
      (sample_world 2 3, NodeEvent (DirectMessage ''peer-d'' e8))] False (sample_home_responder prekey blob) = (None, b') \<and>
    app_output b' = printed @ [''[1:1] peer-d: there''] \<and>
    runs (reading_runs [e6, e7, e8] [sample_reading]) (disk_of b') = [(None, Some b'')] \<and>
    app_output b'' = printed' @ [''[1:1] peer-c: hi'']"
proof -
  obtain prekey where prekey: "published sample_prims (sample_kem 3) prekey" by (rule sample_published)
  obtain blob where blob: "prekey_stored sample_json (sample_home 2 ''dev-bob'' blob)" by (rule sample_prekey_file [OF prekey])
  let ?a = "sample_home_initiator" and ?b = "sample_home_responder prekey blob"
  let ?typed = "[(sample_world 1 1, ''hi'')]" and ?ts = "[sample_typing]"
  let ?arrivals = "[(sample_world 2 3, ''peer-d'', 2)]" and ?rs = "[sample_reading]"
  let ?sent = "conversation (sample_world 1 0) ''dev-a'' (?typed @ typed_of ?ts)"
  have sent: "?sent = [(10, hello ''dev-a''), (10, bstr ''hi''), (10, bstr ''there'')]"
    by (simp add: conversation_def typed_of_def sample_typing_def sample_world_simps sample_lines)
  have ids: "sent_ids (?typed @ typed_of ?ts) = [message_id_bytes 1 (clock_u64 10), message_id_bytes 2 (clock_u64 10)]"
      "arrival_ids ?sent (?arrivals @ arrivals_of ?rs) = [message_id_bytes 3 (clock_u64 10), message_id_bytes 4 (clock_u64 10)]"
    unfolding sent
    by (simp_all add: sent_ids_def arrival_ids_def arrivals_of_def typed_of_def sample_typing_def sample_reading_def sample_world_simps)
  have distinct: "distinct [message_id_bytes 1 (clock_u64 10), message_id_bytes 2 (clock_u64 10)]"
      "distinct [message_id_bytes 3 (clock_u64 10), message_id_bytes 4 (clock_u64 10)]"
    by (simp_all add: message_id_bytes_def u32_first_byte)
  have room: "room_for ''dev-a'' (sent_ids (?typed @ typed_of ?ts)) (app_store ?a)"
      "room_for ''dev-a'' (arrival_ids ?sent (?arrivals @ arrivals_of ?rs)) (app_store ?b)"
    unfolding ids using sample_home_room [OF distinct(1)] sample_home_room [OF distinct(2)]
    by (simp_all add: sample_home_initiator_def sample_home_responder_def)
  have cid: "plain ''dev-a''" "utf8 (bstr ''dev-a'')" "length ''dev-a'' < 2 ^ 31" by (simp add: plain_def NUL_def, code_simp, simp)
  have ws: "\<forall>w\<in>{sample_world 1 0, sample_world 1 0, sample_world 1 0, sample_world 2 0, sample_world 2 0, sample_world 2 0}.
      w_prims w = sample_prims \<and> w_json w = sample_json"
      "\<forall>w\<in>{sample_world 1 0, sample_world 1 0, sample_world 1 0, sample_world 2 0, sample_world 2 0, sample_world 2 0, sample_world 2 0}.
      world_ok w"
      "\<forall>(w, line)\<in>set ?typed. w_prims w = sample_prims \<and> w_json w = sample_json \<and> chat_line line \<and> world_ok w"
      "\<forall>run\<in>set ?ts. typing_ok sample_prims sample_engine (bt_argon2 sample_boot) sample_unlocks sample_json run"
      "length (?typed @ typed_of ?ts) \<le> MAX_SKIP_MESSAGES"
      "\<forall>(w, sender, i)\<in>set ?arrivals. world_ok w" "\<forall>run\<in>set ?rs. reading_ok sample_engine (bt_argon2 sample_boot) sample_unlocks sample_json run"
    by (simp_all add: sample_world_simps sample_lines sample_world_ok sample_runs_ok typed_of_def sample_typing_def [symmetric] MAX_SKIP_MESSAGES_def)
      (simp add: sample_typing_def)
  have "length (w_ratchet_draw (sample_world r n)) = 32" "length (w_chain_draw (sample_world r n)) = 32"
      "pd_classical (w_prekey_draws (sample_world r n)) = kpriv_classical (sample_kem 5)"
      "pd_seed (w_prekey_draws (sample_world r n)) = Some (kpriv_pq (sample_kem 5))" for r n
    by (simp_all add: sample_world_simps sample_draws_def)
  note draws = this
  have arr: "arrivals_ok sample_prims sample_json ?sent {} (?arrivals @ arrivals_of ?rs)"
    unfolding sent by (simp add: arrivals_ok_def arrivals_of_def sample_reading_def sample_world_simps)
  have settled: "settled_store sample_engine (bt_argon2 sample_boot) sample_unlocks (app_store ?a)"
      "settled_store sample_engine (bt_argon2 sample_boot) sample_unlocks (app_store ?b)" "prekey_stored sample_json (app_store ?b)"
    using sample_home_settled blob by (simp_all add: sample_home_initiator_def sample_home_responder_def)
  note c = conversation_across_restarts [where a = ?a and b = ?b and k = "sample_kem 3"
      and ?w1.0 = "sample_world 1 0" and ?w2.0 = "sample_world 1 0" and ?w3.0 = "sample_world 1 0" and ?v0.0 = "sample_world 2 0"
      and ?v1.0 = "sample_world 2 0" and ?v2.0 = "sample_world 2 0" and ?v3.0 = "sample_world 2 0"
      and peer_a = "''peer-a''" and peer_b = "''peer-b''",
    OF sample_text_laws sample_identity_laws(3,3,4) cid sample_home_ready(1) [OF prekey] room(1) sample_home_ready(2) [OF prekey]
      room(2) ws(1) draws(3,4,1,1,2) ws(2) sample_home_ready(3) [OF prekey] settled(1) sample_home_ready(4) [OF prekey] settled(2,3)
      ws(3-5) refl arr ws(6,7)]
  obtain e1 e2 e3 e4 e5 e6 es a' as ess where run:
    "run_loop ((sample_world 1 0, NodeEvent (PeerConnected ''peer-b'')) #
      map (from_peer ''peer-b'') [(sample_world 1 0, e2), (sample_world 1 0, e4)] @ line_inputs ?typed) False ?a = (None, a')"
    "ph_queue (app_node a') = ph_queue (app_node ?a) @ map (SendDirect ''peer-b'') ([e1, e3, e5, e6] @ es)" "length es = length ?typed"
    "runs (typing_runs ?ts) (disk_of a') = map (\<lambda>a. (None, Some a)) as" "length as = length ?ts" "length ess = length ?ts"
    "\<forall>i<length ?ts. queues (?ts ! i) (ess ! i) (as ! i)" "length (concat ess) = length (typed_of ?ts)"
    "\<forall>e\<in>set (e6 # es @ concat ess). sealed_payload sample_prims e"
    "(\<forall>e\<in>set (e6 # es @ concat ess). unmarked e) \<longrightarrow> (\<exists>b' printed bs.
      run_loop ((sample_world 2 0, NodeEvent (PeerConnected ''peer-a'')) #
        map (from_peer ''peer-a'') [(sample_world 2 0, e1), (sample_world 2 0, e3), (sample_world 2 0, e5)] @
        arrival_inputs (e6 # es @ concat ess) ?arrivals) False ?b = (None, b') \<and>
      ph_queue (app_node b') = ph_queue (app_node ?b) @ map (SendDirect ''peer-a'') [e2, e4] \<and>
      app_output b' = printed @ map (printed_line ?sent) ?arrivals \<and>
      runs (reading_runs (e6 # es @ concat ess) ?rs) (disk_of b') = map (\<lambda>b. (None, Some b)) bs \<and>
      list_all2 (prints ?sent) ?rs bs)"
    using c by (elim exE conjE) (rule that)
  obtain e7 where e7: "es = [e7]" using run(3) by (auto simp: length_Suc_conv)
  obtain a'' where a'': "as = [a'']" using run(5) by (auto simp: length_Suc_conv)
  obtain e8 where e8: "ess = [[e8]]" using run(6,8) by (auto simp: length_Suc_conv typed_of_def sample_typing_def)
  obtain controls where controls: "length controls = 2" "ph_queue (app_node a'') = controls @ [SendDirect ''peer-b'' e8]"
    using run(7) by (auto simp: a'' e8 queues_def sample_typing_def)
  obtain b' printed bs where b':
    "run_loop ((sample_world 2 0, NodeEvent (PeerConnected ''peer-a'')) #
        map (from_peer ''peer-a'') [(sample_world 2 0, e1), (sample_world 2 0, e3), (sample_world 2 0, e5)] @
        arrival_inputs (e6 # es @ concat ess) ?arrivals) False ?b = (None, b')"
    "app_output b' = printed @ map (printed_line ?sent) ?arrivals"
    "runs (reading_runs (e6 # es @ concat ess) ?rs) (disk_of b') = map (\<lambda>b. (None, Some b)) bs" "list_all2 (prints ?sent) ?rs bs"
    using run(9,10) sample_unmarked by blast
  obtain b'' printed' where b'': "bs = [b'']" "app_output b'' = printed' @ map (printed_line ?sent) [(sample_world 2 4, ''peer-c'', 1)]"
    using b'(4) by (auto simp: list_all2_Cons1 prints_def sample_reading_def)
  have lines: "printed_line ?sent (sample_world 2 3, ''peer-d'', 2) = ''[1:1] peer-d: there''"
      "printed_line ?sent (sample_world 2 4, ''peer-c'', 1) = ''[1:1] peer-c: hi''"
    unfolding sent by (simp_all add: printed_line_def short_peer_def)
  have "ph_queue (app_node ?a) = []" by (simp add: sample_home_initiator_def sample_initiator_app_def sample_app_def)
  moreover have "app_output b' = printed @ [''[1:1] peer-d: there'']" "app_output b'' = printed' @ [''[1:1] peer-c: hi'']"
    using b'(2) b''(2) by (simp_all only: list.map lines)
  ultimately show ?thesis
    using prekey run(1,2,4) controls b'(1,3) b''(1)
    by (intro exI conjI) (assumption | simp add: e7 e8 a'' del: run_loop.simps runs.simps)+
qed

end
