(* ===== verification/Tasks.thy ===== *)
theory Tasks
  imports App_Invariant
begin

text \<open>
  A running program is two tasks: the application's loop (\<open>run_loop\<close> of \<open>presidium-demo/src/main.rs\<close>) and
  the node's loop (\<open>run_loop\<close> of \<open>presidium-network/src/node.rs\<close>), joined by two bounded channels that
  \<open>P2pNode::start\<close> makes. A task that sends on a full channel waits, and does nothing else
  meanwhile. This theory has the two tasks as a transition system over the handlers of \<open>App\<close> and
  \<open>Node\<close>: every interleaving is a run of the two loops taken alone, and the ways to come to a halt.
\<close>

section \<open>One round of each loop\<close>

text \<open>One round of the application's loop: how it ends the loop, if it does.\<close>

definition loop_step :: "world \<Rightarrow> app_input \<Rightarrow> bool \<Rightarrow> app \<Rightarrow> unit app_result option \<times> bool \<times> app" where
  "loop_step w i hs a =
    (case i of
       Line line \<Rightarrow>
         if trim line = [] then (None, hs, a)
         else (case handle_command w (trim line) a of
             (Inl e, a1) \<Rightarrow> (Some (Inl e), hs, a1)
           | (Inr False, a1) \<Rightarrow> (Some (Inr ()), hs, say ''bye'' a1)
           | (Inr True, a1) \<Rightarrow> (None, hs, a1))
     | EndOfInput \<Rightarrow> (Some (Inr ()), hs, say ''bye'' a)
     | InputError \<Rightarrow> (Some (Inl AppIo), hs, a)
     | NodeEvent event \<Rightarrow>
         (case handle_event w event hs a of
            (Inl e, a1) \<Rightarrow> (Some (Inl e), hs, a1)
          | (Inr hs1, a1) \<Rightarrow> (None, hs1, a1))
     | EventsClosed \<Rightarrow> (Some (Inr ()), hs, say ''bye'' a))"

fun loop_run :: "(world \<times> app_input) list \<Rightarrow> bool \<Rightarrow> app \<Rightarrow> unit app_result option \<times> bool \<times> app" where
  "loop_run [] hs a = (None, hs, a)"
| "loop_run ((w, i) # rest) hs a =
    (case loop_step w i hs a of
       (Some r, hs1, a1) \<Rightarrow> (Some r, hs1, a1)
     | (None, hs1, a1) \<Rightarrow> loop_run rest hs1 a1)"

lemma run_loop_run: "run_loop inputs hs a = (case loop_run inputs hs a of (r, _, a1) \<Rightarrow> (r, a1))"
proof (induction inputs hs a rule: run_loop.induct)
qed (auto simp: loop_step_def split: prod.split sum.split bool.split)

lemma loop_run_snoc:
  "loop_run inputs hs a = (None, hs1, a1) \<Longrightarrow> loop_run (inputs @ [(w, i)]) hs a = loop_step w i hs1 a1"
  by (induction inputs hs a rule: loop_run.induct) (auto split: prod.splits option.splits)

text \<open>The loop of the node: a message of the application or an event of the swarm at a time; \<open>False\<close>: it was left.\<close>

datatype node_input = FromApp request_id "multiaddr list" control | FromSwarm swarm_event

fun node_loop :: "network_envelope proto \<Rightarrow> node_config \<Rightarrow> node_input list \<Rightarrow> node \<Rightarrow> bool \<times> node" where
  "node_loop Q cfg [] n = (True, n)"
| "node_loop Q cfg (FromApp rid addrs c # rest) n =
    (case handle_control Q rid addrs c n of None \<Rightarrow> (False, n) | Some n1 \<Rightarrow> node_loop Q cfg rest n1)"
| "node_loop Q cfg (FromSwarm e # rest) n = node_loop Q cfg rest (handle_swarm_event Q cfg e n)"

lemma node_loop_snoc:
  "node_loop Q cfg inputs n = (True, n1) \<Longrightarrow> node_loop Q cfg (inputs @ [i]) n = node_loop Q cfg [i] n1"
  by (induction Q cfg inputs n rule: node_loop.induct) (auto split: option.splits)

section \<open>Two tasks and two channels\<close>

definition CONTROL_CAPACITY :: nat where
  "CONTROL_CAPACITY = 64"

definition EVENT_CAPACITY :: nat where
  "EVENT_CAPACITY = 256"

text \<open>
  What the application sends is the list \<open>ph_queue\<close>, what the node emits the list \<open>nd_events\<close>; the counters
  say how far each list has been put on its channel, and taken from it.
\<close>

record program =
  pg_app :: app
  pg_handshake_started :: bool
  pg_result :: "unit app_result option"
  pg_node :: node
  pg_sent :: nat
  pg_taken :: nat
  pg_emitted :: nat
  pg_read :: nat

abbreviation pg_controls :: "program \<Rightarrow> control list" where
  "pg_controls p \<equiv> ph_queue (app_node (pg_app p))"

abbreviation pg_events :: "program \<Rightarrow> node_event list" where
  "pg_events p \<equiv> nd_events (pg_node p)"

text \<open>
  A task waits while something that it sends is not yet on the channel. The state \<open>pg_app\<close> is the one that the
  running handler reaches at its end, and \<open>pg_result\<close> how it then ends the loop: a send never fails while the
  node runs, and the node does not touch the state of the application, so that it makes no difference whether the handler
  goes on before or after the node's steps. The program is gone when a handler that ends the loop has come to its end, all
  its messages sent.
\<close>

definition app_waits :: "program \<Rightarrow> bool" where
  "app_waits p \<longleftrightarrow> pg_sent p < length (pg_controls p)"

definition node_waits :: "program \<Rightarrow> bool" where
  "node_waits p \<longleftrightarrow> pg_emitted p < length (pg_events p)"

definition gone :: "program \<Rightarrow> bool" where
  "gone p \<longleftrightarrow> pg_result p \<noteq> None \<and> \<not> app_waits p"

definition control_full :: "program \<Rightarrow> bool" where
  "control_full p \<longleftrightarrow> pg_taken p + CONTROL_CAPACITY \<le> pg_sent p"

definition events_full :: "program \<Rightarrow> bool" where
  "events_full p \<longleftrightarrow> pg_read p + EVENT_CAPACITY \<le> pg_emitted p"

text \<open>The loop of the application begins: what it sent before is on the channel.\<close>

definition program_start :: "app \<Rightarrow> node \<Rightarrow> program" where
  "program_start a n =
     \<lparr>pg_app = a, pg_handshake_started = False, pg_result = None, pg_node = n,
      pg_sent = length (ph_queue (app_node a)), pg_taken = 0, pg_emitted = length (nd_events n), pg_read = 0\<rparr>"

definition app_handles :: "world \<Rightarrow> app_input \<Rightarrow> program \<Rightarrow> program" where
  "app_handles w i p =
    (case loop_step w i (pg_handshake_started p) (pg_app p) of
       (r, hs, a) \<Rightarrow> p\<lparr>pg_result := r, pg_handshake_started := hs, pg_app := a\<rparr>)"

definition app_puts :: "program \<Rightarrow> program option" where
  "app_puts p = (if app_waits p \<and> \<not> control_full p then Some (p\<lparr>pg_sent := Suc (pg_sent p)\<rparr>) else None)"

definition node_puts :: "program \<Rightarrow> program option" where
  "node_puts p = (if node_waits p \<and> \<not> events_full p then Some (p\<lparr>pg_emitted := Suc (pg_emitted p)\<rparr>) else None)"

definition app_takes :: "world \<Rightarrow> program \<Rightarrow> program option" where
  "app_takes w p =
    (if pg_result p = None \<and> \<not> app_waits p \<and> pg_read p < pg_emitted p
     then Some (app_handles w (NodeEvent (pg_events p ! pg_read p)) (p\<lparr>pg_read := Suc (pg_read p)\<rparr>))
     else None)"

definition app_hears :: "world \<Rightarrow> app_input \<Rightarrow> program \<Rightarrow> program option" where
  "app_hears w i p = (if pg_result p = None \<and> \<not> app_waits p then Some (app_handles w i p) else None)"

definition node_takes :: "network_envelope proto \<Rightarrow> request_id \<Rightarrow> multiaddr list \<Rightarrow> program \<Rightarrow> program option" where
  "node_takes Q rid addrs p =
    (if \<not> node_waits p \<and> pg_taken p < pg_sent p
     then map_option (\<lambda>n. p\<lparr>pg_node := n, pg_taken := Suc (pg_taken p)\<rparr>) (handle_control Q rid addrs (pg_controls p ! pg_taken p) (pg_node p))
     else None)"

definition node_polls :: "network_envelope proto \<Rightarrow> node_config \<Rightarrow> swarm_event \<Rightarrow> program \<Rightarrow> program option" where
  "node_polls Q cfg e p =
    (if \<not> node_waits p then Some (p\<lparr>pg_node := handle_swarm_event Q cfg e (pg_node p)\<rparr>) else None)"

text \<open>
  Steps that the two tasks make by themselves, and those that come from outside: a line or the end of
  the input, and an event of the swarm. A program that is gone makes no step.
\<close>

inductive own_step :: "network_envelope proto \<Rightarrow> program \<Rightarrow> program \<Rightarrow> bool" for Q where
  put_control: "app_puts p = Some p' \<Longrightarrow> own_step Q p p'"
| put_event: "\<not> gone p \<Longrightarrow> node_puts p = Some p' \<Longrightarrow> own_step Q p p'"
| take_event: "world_ok w \<Longrightarrow> app_takes w p = Some p' \<Longrightarrow> own_step Q p p'"
| take_control: "\<not> gone p \<Longrightarrow> rid \<notin> issued (pg_node p) \<Longrightarrow> node_takes Q rid addrs p = Some p' \<Longrightarrow> own_step Q p p'"

inductive task_step :: "network_envelope proto \<Rightarrow> node_config \<Rightarrow> program \<Rightarrow> program \<Rightarrow> bool" for Q cfg where
  own: "own_step Q p p' \<Longrightarrow> task_step Q cfg p p'"
| hear: "world_ok w \<Longrightarrow> i \<in> {Line line, EndOfInput, InputError} \<Longrightarrow> app_hears w i p = Some p' \<Longrightarrow> task_step Q cfg p p'"
| poll: "\<not> gone p \<Longrightarrow> node_polls Q cfg e p = Some p' \<Longrightarrow> task_step Q cfg p p'"

inductive_cases own_stepE: "own_step Q p p'"
inductive_cases task_stepE: "task_step Q cfg p p'"

section \<open>What the tasks keep\<close>

lemma loop_step_evolves:
  assumes "world_ok w" "loop_step w i hs a = (r, hs', a')"
  shows "app_evolves a a'"
  using run_loop_evolves [of "[(w, i)]" a hs] assms by (simp add: run_loop_run split: option.splits)

lemma control_keeps_events: "handle_control Q rid addrs c n = Some n' \<Longrightarrow> nd_events n' = nd_events n"
  by (cases c) (auto simp: act_def Let_def)

lemma control_not_shutdown: "c \<noteq> Shutdown \<Longrightarrow> \<exists>n'. handle_control Q rid addrs c n = Some n'"
  by (cases c) (auto simp: Let_def)

lemma node_takesD:
  assumes "node_takes Q rid addrs p = Some p'"
  shows "\<exists>n'. handle_control Q rid addrs (pg_controls p ! pg_taken p) (pg_node p) = Some n' \<and>
    p' = p\<lparr>pg_node := n', pg_taken := Suc (pg_taken p)\<rparr> \<and> nd_events n' = pg_events p \<and> \<not> node_waits p \<and> pg_taken p < pg_sent p"
  using assms by (auto simp: node_takes_def split: if_splits dest: control_keeps_events)

lemma emit_events: "prefix (nd_events n) (nd_events (emit e n))" "length (nd_events (emit e n)) \<le> Suc (length (nd_events n))"
  by (simp_all add: emit_def)

lemma act_events [simp]: "nd_events (act x n) = nd_events n"
  by (simp add: act_def)

lemma fold_events:
  assumes "\<And>x n. prefix (nd_events n) (nd_events (f x n))"
  shows "prefix (nd_events n) (nd_events (fold f xs n))"
proof (induction xs arbitrary: n)
  case (Cons x xs)
  show ?case using prefix_order.trans [OF assms [of n x] Cons.IH [of "f x n"]] by simp
qed simp

lemma swarm_event_appends: "prefix (nd_events n) (nd_events (handle_swarm_event Q cfg e n))"
proof (cases e)
  case (MdnsDiscovered list)
  have "prefix (nd_events m) (nd_events (mdns_discovered cfg x m))" for x m
    by (simp add: mdns_discovered_def Let_def emit_def)
  with MdnsDiscovered show ?thesis by (simp add: fold_events)
next
  case (MdnsExpired list)
  then show ?thesis by (simp add: fold_events)
qed (auto simp: emit_def Let_def split: sum.split option.split)

text \<open>Without mDNS an event of the swarm gives at most one event of the node.\<close>

lemma swarm_event_single:
  "\<not> nc_mdns_enabled cfg \<Longrightarrow> length (nd_events (handle_swarm_event Q cfg e n)) \<le> Suc (length (nd_events n))"
  by (cases e) (auto simp: emit_def Let_def split: sum.split option.split)

definition program_ok :: "program \<Rightarrow> bool" where
  "program_ok p \<longleftrightarrow> app_ok (pg_app p) \<and> Shutdown \<notin> set (pg_controls p) \<and>
     pg_taken p \<le> pg_sent p \<and> pg_sent p \<le> length (pg_controls p) \<and> pg_sent p \<le> pg_taken p + CONTROL_CAPACITY \<and>
     pg_read p \<le> pg_emitted p \<and> pg_emitted p \<le> length (pg_events p) \<and> pg_emitted p \<le> pg_read p + EVENT_CAPACITY"

lemma app_handles_ok:
  assumes "program_ok p" "world_ok w"
  shows "program_ok (app_handles w i p)" "prefix (pg_controls p) (pg_controls (app_handles w i p))"
proof -
  obtain r hs a where s: "loop_step w i (pg_handshake_started p) (pg_app p) = (r, hs, a)"
    by (cases "loop_step w i (pg_handshake_started p) (pg_app p)")
  have "app_ok a" "handle_ext (app_node (pg_app p)) (app_node a)"
    using loop_step_evolves [OF assms(2) s] assms(1) by (simp_all add: program_ok_def evolves_def app_ext_def)
  then have "app_ok a" "prefix (pg_controls p) (ph_queue (app_node a))" "Shutdown \<notin> set (ph_queue (app_node a))"
    using assms(1) by (auto simp: handle_ext_def program_ok_def)
  with assms(1) prefix_length_le [OF this(2)] show "program_ok (app_handles w i p)"
    "prefix (pg_controls p) (pg_controls (app_handles w i p))"
    by (simp_all add: app_handles_def s program_ok_def)
qed

lemma app_handles_frame [simp]:
  "pg_node (app_handles w i p) = pg_node p" "pg_sent (app_handles w i p) = pg_sent p" "pg_taken (app_handles w i p) = pg_taken p"
  "pg_emitted (app_handles w i p) = pg_emitted p" "pg_read (app_handles w i p) = pg_read p"
  by (simp_all add: app_handles_def split: prod.split)

lemma own_step_ok: "own_step Q p p' \<Longrightarrow> program_ok p \<Longrightarrow> program_ok p'"
proof (induction rule: own_step.induct)
  case (put_control p p')
  then show ?case by (auto simp: app_puts_def app_waits_def control_full_def program_ok_def split: if_splits)
next
  case (put_event p p')
  then show ?case by (auto simp: node_puts_def node_waits_def events_full_def program_ok_def split: if_splits)
next
  case (take_event w p p')
  let ?p = "p\<lparr>pg_read := Suc (pg_read p)\<rparr>"
  have "program_ok ?p" "p' = app_handles w (NodeEvent (pg_events p ! pg_read p)) ?p"
    using take_event by (auto simp: app_takes_def program_ok_def split: if_splits)
  with app_handles_ok(1) take_event(1) show ?case by simp
next
  case (take_control p rid addrs p')
  from node_takesD [OF take_control(3)] take_control(4) show ?case by (auto simp: program_ok_def)
qed

lemma task_step_ok: "task_step Q cfg p p' \<Longrightarrow> program_ok p \<Longrightarrow> program_ok p'"
proof (induction rule: task_step.induct)
  case (own p p')
  then show ?case by (rule own_step_ok)
next
  case (hear w i line p p')
  then show ?case using app_handles_ok(1) by (auto simp: app_hears_def split: if_splits)
next
  case (poll p e p')
  then show ?case
    using prefix_length_le [OF swarm_event_appends [of "pg_node p" Q cfg e]]
    by (auto simp: node_polls_def program_ok_def split: if_splits)
qed

lemma tasks_ok: "(task_step Q cfg)\<^sup>*\<^sup>* p p' \<Longrightarrow> program_ok p \<Longrightarrow> program_ok p'"
  by (induction rule: rtranclp_induct) (auto intro: task_step_ok)

lemma program_start_ok:
  "app_ok a \<Longrightarrow> Shutdown \<notin> set (ph_queue (app_node a)) \<Longrightarrow> length (ph_queue (app_node a)) \<le> CONTROL_CAPACITY \<Longrightarrow>
    length (nd_events n) \<le> EVENT_CAPACITY \<Longrightarrow> program_ok (program_start a n)"
  by (simp add: program_ok_def program_start_def)

section \<open>Interleavings are runs of the two loops\<close>

fun events_heard :: "(world \<times> app_input) list \<Rightarrow> node_event list" where
  "events_heard [] = []"
| "events_heard ((w, NodeEvent e) # rest) = e # events_heard rest"
| "events_heard (_ # rest) = events_heard rest"

fun controls_heard :: "node_input list \<Rightarrow> control list" where
  "controls_heard [] = []"
| "controls_heard (FromApp rid addrs c # rest) = c # controls_heard rest"
| "controls_heard (FromSwarm e # rest) = controls_heard rest"

lemma heard_append [simp]:
  "events_heard (xs @ ys) = events_heard xs @ events_heard ys" "controls_heard (is @ js) = controls_heard is @ controls_heard js"
proof -
  show "events_heard (xs @ ys) = events_heard xs @ events_heard ys" by (induction xs rule: events_heard.induct) simp_all
  show "controls_heard (is @ js) = controls_heard is @ controls_heard js" by (induction "is" rule: controls_heard.induct) simp_all
qed

text \<open>A program that has come about by the two loops on some inputs.\<close>

definition explained ::
    "network_envelope proto \<Rightarrow> node_config \<Rightarrow> app \<Rightarrow> node \<Rightarrow> (world \<times> app_input) list \<Rightarrow> node_input list \<Rightarrow> program \<Rightarrow> bool"
where
  "explained Q cfg a n inputs steps p \<longleftrightarrow>
     loop_run inputs False a = (pg_result p, pg_handshake_started p, pg_app p) \<and>
     events_heard inputs = take (pg_read p) (pg_events p) \<and>
     node_loop Q cfg steps n = (True, pg_node p) \<and> controls_heard steps = take (pg_taken p) (pg_controls p)"

lemma take_prefix: "prefix xs ys \<Longrightarrow> n \<le> length xs \<Longrightarrow> take n ys = take n xs"
  by (auto simp: prefix_def)

lemma explained_app:
  assumes "explained Q cfg a n inputs steps p" "program_ok p" "pg_result p = None" "world_ok w"
    and "events_heard [(w, i)] = drop (pg_read p) (take m (pg_events p))" "pg_read p \<le> m"
  shows "explained Q cfg a n (inputs @ [(w, i)]) steps (app_handles w i (p\<lparr>pg_read := m\<rparr>))"
proof -
  let ?p = "app_handles w i (p\<lparr>pg_read := m\<rparr>)"
  have "loop_run (inputs @ [(w, i)]) False a = (pg_result ?p, pg_handshake_started ?p, pg_app ?p)"
    using assms(1,3) by (auto simp: explained_def app_handles_def loop_run_snoc split: prod.split)
  moreover have "prefix (pg_controls p) (pg_controls ?p)"
    using app_handles_ok(2) [OF assms(2,4), of i] by (simp add: app_handles_def split: prod.splits)
  then have "take (pg_taken p) (pg_controls ?p) = take (pg_taken p) (pg_controls p)"
    using assms(2) by (intro take_prefix) (auto simp: program_ok_def)
  moreover have "events_heard (inputs @ [(w, i)]) = take m (pg_events p)"
    using assms(1,5,6) append_take_drop_id [of "pg_read p" "take m (pg_events p)"]
    by (simp add: explained_def min_absorb1)
  ultimately show ?thesis using assms(1) by (simp add: explained_def)
qed

lemma explained_node:
  assumes "explained Q cfg a n inputs steps p" "program_ok p" "node_loop Q cfg [i] (pg_node p) = (True, n')"
    and "prefix (pg_events p) (nd_events n')" "controls_heard [i] = drop (pg_taken p) (take m (pg_controls p))" "pg_taken p \<le> m"
  shows "explained Q cfg a n inputs (steps @ [i]) (p\<lparr>pg_node := n', pg_taken := m\<rparr>)"
proof -
  have "take (pg_read p) (nd_events n') = take (pg_read p) (pg_events p)"
    using assms(2,4) by (intro take_prefix) (auto simp: program_ok_def)
  moreover have "controls_heard (steps @ [i]) = take m (pg_controls p)"
    using assms(1,5,6) append_take_drop_id [of "pg_taken p" "take m (pg_controls p)"]
    by (simp add: explained_def min_absorb1)
  ultimately show ?thesis
    using assms(1,3) node_loop_snoc [of Q cfg steps n "pg_node p" i] by (simp add: explained_def)
qed

lemma drop_take_Suc: "k < length xs \<Longrightarrow> drop k (take (Suc k) xs) = [xs ! k]"
  by (simp add: take_Suc_conv_app_nth)

lemma own_step_explained:
  assumes "own_step Q p p'" "explained Q cfg a n inputs steps p" "program_ok p"
  shows "\<exists>inputs' steps'. explained Q cfg a n inputs' steps' p'"
  using assms
proof (induction rule: own_step.induct)
  case (put_control p p')
  then have "explained Q cfg a n inputs steps p'" by (auto simp: app_puts_def explained_def split: if_splits)
  then show ?case by blast
next
  case (put_event p p')
  then have "explained Q cfg a n inputs steps p'" by (auto simp: node_puts_def explained_def split: if_splits)
  then show ?case by blast
next
  case (take_event w p p')
  let ?i = "NodeEvent (pg_events p ! pg_read p)"
  from take_event have r: "pg_result p = None" "pg_read p < length (pg_events p)" "p' = app_handles w ?i (p\<lparr>pg_read := Suc (pg_read p)\<rparr>)"
    by (auto simp: app_takes_def program_ok_def split: if_splits)
  from explained_app [OF take_event(3,4) r(1) take_event(1), of ?i "Suc (pg_read p)"] show ?case
    by (auto simp: drop_take_Suc [OF r(2)] r(3))
next
  case (take_control p rid addrs p')
  let ?c = "pg_controls p ! pg_taken p"
  from take_control obtain n' where r: "pg_taken p < length (pg_controls p)" "handle_control Q rid addrs ?c (pg_node p) = Some n'"
      "p' = p\<lparr>pg_node := n', pg_taken := Suc (pg_taken p)\<rparr>"
    by (auto simp: node_takes_def program_ok_def split: if_splits)
  from explained_node [OF take_control(4,5), of "FromApp rid addrs ?c" n' "Suc (pg_taken p)"] show ?case
    by (auto simp: drop_take_Suc [OF r(1)] r(2,3) control_keeps_events [OF r(2)])
qed

lemma task_step_explained:
  assumes "task_step Q cfg p p'" "explained Q cfg a n inputs steps p" "program_ok p"
  shows "\<exists>inputs' steps'. explained Q cfg a n inputs' steps' p'"
  using assms
proof (induction rule: task_step.induct)
  case (own p p')
  then show ?case by (rule own_step_explained)
next
  case (hear w i line p p')
  then have r: "pg_result p = None" "p' = app_handles w i p" by (auto simp: app_hears_def split: if_splits)
  have "explained Q cfg a n (inputs @ [(w, i)]) steps p'"
    using explained_app [OF hear(4,5) r(1) hear(1), of i "pg_read p"] hear(2) by (auto simp: r(2))
  then show ?case by blast
next
  case (poll p e p')
  then have r: "p' = p\<lparr>pg_node := handle_swarm_event Q cfg e (pg_node p)\<rparr>" by (auto simp: node_polls_def split: if_splits)
  from explained_node [OF poll(3,4), of "FromSwarm e" _ "pg_taken p"] swarm_event_appends show ?case
    by (auto simp: r)
qed

lemma tasks_explained:
  "(task_step Q cfg)\<^sup>*\<^sup>* (program_start a n) p \<Longrightarrow> program_ok (program_start a n) \<Longrightarrow> \<exists>inputs steps. explained Q cfg a n inputs steps p"
proof (induction rule: rtranclp_induct)
  case base
  have "explained Q cfg a n [] [] (program_start a n)" by (simp add: explained_def program_start_def)
  then show ?case by blast
next
  case (step p p')
  then show ?case using task_step_explained tasks_ok [OF step(1)] by blast
qed

section \<open>Coming to a halt\<close>

text \<open>
  Both tasks wait, each for the other to make room. The tasks are jammed as soon as the node waits for
  room among the events and the application has more to send than the channel will take: it
  can only fill the channel before it waits as well.
\<close>

definition deadlocked :: "program \<Rightarrow> bool" where
  "deadlocked p \<longleftrightarrow> app_waits p \<and> control_full p \<and> node_waits p \<and> events_full p"

definition jammed :: "program \<Rightarrow> bool" where
  "jammed p \<longleftrightarrow> node_waits p \<and> events_full p \<and> pg_taken p + CONTROL_CAPACITY < length (pg_controls p)"

text \<open>Everything that was sent either way has been handled.\<close>

definition drained :: "program \<Rightarrow> bool" where
  "drained p \<longleftrightarrow> pg_taken p = length (pg_controls p) \<and> pg_read p = length (pg_events p)"

lemma finite_issued: "finite (issued n)"
proof -
  have "issued n \<subseteq> (\<lambda>x. case x of ASendRequest rid p r \<Rightarrow> rid | _ \<Rightarrow> 0) ` set (nd_actions n)"
    by (force simp: issued_def image_iff)
  then show ?thesis using finite_surj by blast
qed

lemma fresh_request: "\<exists>rid. rid \<notin> issued n"
  using finite_issued ex_new_if_finite infinite_UNIV_nat by blast

lemma app_waiting: "jammed p \<Longrightarrow> program_ok p \<Longrightarrow> app_waits p"
  by (simp add: jammed_def program_ok_def app_waits_def)

lemma jammed_step:
  assumes "task_step Q cfg p p'" "jammed p" "program_ok p"
  shows "jammed p' \<and> app_puts p = Some p'"
proof -
  have w: "app_waits p" "node_waits p" "events_full p"
    using app_waiting [OF assms(2,3)] assms(2) by (simp_all add: jammed_def)
  have "app_puts p = Some p'"
    using assms(1) w
    by (auto elim!: task_stepE own_stepE simp: node_puts_def app_takes_def node_takes_def app_hears_def node_polls_def split: if_splits)
  moreover from this have "jammed p'"
    using assms(2) by (auto simp: app_puts_def jammed_def node_waits_def events_full_def split: if_splits)
  ultimately show ?thesis by simp
qed

lemma control_room: "program_ok p \<Longrightarrow> control_full p \<Longrightarrow> pg_taken p < pg_sent p"
  by (simp add: control_full_def CONTROL_CAPACITY_def)

lemma can_put:
  "app_waits p \<Longrightarrow> \<not> control_full p \<Longrightarrow> \<exists>p'. own_step Q p p'"
  "\<not> gone p \<Longrightarrow> node_waits p \<Longrightarrow> \<not> events_full p \<Longrightarrow> \<exists>p'. own_step Q p p'"
proof -
  show "\<exists>p'. own_step Q p p'" if "app_waits p" "\<not> control_full p"
    using own_step.put_control [of p _ Q] that by (auto simp: app_puts_def)
  show "\<exists>p'. own_step Q p p'" if "\<not> gone p" "node_waits p" "\<not> events_full p"
    using own_step.put_event [OF that(1), of _ Q] that(2,3) by (auto simp: node_puts_def)
qed

lemma node_can_take:
  assumes "program_ok p" "\<not> gone p" "\<not> node_waits p" "pg_taken p < pg_sent p"
  shows "\<exists>p'. own_step Q p p'"
proof -
  obtain rid where rid: "rid \<notin> issued (pg_node p)" using fresh_request by blast
  have "pg_controls p ! pg_taken p \<noteq> Shutdown"
    using assms(1,4) nth_mem [of "pg_taken p" "pg_controls p"] by (metis less_le_trans program_ok_def)
  then obtain n' where "handle_control Q rid [] (pg_controls p ! pg_taken p) (pg_node p) = Some n'"
    using control_not_shutdown by blast
  then have "node_takes Q rid [] p = Some (p\<lparr>pg_node := n', pg_taken := Suc (pg_taken p)\<rparr>)"
    using assms(3,4) by (simp add: node_takes_def)
  with own_step.take_control [OF assms(2) rid] show ?thesis by blast
qed

lemma halted:
  assumes "program_ok p" "\<not> gone p" "\<forall>p'. \<not> own_step Q p p'"
  shows "deadlocked p \<or> drained p"
proof (cases "app_waits p")
  case True
  have full: "control_full p" using can_put(1) [OF True, of Q] assms(3) by blast
  have "node_waits p" using node_can_take [OF assms(1,2) _ control_room [OF assms(1) full], of Q] assms(3) by blast
  moreover from this have "events_full p" using can_put(2) [OF assms(2), of Q] assms(3) by blast
  ultimately show ?thesis using True full assms(2) by (simp add: deadlocked_def)
next
  case False
  have "pg_read p = pg_emitted p"
  proof (rule ccontr)
    assume "pg_read p \<noteq> pg_emitted p"
    then have "pg_read p < pg_emitted p" using assms(1) by (simp add: program_ok_def)
    then have "\<exists>p'. app_takes (sample_world 1 0) p = Some p'" using False assms(2) by (simp add: app_takes_def gone_def)
    with own_step.take_event [OF sample_world_ok] assms(3) show False by blast
  qed
  moreover from this have "\<not> events_full p" by (simp add: events_full_def EVENT_CAPACITY_def)
  then have nw: "\<not> node_waits p" using can_put(2) [OF assms(2), of Q] assms(3) by blast
  moreover have "pg_taken p = pg_sent p"
  proof (rule ccontr)
    assume "pg_taken p \<noteq> pg_sent p"
    then have "pg_taken p < pg_sent p" using assms(1) by (simp add: program_ok_def)
    with node_can_take [OF assms(1,2) nw, of Q] assms(3) show False by blast
  qed
  ultimately show ?thesis using False assms(1) by (auto simp: drained_def app_waits_def node_waits_def program_ok_def)
qed

text \<open>
  Left to themselves the tasks come to an end: no step of theirs makes a new event, and a round of
  the application uses one up.
\<close>

definition work :: "program \<Rightarrow> nat \<times> nat \<times> nat" where
  "work p = (length (pg_events p) - pg_read p,
     (length (pg_controls p) - pg_taken p) + (length (pg_controls p) - pg_sent p), length (pg_events p) - pg_emitted p)"

lemma own_step_work:
  assumes "own_step Q p p'" "program_ok p"
  shows "(work p', work p) \<in> less_than <*lex*> less_than <*lex*> less_than"
  using assms
proof (induction rule: own_step.induct)
  case (put_control p p')
  then show ?case by (auto simp: app_puts_def work_def app_waits_def split: if_splits)
next
  case (put_event p p')
  then show ?case by (auto simp: node_puts_def work_def node_waits_def split: if_splits)
next
  case (take_event w p p')
  then obtain i where "p' = app_handles w i (p\<lparr>pg_read := Suc (pg_read p)\<rparr>)" "pg_read p < pg_emitted p"
    by (auto simp: app_takes_def split: if_splits)
  moreover have "pg_emitted p \<le> length (pg_events p)" using take_event(3) by (simp add: program_ok_def)
  ultimately show ?case by (simp add: work_def diff_less_mono2)
next
  case (take_control p rid addrs p')
  from node_takesD [OF this(3)] take_control(4) show ?case by (auto simp: work_def program_ok_def)
qed

lemma own_steps_end:
  assumes "program_ok (f 0)" "\<forall>i. own_step Q (f i) (f (Suc i))"
  shows False
proof -
  have ok: "program_ok (f i)" for i by (induction i) (use assms own_step_ok in blast)+
  have "\<forall>i. (work (f (Suc i)), work (f i)) \<in> less_than <*lex*> less_than <*lex*> less_than"
    using own_step_work [OF _ ok] assms(2) by blast
  moreover have "wf (less_than <*lex*> less_than <*lex*> less_than)" by (intro wf_lex_prod wf_less_than)
  ultimately show False
    unfolding wf_iff_no_infinite_down_chain by (elim notE, intro exI [of _ "\<lambda>i. work (f i)"])
qed

text \<open>A node without mDNS has at most one event in its hands.\<close>

definition one_event :: "program \<Rightarrow> bool" where
  "one_event p \<longleftrightarrow> length (pg_events p) \<le> Suc (pg_emitted p)"

lemma own_step_events: "own_step Q p p' \<Longrightarrow> pg_events p' = pg_events p \<and> pg_emitted p \<le> pg_emitted p'"
proof (induction rule: own_step.induct)
  case (take_control p rid addrs p')
  from node_takesD [OF this(3)] show ?case by auto
qed (auto simp: app_puts_def node_puts_def app_takes_def split: if_splits)

lemma own_step_one: "own_step Q p p' \<Longrightarrow> one_event p \<Longrightarrow> one_event p'"
  by (drule own_step_events) (simp add: one_event_def)

lemma task_step_one: "task_step Q cfg p p' \<Longrightarrow> \<not> nc_mdns_enabled cfg \<Longrightarrow> program_ok p \<Longrightarrow> one_event p \<Longrightarrow> one_event p'"
proof (induction rule: task_step.induct)
  case (own p p')
  then show ?case using own_step_one by blast
next
  case (hear w i line p p')
  then show ?case by (auto simp: app_hears_def one_event_def split: if_splits)
next
  case (poll p e p')
  then show ?case
    using swarm_event_single [OF poll(3), of Q e "pg_node p"]
    by (auto simp: node_polls_def one_event_def node_waits_def split: if_splits)
qed

lemma tasks_one:
  "(task_step Q cfg)\<^sup>*\<^sup>* p p' \<Longrightarrow> \<not> nc_mdns_enabled cfg \<Longrightarrow> program_ok p \<Longrightarrow> one_event p \<Longrightarrow> one_event p'"
proof (induction rule: rtranclp_induct)
  case (step q p')
  then show ?case using task_step_one [OF step(2)] tasks_ok [OF step(1)] by simp
qed simp

lemma own_step_not_jammed:
  assumes "own_step Q p p'" "program_ok p" "one_event p" "\<not> jammed p"
  shows "\<not> jammed p'"
  using assms
proof (induction rule: own_step.induct)
  case (put_control p p')
  then show ?case by (auto simp: app_puts_def jammed_def node_waits_def events_full_def split: if_splits)
next
  case (put_event p p')
  then show ?case by (auto simp: node_puts_def jammed_def one_event_def node_waits_def split: if_splits)
next
  case (take_event w p p')
  then show ?case by (auto simp: app_takes_def jammed_def events_full_def program_ok_def split: if_splits)
next
  case (take_control p rid addrs p')
  from node_takesD [OF this(3)] show ?case by (auto simp: jammed_def node_waits_def)
qed

lemma own_steps_keep:
  "(own_step Q)\<^sup>*\<^sup>* p p' \<Longrightarrow> program_ok p \<Longrightarrow> one_event p \<Longrightarrow> \<not> jammed p \<Longrightarrow> program_ok p' \<and> one_event p' \<and> \<not> jammed p'"
proof (induction rule: rtranclp_induct)
  case (step q p')
  then show ?case using own_step_ok [OF step(2)] own_step_one [OF step(2)] own_step_not_jammed [OF step(2)] by simp
qed simp

lemma jammed_steps: "(task_step Q cfg)\<^sup>*\<^sup>* p p' \<Longrightarrow> jammed p \<Longrightarrow> program_ok p \<Longrightarrow> jammed p'"
proof (induction rule: rtranclp_induct)
  case (step q p')
  then show ?case using jammed_step [OF step(2)] tasks_ok [OF step(1)] by simp
qed simp

section \<open>A peer that jams a responder\<close>

text \<open>Every request for the bundle makes one event at the node and one message of the application.\<close>

lemma answers_request:
  assumes "chat_laws P J" "w_prims w = P" "w_json w = J" "ikp_wf bob" "responder_ready P bob k b" "ne_encrypted_payload e = [MARKER_BUNDLE_REQ]"
  shows "\<exists>b' e'. handle_event w (DirectMessage peer e) hs b = (Inr hs, b') \<and> responder_ready P bob k b' \<and>
    ph_queue (app_node b') = ph_queue (app_node b) @ [SendDirect peer e']"
proof -
  let ?b = "if app_peer b = None then b\<lparr>app_peer := Some peer\<rparr> else b"
  obtain prekey where prekey: "published P k prekey" "app_responder b = Some (responder_new bob prekey)"
    using assms(5) by (auto simp: responder_ready_def)
  obtain pkb bs where pkb: "responder_bundle P (responder_new bob prekey) = Inr pkb" "to_vec J pre_key_bundle_to_json pkb = Inr bs"
    using bundle_on_wire [of P J bob k prekey] chat_lawsD [OF assms(1)] assms(4) prekey(1) by blast
  have b: "app_responder ?b = Some (responder_new bob prekey)" "ph_running (app_node ?b)" "ikp_wf (ns_identity (app_store ?b))"
      "\<exists>p. app_peer ?b = Some p"
    using assms(4,5) prekey(2) by (auto simp: responder_ready_def)
  have "handle_event w (DirectMessage peer e) hs b = handle_event w (DirectMessage peer e) hs ?b"
    by (cases "app_peer b") (simp_all add: handle_direct_def)
  moreover obtain e' where "handle_event w (DirectMessage peer e) hs ?b = (Inr hs, queued peer e' ?b)"
    using step_bundle_request [OF assms(1-3) b(1) pkb _ b(2,3) assms(6), of _ peer hs] b(4) by blast
  moreover have "responder_ready P bob k (queued peer e' ?b)" "ph_queue (app_node (queued peer e' ?b)) = ph_queue (app_node b) @ [SendDirect peer e']"
    using assms(5) by (auto simp: responder_ready_def queued_def)
  ultimately show ?thesis by auto
qed

text \<open>
  The state while requests pour in and the node gives them precedence: of \<open>m\<close> requests that reached
  the node, \<open>i\<close> are on the channel or beyond, and the application has read and answered \<open>j\<close>.
\<close>

definition flooded ::
    "prims \<Rightarrow> identity_key_pair \<Rightarrow> hybrid_kem_private_key \<Rightarrow> node_event \<Rightarrow> nat \<Rightarrow> nat \<Rightarrow> nat \<Rightarrow> nat \<Rightarrow> program \<Rightarrow> bool"
where
  "flooded P bob k event base m i j p \<longleftrightarrow> pg_result p = None \<and> responder_ready P bob k (pg_app p) \<and> nd_receiver_open (pg_node p) \<and>
     pg_events p = replicate m event \<and> pg_emitted p = i \<and> pg_read p = j \<and>
     length (pg_controls p) = base + j \<and> pg_sent p = base + min j CONTROL_CAPACITY \<and> pg_taken p = base"

abbreviation tasks :: "network_envelope proto \<Rightarrow> node_config \<Rightarrow> program \<Rightarrow> program \<Rightarrow> bool" where
  "tasks Q cfg \<equiv> (task_step Q cfg)\<^sup>*\<^sup>*"

lemma flood_poll:
  assumes "flooded P bob k (DirectMessage peer e) base i i j p"
  shows "\<exists>p'. task_step Q cfg p p' \<and> flooded P bob k (DirectMessage peer e) base (Suc i) i j p'"
proof -
  let ?event = "InboundRequest peer \<lparr>nrq_envelope = Some e\<rparr> 0"
  let ?p = "p\<lparr>pg_node := handle_swarm_event Q cfg ?event (pg_node p)\<rparr>"
  have "node_polls Q cfg ?event p = Some ?p" using assms by (simp add: node_polls_def node_waits_def flooded_def)
  moreover have "flooded P bob k (DirectMessage peer e) base (Suc i) i j ?p"
    using assms by (simp add: flooded_def emit_def act_def replicate_append_same)
  moreover have "\<not> gone p" using assms by (simp add: flooded_def gone_def)
  ultimately show ?thesis using task_step.poll by blast
qed

lemma flood_put:
  assumes "flooded P bob k event base (Suc i) i j p" "i < j + EVENT_CAPACITY"
  shows "\<exists>p'. task_step Q cfg p p' \<and> flooded P bob k event base (Suc i) (Suc i) j p'"
proof -
  let ?p = "p\<lparr>pg_emitted := Suc i\<rparr>"
  have "node_puts p = Some ?p" using assms by (simp add: node_puts_def node_waits_def events_full_def flooded_def)
  moreover have "flooded P bob k event base (Suc i) (Suc i) j ?p" using assms(1) by (simp add: flooded_def)
  moreover have "\<not> gone p" using assms by (simp add: flooded_def gone_def)
  ultimately show ?thesis using task_step.own [OF own_step.put_event] by blast
qed

lemma flood_answer:
  assumes "chat_laws P J" "w_prims w = P" "w_json w = J" "world_ok w" "ikp_wf bob" "ne_encrypted_payload e = [MARKER_BUNDLE_REQ]"
    and "flooded P bob k (DirectMessage peer e) base m i j p" "j < i" "i \<le> m" "j \<le> CONTROL_CAPACITY"
  shows "\<exists>p'. tasks Q cfg p p' \<and> flooded P bob k (DirectMessage peer e) base m i (Suc j) p'"
proof -
  have ready: "responder_ready P bob k (pg_app p)" using assms(7) by (simp add: flooded_def)
  obtain b e' where b: "handle_event w (DirectMessage peer e) (pg_handshake_started p) (pg_app p) = (Inr (pg_handshake_started p), b)"
      "responder_ready P bob k b" "ph_queue (app_node b) = pg_controls p @ [SendDirect peer e']"
    using answers_request [OF assms(1-3,5) ready assms(6)] by blast
  let ?p = "p\<lparr>pg_read := Suc j, pg_app := b\<rparr>"
  have "app_takes w p = Some ?p"
    using assms(7-10) b(1)
    by (simp add: app_takes_def app_waits_def flooded_def app_handles_def loop_step_def)
  then have step: "task_step Q cfg p ?p" using task_step.own [OF own_step.take_event [OF assms(4)]] by blast
  show ?thesis
  proof (cases "j < CONTROL_CAPACITY")
    case True
    then have "app_puts ?p = Some (?p\<lparr>pg_sent := Suc (pg_sent p)\<rparr>)"
      using assms(7) b(3) by (simp add: app_puts_def app_waits_def control_full_def flooded_def)
    then have "task_step Q cfg ?p (?p\<lparr>pg_sent := Suc (pg_sent p)\<rparr>)"
      using task_step.own [OF own_step.put_control] by blast
    moreover have "flooded P bob k (DirectMessage peer e) base m i (Suc j) (?p\<lparr>pg_sent := Suc (pg_sent p)\<rparr>)"
      using assms(7) b(2,3) True by (simp add: flooded_def)
    ultimately show ?thesis using step by (meson converse_rtranclp_into_rtranclp r_into_rtranclp)
  next
    case False
    then have "flooded P bob k (DirectMessage peer e) base m i (Suc j) ?p"
      using assms(7,10) b(2,3) by (simp add: flooded_def)
    with step show ?thesis by blast
  qed
qed

text \<open>First the channel of the events is filled, then round after round the other one.\<close>

lemma flood_events:
  assumes "flooded P bob k (DirectMessage peer e) base 0 0 0 p" "i \<le> EVENT_CAPACITY"
  shows "\<exists>p'. tasks Q cfg p p' \<and> flooded P bob k (DirectMessage peer e) base i i 0 p'"
  using assms(2)
proof (induction i)
  case 0
  with assms(1) show ?case by blast
next
  case (Suc i)
  then obtain q where q: "tasks Q cfg p q" "flooded P bob k (DirectMessage peer e) base i i 0 q" by auto
  obtain r where r: "task_step Q cfg q r" "flooded P bob k (DirectMessage peer e) base (Suc i) i 0 r" using flood_poll [OF q(2)] by blast
  obtain t where "task_step Q cfg r t" "flooded P bob k (DirectMessage peer e) base (Suc i) (Suc i) 0 t"
    using flood_put [OF r(2)] Suc.prems by auto
  with q(1) r(1) show ?case by (meson rtranclp.rtrancl_into_rtrancl)
qed

lemma flood_controls:
  assumes "chat_laws P J" "w_prims w = P" "w_json w = J" "world_ok w" "ikp_wf bob" "ne_encrypted_payload e = [MARKER_BUNDLE_REQ]"
    and "flooded P bob k (DirectMessage peer e) base (Suc EVENT_CAPACITY) EVENT_CAPACITY 0 p" "j \<le> Suc CONTROL_CAPACITY"
  shows "\<exists>p'. tasks Q cfg p p' \<and>
    flooded P bob k (DirectMessage peer e) base (Suc (j + EVENT_CAPACITY)) (j + EVENT_CAPACITY) j p'"
  using assms(8)
proof (induction j)
  case 0
  with assms(7) show ?case by auto
next
  case (Suc j)
  let ?flooded = "flooded P bob k (DirectMessage peer e) base"
  obtain q where q: "tasks Q cfg p q" "?flooded (Suc (j + EVENT_CAPACITY)) (j + EVENT_CAPACITY) j q" using Suc by auto
  obtain r where r: "tasks Q cfg q r" "?flooded (Suc (j + EVENT_CAPACITY)) (j + EVENT_CAPACITY) (Suc j) r"
    using flood_answer [OF assms(1-6) q(2)] Suc.prems by (auto simp: EVENT_CAPACITY_def)
  obtain t where t: "task_step Q cfg r t" "?flooded (Suc (j + EVENT_CAPACITY)) (Suc (j + EVENT_CAPACITY)) (Suc j) t"
    using flood_put [OF r(2)] by auto
  obtain u where "task_step Q cfg t u" "?flooded (Suc (Suc (j + EVENT_CAPACITY))) (Suc (j + EVENT_CAPACITY)) (Suc j) u"
    using flood_poll [OF t(2)] by blast
  moreover have "tasks Q cfg p t" using q(1) r(1) t(1) by (meson rtranclp.rtrancl_into_rtrancl rtranclp_trans)
  ultimately show ?case by (auto intro: rtranclp.rtrancl_into_rtrancl)
qed

lemma node_takes_all:
  assumes "\<not> gone p" "\<not> node_waits p" "Shutdown \<notin> set (pg_controls p)" "pg_sent p \<le> length (pg_controls p)"
    and "pg_taken p + i \<le> pg_sent p"
  shows "\<exists>n. tasks Q cfg p (p\<lparr>pg_node := n, pg_taken := pg_taken p + i\<rparr>) \<and> nd_events n = pg_events p \<and>
    nd_receiver_open n = nd_receiver_open (pg_node p)"
  using assms(5)
proof (induction i)
  case 0
  have "p\<lparr>pg_node := pg_node p, pg_taken := pg_taken p + 0\<rparr> = p" by simp
  then show ?case by (metis rtranclp.rtrancl_refl)
next
  case (Suc i)
  then obtain n where n: "tasks Q cfg p (p\<lparr>pg_node := n, pg_taken := pg_taken p + i\<rparr>)" "nd_events n = pg_events p"
      "nd_receiver_open n = nd_receiver_open (pg_node p)" by auto
  let ?p = "p\<lparr>pg_node := n, pg_taken := pg_taken p + i\<rparr>" and ?c = "pg_controls p ! (pg_taken p + i)"
  obtain rid where rid: "rid \<notin> issued n" using fresh_request by blast
  have "?c \<in> set (pg_controls p)" using assms(4) Suc.prems by (intro nth_mem) simp
  with assms(3) have "?c \<noteq> Shutdown" by metis
  then obtain n' where n': "handle_control Q rid [] ?c n = Some n'" using control_not_shutdown by blast
  have "nd_receiver_open n' = nd_receiver_open n" using n' by (cases ?c) (auto simp: act_def Let_def)
  moreover have "node_takes Q rid [] ?p = Some (p\<lparr>pg_node := n', pg_taken := pg_taken p + Suc i\<rparr>)"
    using assms(2) Suc.prems n(2) n' by (simp add: node_takes_def node_waits_def)
  then have "task_step Q cfg ?p (p\<lparr>pg_node := n', pg_taken := pg_taken p + Suc i\<rparr>)"
    using task_step.own [OF own_step.take_control [of ?p rid Q "[]"]] assms(1) rid by (simp add: gone_def app_waits_def)
  ultimately show ?case
    using n control_keeps_events [OF n'] by (metis rtranclp.rtrancl_into_rtrancl)
qed

section \<open>Properties\<close>

text \<open>
  C5. However the two tasks of a program interleave, the application has done what its loop does on some
  sequence of inputs, and the node what its loop does on some sequence of messages and events; the application has heard
  the node's events, and the node the application's messages, in the order in which they were
  sent, none lost and none twice. At most \<open>EVENT_CAPACITY\<close> and \<open>CONTROL_CAPACITY\<close> of them are under way.
\<close>

theorem tasks_refine_loops:
  assumes "app_ok a" "Shutdown \<notin> set (ph_queue (app_node a))" "length (ph_queue (app_node a)) \<le> CONTROL_CAPACITY"
    and "length (nd_events n) \<le> EVENT_CAPACITY" "tasks Q cfg (program_start a n) p"
  shows "\<exists>inputs steps. run_loop inputs False a = (pg_result p, pg_app p) \<and> node_loop Q cfg steps n = (True, pg_node p) \<and>
    prefix (events_heard inputs) (pg_events p) \<and> prefix (controls_heard steps) (pg_controls p) \<and>
    pg_emitted p \<le> length (events_heard inputs) + EVENT_CAPACITY \<and> pg_sent p \<le> length (controls_heard steps) + CONTROL_CAPACITY"
proof -
  note ok = program_start_ok [OF assms(1-4)]
  obtain inputs steps where "explained Q cfg a n inputs steps p" using tasks_explained [OF assms(5) ok] by blast
  with tasks_ok [OF assms(5) ok] show ?thesis
    by (intro exI [of _ inputs] exI [of _ steps]) (auto simp: explained_def program_ok_def run_loop_run take_is_prefix)
qed

text \<open>
  C8. What becomes of the tasks of a running program. If they are jammed, the program is lost: whatever
  happens, the application never comes to the end of what it is doing, hears nothing, and the node does nothing ever again. If not,
  then once nothing more comes from outside the tasks come to rest under every scheduling, and unless the application's loop
  has ended, both sides have then handled everything that was sent to them. This is for a configuration without mDNS, as that of the demo.
\<close>

theorem tasks_drain_or_jam:
  assumes "app_ok a" "Shutdown \<notin> set (ph_queue (app_node a))" "length (ph_queue (app_node a)) \<le> CONTROL_CAPACITY"
    and "length (nd_events n) \<le> EVENT_CAPACITY" "\<not> nc_mdns_enabled cfg" "tasks Q cfg (program_start a n) p"
  shows "if jammed p
    then \<forall>p'. tasks Q cfg p p' \<longrightarrow> pg_app p' = pg_app p \<and> pg_node p' = pg_node p \<and> pg_result p' = pg_result p \<and> app_waits p' \<and> node_waits p'
    else (\<nexists>f. f 0 = p \<and> (\<forall>i. own_step Q (f i) (f (Suc i)))) \<and>
      (\<forall>p'. (own_step Q)\<^sup>*\<^sup>* p p' \<and> (\<nexists>p''. own_step Q p' p'') \<longrightarrow> gone p' \<or> drained p')"
proof -
  note start = program_start_ok [OF assms(1-4)]
  note ok = tasks_ok [OF assms(6) start]
  have "one_event (program_start a n)" by (simp add: one_event_def program_start_def)
  note one = tasks_one [OF assms(6,5) start this]
  have stuck: "app_waits p' \<and> node_waits p'" if "jammed p" "tasks Q cfg p p'" for p'
    using app_waiting jammed_steps [OF that(2,1) ok] tasks_ok [OF that(2) ok] by (simp add: jammed_def)
  have lost: "pg_app p' = pg_app p \<and> pg_node p' = pg_node p \<and> pg_result p' = pg_result p" if "jammed p" "tasks Q cfg p p'" for p'
    using that(2)
  proof (induction rule: rtranclp_induct)
    case (step q r)
    have "jammed q" "program_ok q" using jammed_steps [OF step(1) that(1) ok] tasks_ok [OF step(1) ok] .
    with jammed_step [OF step(2)] step(3) show ?case by (auto simp: app_puts_def split: if_splits)
  qed simp
  have rest: "gone p' \<or> drained p'"
    if "\<not> jammed p" "(own_step Q)\<^sup>*\<^sup>* p p'" "\<nexists>p''. own_step Q p' p''" for p'
  proof -
    have keep: "program_ok p'" "\<not> jammed p'" using own_steps_keep [OF that(2) ok one that(1)] by simp_all
    then have "\<not> deadlocked p'" by (auto simp: deadlocked_def jammed_def app_waits_def control_full_def)
    with halted [OF keep(1), of Q] that(3) show ?thesis by blast
  qed
  have ends: "\<nexists>f. f 0 = p \<and> (\<forall>i. own_step Q (f i) (f (Suc i)))" using own_steps_end ok by metis
  show ?thesis
  proof (cases "jammed p")
    case True
    then show ?thesis unfolding if_P [OF True] using lost stuck by blast
  next
    case False
    then show ?thesis unfolding if_not_P [OF False] using rest ends by blast
  qed
qed

text \<open>
  C23. Any peer can bring a responder to a halt: it asks for the bundle again and again, and the node prefers its requests
  to the messages of the application, which \<open>select!\<close> may do at every round. After \<open>EVENT_CAPACITY + CONTROL_CAPACITY + 2\<close>
  requests each task waits for the other, and no step is possible any more.
\<close>

theorem requests_jam_responder:
  assumes "chat_laws P J" "w_prims w = P" "w_json w = J" "world_ok w" "ikp_wf bob" "responder_ready P bob k b"
    and "Shutdown \<notin> set (ph_queue (app_node b))" "nd_events n = []" "nd_receiver_open n"
    and "ne_encrypted_payload e = [MARKER_BUNDLE_REQ]"
  shows "\<exists>p. tasks Q cfg (program_start b n) p \<and> (\<nexists>p'. task_step Q cfg p p') \<and> pg_result p = None \<and>
    pg_events p = replicate (EVENT_CAPACITY + CONTROL_CAPACITY + 2) (DirectMessage peer e)"
proof -
  let ?flooded = "flooded P bob k (DirectMessage peer e) (length (ph_queue (app_node b)))"
  obtain m where m: "tasks Q cfg (program_start b n) ((program_start b n)\<lparr>pg_node := m, pg_taken := length (ph_queue (app_node b))\<rparr>)"
      "nd_events m = []" "nd_receiver_open m"
    using node_takes_all [of "program_start b n" "length (ph_queue (app_node b))" Q cfg] assms(7-9)
    by (auto simp: program_start_def node_waits_def gone_def)
  let ?p0 = "(program_start b n)\<lparr>pg_node := m, pg_taken := length (ph_queue (app_node b))\<rparr>"
  have "?flooded 0 0 0 ?p0" using m(2,3) assms(6,8) by (simp add: flooded_def program_start_def)
  from flood_events [OF this order_refl] obtain p1 where
    p1: "tasks Q cfg ?p0 p1" "?flooded EVENT_CAPACITY EVENT_CAPACITY 0 p1" by blast
  obtain p2 where p2: "task_step Q cfg p1 p2" "?flooded (Suc EVENT_CAPACITY) EVENT_CAPACITY 0 p2" using flood_poll [OF p1(2)] by blast
  obtain p where p: "tasks Q cfg p2 p" "?flooded (Suc (Suc CONTROL_CAPACITY + EVENT_CAPACITY)) (Suc CONTROL_CAPACITY + EVENT_CAPACITY)
      (Suc CONTROL_CAPACITY) p"
    using flood_controls [OF assms(1-5,10) p2(2) order_refl] by blast
  have "app_waits p" "control_full p" "node_waits p" "events_full p" "pg_result p = None"
    using p(2) by (simp_all add: flooded_def app_waits_def control_full_def node_waits_def events_full_def)
  then have "\<nexists>p'. task_step Q cfg p p'"
    by (auto elim!: task_stepE own_stepE simp: app_puts_def node_puts_def app_takes_def node_takes_def app_hears_def node_polls_def)
  moreover have "tasks Q cfg (program_start b n) p" using m(1) p1(1) p2(1) p(1) by (meson rtranclp.rtrancl_into_rtrancl rtranclp_trans)
  moreover have "pg_events p = replicate (EVENT_CAPACITY + CONTROL_CAPACITY + 2) (DirectMessage peer e)"
    using p(2) by (simp add: flooded_def add.commute)
  ultimately show ?thesis using \<open>pg_result p = None\<close> by blast
qed

section \<open>Samples\<close>

definition sample_proto :: "network_envelope proto" where
  "sample_proto = \<lparr>pb_encode = (\<lambda>_. []), pb_decode = (\<lambda>_. Inl [])\<rparr>"

definition sample_start :: program where
  "sample_start = program_start sample_initiator_app (node_start (\<lambda>_. []) demo_config)"

text \<open>An event of the swarm has been put on the channel and is still unread.\<close>

definition sample_program :: program where
  "sample_program = the (node_puts (the (node_polls sample_proto demo_config (ConnectionClosed ''peer-b'') sample_start)))"

lemma sample_initiator_ok:
  "app_ok sample_initiator_app" "Shutdown \<notin> set (ph_queue (app_node sample_initiator_app))"
  "length (ph_queue (app_node sample_initiator_app)) \<le> CONTROL_CAPACITY"
  "length (nd_events (node_start (\<lambda>_. []) demo_config)) \<le> EVENT_CAPACITY" "\<not> nc_mdns_enabled demo_config"
  using sample_store_ok
  by (simp_all add: sample_initiator_app_def sample_app_def app_ok_def store_ok_def group_ok_def keys_ok_def initiator_ok_def
      initiator_new_def node_start_def demo_config_def default_config_def act_def Let_def)

lemma sample_node_events: "nd_events (node_start (\<lambda>_. []) demo_config) = []" "nd_receiver_open (node_start (\<lambda>_. []) demo_config)"
  by (simp_all add: node_start_def demo_config_def default_config_def act_def Let_def)

lemma sample_program_eq:
  "sample_program = sample_start\<lparr>pg_node := (node_start (\<lambda>_. []) demo_config)\<lparr>nd_events := [PeerDisconnected ''peer-b'']\<rparr>, pg_emitted := 1\<rparr>"
  by (simp add: sample_program_def sample_start_def node_polls_def node_puts_def node_waits_def events_full_def EVENT_CAPACITY_def
      program_start_def sample_node_events emit_def)

lemma sample_program_reached: "tasks sample_proto demo_config sample_start sample_program"
proof -
  let ?e = "ConnectionClosed ''peer-b''"
  let ?q = "sample_start\<lparr>pg_node := handle_swarm_event sample_proto demo_config ?e (pg_node sample_start)\<rparr>"
  have r: "\<not> gone sample_start" "\<not> gone ?q" by (simp_all add: gone_def sample_start_def program_start_def)
  have "node_polls sample_proto demo_config ?e sample_start = Some ?q"
    by (simp add: node_polls_def node_waits_def sample_start_def program_start_def)
  moreover from this have "node_puts ?q = Some sample_program"
    by (simp add: sample_program_def node_puts_def node_waits_def events_full_def EVENT_CAPACITY_def sample_start_def program_start_def
        sample_node_events emit_def)
  ultimately have "task_step sample_proto demo_config sample_start ?q" "task_step sample_proto demo_config ?q sample_program"
    using task_step.poll [OF r(1)] task_step.own [OF own_step.put_event [OF r(2)]] by blast+
  then show ?thesis by (meson converse_rtranclp_into_rtranclp r_into_rtranclp)
qed

theorem tasks_refine_loops_witness:
  "\<exists>inputs steps. run_loop inputs False sample_initiator_app = (None, pg_app sample_program) \<and>
    node_loop sample_proto demo_config steps (node_start (\<lambda>_. []) demo_config) = (True, pg_node sample_program) \<and>
    prefix (events_heard inputs) [PeerDisconnected ''peer-b''] \<and> controls_heard steps = []"
  using tasks_refine_loops [OF sample_initiator_ok(1-4) sample_program_reached [unfolded sample_start_def]]
  by (auto simp: sample_program_eq sample_start_def program_start_def sample_initiator_app_def sample_app_def)

theorem tasks_drain_or_jam_witness:
  "\<not> jammed sample_program \<and> (\<nexists>f. f 0 = sample_program \<and> (\<forall>i. own_step sample_proto (f i) (f (Suc i)))) \<and>
   (\<nexists>p'. (own_step sample_proto)\<^sup>*\<^sup>* sample_program p' \<and> (\<nexists>p''. own_step sample_proto p' p'') \<and> \<not> gone p' \<and> \<not> drained p')"
proof -
  have "\<not> jammed sample_program" by (simp add: jammed_def node_waits_def sample_program_eq)
  with tasks_drain_or_jam [OF sample_initiator_ok sample_program_reached [unfolded sample_start_def]] show ?thesis by auto
qed

theorem requests_jam_responder_witness:
  "\<exists>prekey p. published sample_prims (sample_kem 3) prekey \<and>
    tasks sample_proto demo_config (program_start (sample_responder_app prekey) (node_start (\<lambda>_. []) demo_config)) p \<and>
    (\<nexists>p'. task_step sample_proto demo_config p p') \<and> pg_result p = None \<and> length (pg_events p) = 322"
proof -
  obtain prekey where prekey: "published sample_prims (sample_kem 3) prekey" by (rule sample_published)
  have "Shutdown \<notin> set (ph_queue (app_node (sample_responder_app prekey)))" by (simp add: sample_responder_app_def sample_app_def)
  then obtain p where p: "tasks sample_proto demo_config (program_start (sample_responder_app prekey) (node_start (\<lambda>_. []) demo_config)) p"
      "\<nexists>p'. task_step sample_proto demo_config p p'" "pg_result p = None"
      "pg_events p = replicate (EVENT_CAPACITY + CONTROL_CAPACITY + 2)
        (DirectMessage ''mallory'' (sample_envelope\<lparr>ne_encrypted_payload := [MARKER_BUNDLE_REQ]\<rparr>))"
    using requests_jam_responder [OF sample_chat_laws sample_world_simps(1,2) sample_world_ok sample_identity_laws(3)
        sample_pair_ready(2) [OF prekey] _ sample_node_events, of "sample_envelope\<lparr>ne_encrypted_payload := [MARKER_BUNDLE_REQ]\<rparr>"
        sample_proto demo_config "''mallory''"] by auto
  from p(4) have "length (pg_events p) = 322" by (simp add: EVENT_CAPACITY_def CONTROL_CAPACITY_def)
  with prekey p(1-3) show ?thesis by blast
qed

end
