(* ===== verification/Spec2Isabelle.thy ===== *)
theory Spec2Isabelle
  imports Pqxdh Keys Crdt Restarts Tasks
begin

text \<open>
  A verification development of the core of the Presidium messenger, the Rust crates under
  \<open>src/packages/core\<close>.

  \<^bold>\<open>The program.\<close> \<open>presidium-crypto\<close> has hybrid (classical and post-quantum) identities, prekey
  bundles, the PQXDH key agreement, a Double Ratchet, sender keys for groups, media keys and
  sealed boxes. \<open>presidium-sqleet\<close> wraps the C interface of an encrypted SQLite;
  \<open>presidium-storage\<close> puts typed records, session snapshots, migrations and replicated documents on it.
  \<open>presidium-network\<close> runs a libp2p node that carries length-prefixed protobuf requests and
  published messages. \<open>presidium-demo\<close> is the application: it keeps a store, performs
  the handshake with one peer, and chats one to one and in a group. Each part is a theory here, in
  the order of these dependencies.

  \<^bold>\<open>How code becomes definitions.\<close> A struct is a record, an enum a datatype. A fallible function
  returns \<open>error + 'a\<close> and \<open>?\<close> is \<^const>\<open>and_then\<close>; a method with \<open>&mut self\<close> returns its result together
  with the new state, also when it fails, and \<open>?\<close> is \<^const>\<open>try_st\<close> or \<^const>\<open>then_st\<close>, so that what an
  operation leaves behind after an error is part of the model. Integers with a width are words.
  A panic is a value. The clock and every random draw are arguments. Third-party code
  is a parameter: the record \<open>prims\<close> has the cryptographic primitives, \<open>json_text\<close> the JSON text layer,
  \<open>column_engine\<close> the conversions of SQLite's columns, \<open>proto\<close>, \<open>keypairs\<close> and \<open>swarm_answers\<close> the
  network library; a connection carries the list of faults that its engine will report, each with or without a rollback of
  the open transaction by the engine; a directory carries what becomes of reads and writes of its files. What
  a theorem needs of a parameter is a named law (\<open>aead_law\<close>, \<open>dh_law\<close>, \<open>json_law\<close>, \<open>pb_law\<close>, ...); \<open>Instances\<close>
  has functions that satisfy all of them, and the witnesses use these.

  \<^bold>\<open>Theories.\<close>
  \<^item> \<open>Prelude\<close>: results, states, byte strings, endianness, \<open>run_all\<close>, and the interfaces that several
    components implement: \<open>codec\<close> and \<open>total_codec\<close> (decode undoes encode), \<open>kdf_chain\<close> (a chain of keys with a
    counter), \<open>machine\<close> (operations that keep an invariant).
  \<^item> \<open>Crypto_Base\<close>, \<open>Json\<close>, \<open>Instances\<close>: \<open>constants.rs\<close>, \<open>error.rs\<close>, the primitives and their laws; serde's data
    model, \<open>serialization.rs\<close> and the interfaces \<open>json_type\<close>, which every serialized type implements, and \<open>strict_json\<close>,
    for the types whose decoder only lets values of the right lengths pass.
  \<^item> \<open>Identity\<close> (\<open>identity.rs\<close>), \<open>Pqxdh\<close> (\<open>pqxdh.rs\<close>), \<open>Ratchet\<close> (\<open>ratchet.rs\<close>), \<open>Keys\<close> (\<open>keys.rs\<close>, \<open>crypto_box.rs\<close>):
    signatures and bundles verify and determine what they cover; both sides of PQXDH agree, and
    which parts of a prekey message the responder checks; \<open>decrypt\<close> implements an abstract window of
    message numbers, from which delivery in any order follows, and so do its weaknesses (replay,
    displacement, a full table). \<open>Ratchet_Types\<close>: array lengths are kept, the table of stored keys is bounded,
    the skipping loop ends.
  \<^item> \<open>Sqleet\<close> (\<open>presidium-sqleet/src/lib.rs\<close>): parameters, rows, statements, transactions (interface
    \<open>transactional\<close>), the life of a handle. \<open>Session_State\<close>, \<open>Models\<close>, \<open>Store\<close> (\<open>session_state.rs\<close>, \<open>models.rs\<close>, \<open>store.rs\<close>, the
    schema): every SQL statement is a function on a record of tables with its constraints, foreign keys among them, which
    \<open>Database::finish\<close> switches on before it returns. \<open>Storage\<close>, \<open>Records\<close>: integrity under every sequence of operations, atomic handing out of prekeys,
    migrations, pagination, and that what is stored is loaded (interfaces \<open>row_type\<close>, \<open>keyed_table\<close>). \<open>Crdt\<close>
    (\<open>crdt.rs\<close>): replicas converge (interface \<open>replica\<close>).
  \<^item> \<open>Wire\<close> (\<open>codec.rs\<close>, \<open>topics.rs\<close>, \<open>discovery.rs\<close>, \<open>identity.rs\<close> of the network), \<open>Node\<close> (\<open>node.rs\<close>, \<open>config.rs\<close>), \<open>Behaviour\<close>
    (\<open>behaviour.rs\<close> and the construction of a node): frames, topics, the event loop with its table of pending
    requests, and its runs with their histories, from which the book-keeping of requests is specified.
  \<^item> \<open>Node_Store\<close>, \<open>Chat\<close>, \<open>Group\<close>, \<open>App\<close> (\<open>store.rs\<close>, \<open>session.rs\<close>, \<open>group.rs\<close>, \<open>main.rs\<close> of the demo): the application with all its
    handlers and its loop, over the components above.
  \<^item> \<open>Conversation\<close>, \<open>App_Properties\<close>, \<open>Exchange\<close>, \<open>Handshake\<close> and this theory: what the composed system does. Sessions
    from a handshake deliver and survive a restart; a prekey message can be passed off with another identity
    (\<open>identity_misbinding\<close>); groups deliver; which messages end the application; and, here, two whole applications from the connection to the printed line.
  \<^item> \<open>App_Invariant\<close>: what every handler of the application keeps and only adds to, through the interface
    \<open>evolution\<close>, which the database, the store and the application implement.
  \<^item> \<open>Program\<close> (\<open>main\<close>, \<open>run_demo\<close> and the start of \<open>demo_main\<close>), \<open>Restarts\<close>: the program with its directory, started
    again and again, with the key derived from the stored salt; a conversation that outlives the runs of both programs, with messages out of order or lost.
  \<^item> \<open>Tasks\<close> (both \<open>run_loop\<close>s, the channels of \<open>P2pNode::start\<close>): the application and its node as two tasks that wait for
    each other on full channels. Every interleaving is a run of the two loops, so what is proved of the
    loops holds of the tasks; when the tasks come to rest, and how a peer can make them wait for ever.

  \<^bold>\<open>Bounds and fuel.\<close> \<open>skip_to\<close> has a termination proof (the distance of the indices), and
  \<open>skip_loop_ends\<close> shows that its limit ends it earlier. \<open>trim_start\<close> and \<open>replace_all\<close> take the length of the text as
  fuel; \<open>trim_start_done\<close> and \<open>replace_all_done\<close> show that this is enough. The application loop is structural in
  the list of its inputs. \<open>own_steps_end\<close> shows that the two tasks come to rest. Message counters are \<open>u64\<close>, and theorems about many messages say
  that they stay below \<open>2^64\<close>.

  \<^bold>\<open>Not modelled.\<close> The inside of third-party packages (cryptographic primitives, \<open>serde_json\<close>, SQLite, Argon2,
  yrs, prost, libp2p, tokio), whose documented behaviour is assumed where a law says so; secrecy and
  unforgeability, which are statements about probability; zeroization of memory, logging, the command line
  parser and the inside of the runtime of the demo (the order in which tasks run is arbitrary); the conversions of libp2p's events into \<open>PresidiumEvent\<close>; the messages of the
  protobuf schema that no code uses; the crates \<open>presidium-ffi\<close>, \<open>presidium-media\<close> and \<open>presidium-sync\<close>, which are empty;
  build scripts and re-exports. The wait for the answer to \<open>listen_addrs\<close> before the
  application's loop begins is not part of \<open>Tasks\<close>, which starts with that loop. Values of 2 GiB and more, whose length
  \<open>bind_all\<close> would cut to a C int, are left out.
\<close>

section \<open>Two applications, from the connection to the printed message\<close>

text \<open>
  C1. A whole conversation of the demo. Two applications that have just been started, one as
  initiator and one as responder, are connected and handed each other's envelopes in the order in
  which they were queued. The handshake runs through, the initiator queues its greeting, and
  then every line that is typed there and is no command is queued as one more envelope with
  a sealed payload; both loops keep running. If no payload begins with one of the five bytes
  that mark messages of the handshake, then the responder prints exactly the typed
  lines, in their order, each without its surrounding white space.
\<close>

theorem conversation_end_to_end:
  assumes "text_laws P J" "ikp_wf alice" "ikp_wf bob" "kpriv_wf eph"
    and "plain cid" "utf8 (bstr cid)" "length cid < 2 ^ 31"
    and "initiator_ready alice cid peer_b a" "room_for cid (sent_ids typed) (app_store a)"
    and "responder_ready P bob k b"
      "room_for cid (message_id_bytes (w_message_nonce v4) (clock_u64 (w_now w3)) # received_ids typed vs) (app_store b)"
    and "\<forall>w\<in>{w1, w2, w3, v1, v2, v3}. w_prims w = P \<and> w_json w = J"
      "pd_classical (w_prekey_draws w2) = kpriv_classical eph" "pd_seed (w_prekey_draws w2) = Some (kpriv_pq eph)"
      "length (w_ratchet_draw v2) = 32" "length (w_ratchet_draw w3) = 32" "length (w_chain_draw w3) = 32"
    and typed: "\<forall>(w, line)\<in>set typed. w_prims w = P \<and> w_json w = J \<and> chat_line line" "Suc (length typed) \<le> 2 ^ 64"
    and vs: "\<forall>w\<in>set (v4 # vs). w_prims w = P \<and> w_json w = J" "length vs = length typed"
  shows "\<exists>e1 e2 e3 e4 e5 e6 es a'.
    run_loop ((w1, NodeEvent (PeerConnected peer_b)) # map (from_peer peer_b) [(w2, e2), (w3, e4)] @ line_inputs typed) False a =
      (None, a') \<and>
    ph_queue (app_node a') = ph_queue (app_node a) @ map (SendDirect peer_b) ([e1, e3, e5, e6] @ es) \<and>
    length es = length typed \<and> (\<forall>e\<in>set (e6 # es). sealed_payload P e) \<and>
    ((\<forall>e\<in>set (e6 # es). unmarked e) \<longrightarrow> (\<exists>b' printed.
      run_loop ((v0, NodeEvent (PeerConnected peer_a)) #
        map (from_peer peer_a) ([(v1, e1), (v2, e3), (v3, e5), (v4, e6)] @ zip vs es)) False b = (None, b') \<and>
      ph_queue (app_node b') = ph_queue (app_node b) @ map (SendDirect peer_a) [e2, e4] \<and>
      app_output b' = printed @ map (\<lambda>(w, line). ''[1:1] '' @ short_peer peer_a @ '': '' @ trim line) typed))"
proof -
  let ?k = "w_ratchet_draw w3"
  obtain e1 e2 e3 e4 e5 e6 a1 b1 c where h:
    "run_loop ((w1, NodeEvent (PeerConnected peer_b)) # map (from_peer peer_b) [(w2, e2), (w3, e4)]) False a = (None, a1)"
    "run_loop ((v0, NodeEvent (PeerConnected peer_a)) # map (from_peer peer_a) [(v1, e1), (v2, e3), (v3, e5)]) False b = (None, b1)"
    "ph_queue (app_node a1) = ph_queue (app_node a) @ map (SendDirect peer_b) [e1, e3, e5, e6]"
    "ph_queue (app_node b1) = ph_queue (app_node b) @ map (SendDirect peer_a) [e2, e4]"
    "fresh_chain P c" "chat_envelope P J alice ?k cid c 0 (w_now w3) (hello cid) e6"
    "sends_at P alice ?k cid peer_b c 1 a1" "room_for cid (sent_ids typed) (app_store a1)"
    "reads_at P alice ?k cid c 0 b1"
    "room_for cid (message_id_bytes (w_message_nonce v4) (clock_u64 (w_now w3)) # received_ids typed vs) (app_store b1)"
    using handshake_completes [OF assms(1-17), of v0 peer_a] by blast
  obtain hs where hs: "\<And>ys. run_loop (((w1, NodeEvent (PeerConnected peer_b)) # map (from_peer peer_b) [(w2, e2), (w3, e4)]) @ ys) False a
      = run_loop ys hs a1"
    using run_loop_append [OF h(1)] by blast
  obtain es a' where es: "run_loop (line_inputs typed) hs a1 = (None, a')" "chat_stream P J alice ?k cid c 1 typed es"
      "ph_queue (app_node a') = ph_queue (app_node a1) @ map (SendDirect peer_b) es"
    using lines_sent [OF assms(1,2,16) h(5) assms(5) typed(1) _ h(7), where uids = "[]" and hs = hs] h(8) typed(2) by auto
  have sealed: "\<forall>e\<in>set (e6 # es). sealed_payload P e"
    using chat_stream_sealed [OF es(2) h(5)] chat_envelope_sealed [OF h(6,5)] by simp
  have "\<exists>b' printed. run_loop ((v0, NodeEvent (PeerConnected peer_a)) #
        map (from_peer peer_a) ([(v1, e1), (v2, e3), (v3, e5), (v4, e6)] @ zip vs es)) False b = (None, b') \<and>
      ph_queue (app_node b') = ph_queue (app_node b) @ map (SendDirect peer_a) [e2, e4] \<and>
      app_output b' = printed @ map (\<lambda>(w, line). ''[1:1] '' @ short_peer peer_a @ '': '' @ trim line) typed"
    if u: "\<forall>e\<in>set (e6 # es). unmarked e"
  proof -
    obtain hs' where hs': "\<And>ys. run_loop (((v0, NodeEvent (PeerConnected peer_a)) # map (from_peer peer_a) [(v1, e1), (v2, e3), (v3, e5)]) @ ys)
        False b = run_loop ys hs' b1"
      using run_loop_append [OF h(2)] by blast
    have "\<forall>(w, line)\<in>set typed. chat_line line" using typed(1) by auto
    then obtain b' printed where b': "run_loop ((v4, NodeEvent (DirectMessage peer_a e6)) # message_inputs peer_a vs es) hs' b1 = (None, b')"
        "app_node b' = app_node b1"
        "app_output b' = printed @ map (\<lambda>(w, line). ''[1:1] '' @ short_peer peer_a @ '': '' @ trim line) typed"
      using greeting_and_lines_read [OF assms(1) h(5) assms(5,6) h(6) es(2) u vs _ typed(2) h(9,10)] by blast
    show ?thesis
      using hs' [of "(v4, NodeEvent (DirectMessage peer_a e6)) # message_inputs peer_a vs es"] b' h(4)
      by (intro exI [of _ b'] exI [of _ printed]) (simp del: run_loop.simps)
  qed
  note read = this
  show ?thesis
  proof (intro exI conjI)
    show "run_loop ((w1, NodeEvent (PeerConnected peer_b)) # map (from_peer peer_b) [(w2, e2), (w3, e4)] @ line_inputs typed) False a =
        (None, a')"
      using hs [of "line_inputs typed"] es(1) by (simp only: append_Cons)
    show "ph_queue (app_node a') = ph_queue (app_node a) @ map (SendDirect peer_b) ([e1, e3, e5, e6] @ es)"
      using es(3) h(3) by simp
  qed (rule chat_stream_length [OF es(2)] sealed impI read | assumption)+
qed

theorem conversation_end_to_end_witness:
  "\<exists>prekey e1 e2 e3 e4 e5 e6 e7 e8 a' b' printed. published sample_prims (sample_kem 3) prekey \<and>
    run_loop [(sample_world 1 0, NodeEvent (PeerConnected ''peer-b'')),
      (sample_world 1 0, NodeEvent (DirectMessage ''peer-b'' e2)), (sample_world 1 0, NodeEvent (DirectMessage ''peer-b'' e4)),
      (sample_world 1 1, Line ''hi''), (sample_world 1 2, Line ''there'')] False sample_initiator_app = (None, a') \<and>
    ph_queue (app_node a') = map (SendDirect ''peer-b'') [e1, e3, e5, e6, e7, e8] \<and>
    run_loop [(sample_world 2 0, NodeEvent (PeerConnected ''peer-a'')),
      (sample_world 2 0, NodeEvent (DirectMessage ''peer-a'' e1)), (sample_world 2 0, NodeEvent (DirectMessage ''peer-a'' e3)),
      (sample_world 2 0, NodeEvent (DirectMessage ''peer-a'' e5)), (sample_world 2 3, NodeEvent (DirectMessage ''peer-a'' e6)),
      (sample_world 2 4, NodeEvent (DirectMessage ''peer-a'' e7)), (sample_world 2 5, NodeEvent (DirectMessage ''peer-a'' e8))]
      False (sample_responder_app prekey) = (None, b') \<and>
    ph_queue (app_node b') = map (SendDirect ''peer-a'') [e2, e4] \<and>
    app_output b' = printed @ [''[1:1] peer-a: hi'', ''[1:1] peer-a: there'']"
proof -
  obtain prekey where prekey: "published sample_prims (sample_kem 3) prekey" by (rule sample_published)
  let ?typed = "[(sample_world 1 1, ''hi''), (sample_world 1 2, ''there'')]"
  let ?vs = "[sample_world 2 4, sample_world 2 5]"
  have cid: "plain ''dev-a''" "utf8 (bstr ''dev-a'')" "length ''dev-a'' < 2 ^ 31" by (simp add: plain_def NUL_def, code_simp, simp)
  have ids: "distinct (sent_ids ?typed)" "length (sent_ids ?typed) < 9"
      "distinct (message_id_bytes 3 (clock_u64 10) # received_ids ?typed ?vs)"
      "length (message_id_bytes 3 (clock_u64 10) # received_ids ?typed ?vs) < 9"
    by (simp_all add: sent_ids_def received_ids_def sample_world_simps message_id_bytes_def u32_first_byte)
  have ws: "\<forall>w\<in>{sample_world 1 0, sample_world 1 0, sample_world 1 0, sample_world 2 0, sample_world 2 0, sample_world 2 0}.
      w_prims w = sample_prims \<and> w_json w = sample_json"
      "\<forall>(w, line)\<in>set ?typed. w_prims w = sample_prims \<and> w_json w = sample_json \<and> chat_line line"
      "\<forall>w\<in>set (sample_world 2 3 # ?vs). w_prims w = sample_prims \<and> w_json w = sample_json"
    by (simp_all add: sample_world_simps sample_lines)
  have "length (w_ratchet_draw (sample_world r n)) = 32" "length (w_chain_draw (sample_world r n)) = 32"
      "pd_classical (w_prekey_draws (sample_world r n)) = kpriv_classical (sample_kem 5)"
      "pd_seed (w_prekey_draws (sample_world r n)) = Some (kpriv_pq (sample_kem 5))" for r n
    by (simp_all add: sample_world_simps sample_draws_def)
  note draws = this
  have room: "room_for ''dev-a'' (message_id_bytes (w_message_nonce (sample_world 2 3)) (clock_u64 (w_now (sample_world 1 0))) #
      received_ids ?typed ?vs) (app_store (sample_responder_app prekey))"
    unfolding sample_world_simps by (rule sample_room(2) [OF ids(3,4)])
  have len: "Suc (length ?typed) \<le> 2 ^ 64" "length ?vs = length ?typed" by simp_all
  note c = conversation_end_to_end [where a = sample_initiator_app and b = "sample_responder_app prekey" and k = "sample_kem 3"
      and ?w1.0 = "sample_world 1 0" and ?w2.0 = "sample_world 1 0" and ?w3.0 = "sample_world 1 0" and ?v0.0 = "sample_world 2 0"
      and ?v1.0 = "sample_world 2 0" and ?v2.0 = "sample_world 2 0" and ?v3.0 = "sample_world 2 0" and ?v4.0 = "sample_world 2 3"
      and typed = ?typed and vs = ?vs and peer_a = "''peer-a''" and peer_b = "''peer-b''" and cid = "''dev-a''"
      and P = sample_prims and J = sample_json and alice = "sample_identity 1" and bob = "sample_identity 2" and eph = "sample_kem 5",
    OF sample_text_laws sample_identity_laws(3,3,4) cid sample_pair_ready(1) [OF prekey] sample_room(1) [OF ids(1,2)]
      sample_pair_ready(2) [OF prekey] room ws(1) draws(3,4,1,1,2) ws(2) len(1) ws(3) len(2)]
  obtain e1 e2 e3 e4 e5 e6 es a' where run:
    "run_loop ((sample_world 1 0, NodeEvent (PeerConnected ''peer-b'')) #
      map (from_peer ''peer-b'') [(sample_world 1 0, e2), (sample_world 1 0, e4)] @ line_inputs ?typed) False sample_initiator_app = (None, a')"
    "ph_queue (app_node a') = ph_queue (app_node sample_initiator_app) @ map (SendDirect ''peer-b'') ([e1, e3, e5, e6] @ es)"
    "length es = length ?typed" "\<forall>e\<in>set (e6 # es). sealed_payload sample_prims e"
    "(\<forall>e\<in>set (e6 # es). unmarked e) \<longrightarrow> (\<exists>b' printed.
      run_loop ((sample_world 2 0, NodeEvent (PeerConnected ''peer-a'')) # map (from_peer ''peer-a'')
        ([(sample_world 2 0, e1), (sample_world 2 0, e3), (sample_world 2 0, e5), (sample_world 2 3, e6)] @ zip ?vs es)) False
        (sample_responder_app prekey) = (None, b') \<and>
      ph_queue (app_node b') = ph_queue (app_node (sample_responder_app prekey)) @ map (SendDirect ''peer-a'') [e2, e4] \<and>
      app_output b' = printed @ map (\<lambda>(w, line). ''[1:1] '' @ short_peer ''peer-a'' @ '': '' @ trim line) ?typed)"
    using c by (elim exE conjE) (rule that)
  obtain e7 e8 where es: "es = [e7, e8]" using run(3) by (auto simp: length_Suc_conv)
  obtain b' printed where b': "run_loop ((sample_world 2 0, NodeEvent (PeerConnected ''peer-a'')) # map (from_peer ''peer-a'')
        ([(sample_world 2 0, e1), (sample_world 2 0, e3), (sample_world 2 0, e5), (sample_world 2 3, e6)] @ zip ?vs es)) False
        (sample_responder_app prekey) = (None, b')"
      "ph_queue (app_node b') = ph_queue (app_node (sample_responder_app prekey)) @ map (SendDirect ''peer-a'') [e2, e4]"
      "app_output b' = printed @ map (\<lambda>(w, line). ''[1:1] '' @ short_peer ''peer-a'' @ '': '' @ trim line) ?typed"
    using run(4,5) sample_unmarked by blast
  have "ph_queue (app_node sample_initiator_app) = []" "ph_queue (app_node (sample_responder_app prekey)) = []"
    by (simp_all add: sample_initiator_app_def sample_responder_app_def sample_app_def)
  moreover have "short_peer ''peer-a'' = ''peer-a''" by (simp add: short_peer_def)
  ultimately show ?thesis
    using prekey run(1,2) b'
    by (intro exI conjI) (assumption | simp add: es sample_lines del: run_loop.simps)+
qed

end
